(* ===== verification/Prelude.thy ===== *)
theory Prelude
  imports Main "HOL-Library.Word" "HOL-Library.Sublist"
begin

text \<open>
  The C library the drivers are written against, and the lemmas every component shares.

  Text buffers are \<open>char list\<close>s of fixed length; the C string in a buffer is what comes
  before its first NUL (\<open>cstr\<close>). \<open>snprintf_s\<close>, \<open>strncpy_buf\<close>, \<open>skip_spaces\<close>,
  \<open>sscanf\<close> and the printers \<open>dec\<close>, \<open>padr\<close>, \<open>hex2\<close> are the functions of that name
  (or the conversions \<open>%d\<close>, \<open>%-Nd\<close>, \<open>%02x\<close>) as the kernel's string library
  documents them. C's \<open>int\<close> is HOL's \<open>int\<close>, with \<open>wrap32\<close> where the code truncates.
  A read or write outside an object, or through a pointer that is not valid, is a
  \<open>fault\<close>, the left summand of a result.
\<close>

named_theorems buf_simps "lengths and contents of text buffers"

section \<open>Faults\<close>

datatype fault = OutOfBounds | NullDeref | UserDeref | UseAfterFree | Uninitialised | Panic

definition bindF :: "fault + 'a \<Rightarrow> ('a \<Rightarrow> fault + 'b) \<Rightarrow> fault + 'b" where
  "bindF m f = (case m of Inl e \<Rightarrow> Inl e | Inr a \<Rightarrow> f a)"

lemma bindF_simps [simp]: "bindF (Inl e) f = Inl e" "bindF (Inr a) f = f a"
  by (simp_all add: bindF_def)

lemma bindF_Inr: "bindF m f = Inr b \<longleftrightarrow> (\<exists>a. m = Inr a \<and> f a = Inr b)"
  by (cases m) simp_all

lemma bindF_Inl: "bindF m f = Inl e \<longleftrightarrow> m = Inl e \<or> (\<exists>a. m = Inr a \<and> f a = Inl e)"
  by (cases m) simp_all

lemma bindF_assoc: "bindF (bindF m f) g = bindF m (\<lambda>a. bindF (f a) g)"
  by (cases m) simp_all

section \<open>C strings\<close>

abbreviation NUL :: char where "NUL \<equiv> CHR 0x00"
abbreviation NL :: char where "NL \<equiv> CHR 0x0A"
abbreviation SP :: char where "SP \<equiv> CHR 0x20"

definition cstr :: "char list \<Rightarrow> string" where
  "cstr b = takeWhile (\<lambda>c. c \<noteq> NUL) b"

definition strlen :: "char list \<Rightarrow> nat" where
  "strlen b = length (cstr b)"

definition strncmp_eq :: "char list \<Rightarrow> char list \<Rightarrow> nat \<Rightarrow> bool" where
  \<comment> \<open>\<open>strncmp(a, b, n) == 0\<close>\<close>
  "strncmp_eq a b n \<longleftrightarrow> take n (cstr a) = take n (cstr b)"

definition snprintf_s :: "char list \<Rightarrow> nat \<Rightarrow> char list \<Rightarrow> char list" where
  \<comment> \<open>\<open>snprintf(dst, n, "%s", src)\<close>: the bytes after the terminator keep their old values\<close>
  "snprintf_s dst n src =
     (let s = take (n - 1) (cstr src) in s @ NUL # drop (Suc (length s)) dst)"

definition strncpy_buf :: "char list \<Rightarrow> char list \<Rightarrow> nat \<Rightarrow> char list" where
  \<comment> \<open>\<open>strncpy(dst, src, n)\<close>: pads with NUL up to \<open>n\<close>\<close>
  "strncpy_buf dst src n =
     (let s = take n (cstr src) in s @ replicate (n - length s) NUL @ drop n dst)"

lemma cstr_Nil [simp]: "cstr [] = []"
  by (simp add: cstr_def)

lemma cstr_Cons [simp]: "cstr (c # b) = (if c = NUL then [] else c # cstr b)"
  by (simp add: cstr_def)

lemma cstr_no_NUL [simp]: "NUL \<notin> set (cstr b)"
  by (induction b) auto

lemma cstr_id: "NUL \<notin> set s \<Longrightarrow> cstr s = s"
  by (induction s) auto

lemma cstr_cstr [simp]: "cstr (cstr b) = cstr b"
  by (simp add: cstr_id)

lemma cstr_append_NUL: "NUL \<notin> set s \<Longrightarrow> cstr (s @ NUL # t) = s"
  by (induction s) auto

lemma cstr_cut [simp]: "cstr (s @ NUL # t) = cstr s"
  by (induction s) auto

lemma cstr_take_no_NUL [simp]: "cstr (take n (cstr b)) = take n (cstr b)"
  by (rule cstr_id) (meson cstr_no_NUL in_set_takeD)

lemma length_cstr_le: "length (cstr b) \<le> length b"
  by (simp add: cstr_def length_takeWhile_le)

lemma length_cstr_less: "NUL \<in> set b \<Longrightarrow> length (cstr b) < length b"
  by (induction b) auto

lemma nth_cstr: "NUL \<in> set b \<Longrightarrow> b ! length (cstr b) = NUL"
  by (induction b) auto

lemma strncmp_eq_prefix:
  assumes "NUL \<notin> set c"
  shows "strncmp_eq b c (length c) \<longleftrightarrow> prefix c (cstr b)"
  using assms by (auto simp: strncmp_eq_def cstr_id prefix_def) (metis append_take_drop_id)

lemma length_snprintf_s [buf_simps]:
  "0 < n \<Longrightarrow> n \<le> length dst \<Longrightarrow> length (snprintf_s dst n src) = length dst"
  by (auto simp: snprintf_s_def Let_def)

lemma cstr_snprintf_s [buf_simps]: "cstr (snprintf_s dst n src) = take (n - 1) (cstr src)"
proof -
  have "NUL \<notin> set (take (n - 1) (cstr src))"
    by (meson cstr_no_NUL in_set_takeD)
  then show ?thesis by (simp add: snprintf_s_def Let_def cstr_append_NUL)
qed

lemma snprintf_s_after:
  "length (cstr src) < n \<Longrightarrow>
   drop (Suc (length (cstr src))) (snprintf_s dst n src) = drop (Suc (length (cstr src))) dst"
  by (simp add: snprintf_s_def Let_def)

lemma snprintf_s_keeps_last:
  assumes "n \<le> length dst" "0 < n" "dst ! (n - 1) = NUL"
  shows "snprintf_s dst n src ! (n - 1) = NUL"
proof (cases "length (cstr src) < n - 1")
  case True
  then obtain x where "n - 1 = Suc (length (cstr src) + x)"
    by (metis less_iff_Suc_add)
  then show ?thesis using assms
    by (simp add: snprintf_s_def Let_def nth_append)
next
  case False
  then show ?thesis by (simp add: snprintf_s_def Let_def nth_append)
qed

section \<open>Text buffers that stay terminated\<close>

definition buf_ok :: "nat \<Rightarrow> char list \<Rightarrow> bool" where
  "buf_ok n b \<longleftrightarrow> length b = n \<and> 0 < n \<and> b ! (n - 1) = NUL"

lemma buf_ok_replicate: "0 < n \<Longrightarrow> buf_ok n (replicate n NUL)"
  by (simp add: buf_ok_def)

lemma buf_ok_snprintf: "buf_ok n b \<Longrightarrow> buf_ok n (snprintf_s b n src)"
  using snprintf_s_keeps_last [of n b src] by (simp add: buf_ok_def length_snprintf_s)

lemma buf_ok_terminated: "buf_ok n b \<Longrightarrow> i < n \<Longrightarrow> NUL \<in> set (drop i b)"
  by (auto simp: buf_ok_def in_set_conv_nth intro!: exI [of _ "n - 1 - i"])

lemma buf_ok_strlen: "buf_ok n b \<Longrightarrow> length (cstr b) < n"
  using buf_ok_terminated [of n b 0] length_cstr_less [of b] by (auto simp: buf_ok_def)

end
