(* ===== verification/Text_Scan.thy ===== *)
theory Text_Scan
  imports Prelude
begin

text \<open>
  Character classes, the number printers behind \<open>%d\<close>, \<open>%-Nd\<close>, \<open>%-Ns\<close>, \<open>%02x\<close>, and
  the scanner \<open>sscanf\<close> for the formats the drivers use (\<open>%d\<close>, \<open>%s\<close>, a blank).
  \<open>isspace\<close> is the kernel's table: the ASCII white space and the byte 160.
\<close>

section \<open>Character classes\<close>

definition isspace :: "char \<Rightarrow> bool" where
  "isspace c \<longleftrightarrow> c \<in> {CHR 0x09, CHR 0x0A, CHR 0x0B, CHR 0x0C, CHR 0x0D, CHR 0x20, CHR 0xA0}"

definition isdigit :: "char \<Rightarrow> bool" where
  "isdigit c \<longleftrightarrow> 48 \<le> (of_char c :: nat) \<and> (of_char c :: nat) \<le> 57"

lemma isspace_simps [simp]: "isspace SP" "isspace NL" "\<not> isspace NUL"
  by (simp_all add: isspace_def)

lemma isdigit_not_space: "isdigit c \<Longrightarrow> \<not> isspace c"
  by (auto simp: isspace_def isdigit_def)

lemma isdigit_not_minus [simp]: "\<not> isdigit CHR ''-''" and isspace_not_minus [simp]: "\<not> isspace CHR ''-''"
  by (simp_all add: isdigit_def isspace_def)

lemma isdigit_not_NUL: "isdigit c \<Longrightarrow> c \<noteq> NUL"
  by (auto simp: isdigit_def)

definition skip_spaces :: "string \<Rightarrow> string" where
  "skip_spaces s = dropWhile isspace s"

lemma skip_spaces_Nil [simp]: "skip_spaces [] = []"
  by (simp add: skip_spaces_def)

lemma skip_spaces_Cons [simp]:
  "skip_spaces (c # s) = (if isspace c then skip_spaces s else c # s)"
  by (simp add: skip_spaces_def)

section \<open>Printing\<close>

definition digit :: "nat \<Rightarrow> char" where
  "digit n = (char_of (48 + n :: nat))"

fun dec_nat :: "nat \<Rightarrow> string" where
  "dec_nat n = (if n < 10 then [digit n] else dec_nat (n div 10) @ [digit (n mod 10)])"

declare dec_nat.simps [simp del]

definition dec :: "int \<Rightarrow> string" where
  "dec i = (if i < 0 then CHR ''-'' # dec_nat (nat (- i)) else dec_nat (nat i))"

definition padr :: "nat \<Rightarrow> string \<Rightarrow> string" where
  "padr n s = s @ replicate (n - length s) SP"

definition hex_digit :: "nat \<Rightarrow> char" where
  "hex_digit n = (if n < 10 then digit n else char_of (87 + n :: nat))"

definition hex2 :: "nat \<Rightarrow> string" where
  "hex2 b = [hex_digit (b div 16 mod 16), hex_digit (b mod 16)]"

fun hex_nat :: "nat \<Rightarrow> string" where
  "hex_nat n = (if n < 16 then [hex_digit n] else hex_nat (n div 16) @ [hex_digit (n mod 16)])"

declare hex_nat.simps [simp del]

definition wrap32 :: "int \<Rightarrow> int" where
  "wrap32 i = signed_take_bit 31 i"

lemma wrap32_id: "- 2147483648 \<le> i \<Longrightarrow> i < 2147483648 \<Longrightarrow> wrap32 i = i"
  unfolding wrap32_def by (rule signed_take_bit_int_eq_self) simp_all

lemma of_char_digit: "n < 10 \<Longrightarrow> (of_char (digit n) :: nat) = 48 + n"
  by (simp add: digit_def)

lemma isdigit_digit: "n < 10 \<Longrightarrow> isdigit (digit n)"
  by (simp add: isdigit_def of_char_digit)

lemma dec_nat_digits: "c \<in> set (dec_nat n) \<Longrightarrow> isdigit c"
proof (induction n rule: dec_nat.induct)
  case (1 n)
  then show ?case by (subst (asm) (2) dec_nat.simps) (auto simp: isdigit_digit split: if_splits)
qed

lemma dec_nat_nonempty [simp]: "dec_nat n \<noteq> []"
  by (subst dec_nat.simps) simp

lemma dec_nonempty [simp]: "dec i \<noteq> []"
  by (simp add: dec_def)

lemma dec_no_space: "c \<in> set (dec i) \<Longrightarrow> \<not> isspace c \<and> c \<noteq> NUL"
  by (auto simp: dec_def dest: dec_nat_digits isdigit_not_space isdigit_not_NUL split: if_splits)

section \<open>Scanning\<close>

definition digits_val :: "string \<Rightarrow> nat" where
  "digits_val ds = foldl (\<lambda>a c. 10 * a + (of_char c - 48)) 0 ds"

definition scan_d :: "string \<Rightarrow> (int \<times> string) option" where
  \<comment> \<open>one \<open>%d\<close>: blanks, an optional minus sign, digits; \<open>None\<close> when no digit follows\<close>
  "scan_d s0 =
     (let s = skip_spaces s0;
          neg = (s \<noteq> [] \<and> hd s = CHR ''-'');
          t = (if neg then tl s else s);
          ds = takeWhile isdigit t;
          v = int (digits_val ds)
      in if ds = [] then None
         else Some (if neg then - v else v, dropWhile isdigit t))"

datatype conv = FmtD | FmtS | FmtBlank

datatype scanned = IntV int | StrV string

fun sscanf :: "string \<Rightarrow> conv list \<Rightarrow> scanned list" where
  \<comment> \<open>the values assigned, in order; their number is what the C function returns\<close>
  "sscanf s [] = []"
| "sscanf s (FmtBlank # f) = sscanf (skip_spaces s) f"
| "sscanf s (FmtD # f) =
     (case scan_d s of None \<Rightarrow> [] | Some (v, r) \<Rightarrow> IntV (wrap32 v) # sscanf r f)"
| "sscanf s (FmtS # f) =
     (if s = [] then []
      else let t = skip_spaces s
           in StrV (takeWhile (\<lambda>c. \<not> isspace c) t) # sscanf (dropWhile (\<lambda>c. \<not> isspace c) t) f)"

lemma digits_val_snoc: "digits_val (ds @ [c]) = 10 * digits_val ds + (of_char c - 48)"
  by (simp add: digits_val_def)

lemma digits_val_dec_nat: "digits_val (dec_nat n) = n"
proof (induction n rule: dec_nat.induct)
  case (1 n)
  show ?case
  proof (cases "n < 10")
    case True
    then show ?thesis by (subst dec_nat.simps) (simp add: digits_val_def of_char_digit)
  next
    case False
    then show ?thesis using 1
      by (subst dec_nat.simps) (simp add: digits_val_snoc of_char_digit)
  qed
qed

lemma takeWhile_digits:
  assumes "\<And>c. c \<in> set ds \<Longrightarrow> isdigit c" "r = [] \<or> \<not> isdigit (hd r)"
  shows "takeWhile isdigit (ds @ r) = ds" "dropWhile isdigit (ds @ r) = r"
proof -
  have "takeWhile isdigit r = []" "dropWhile isdigit r = r"
    using assms(2) by (cases r; simp)+
  then show "takeWhile isdigit (ds @ r) = ds" "dropWhile isdigit (ds @ r) = r"
    using assms(1) by (simp_all add: takeWhile_append2 dropWhile_append2)
qed

lemma skip_spaces_dec: "skip_spaces (dec v @ r) = dec v @ r"
proof -
  obtain c t where "dec v = c # t" by (cases "dec v") simp_all
  moreover from this have "\<not> isspace c" using dec_no_space [of c v] by simp
  ultimately show ?thesis by simp
qed

text \<open>Scanning what \<open>%d\<close> printed gives the number back.\<close>

lemma scan_d_dec_nat:
  assumes "r = [] \<or> \<not> isdigit (hd r)"
  shows "takeWhile isdigit (dec_nat n @ r) = dec_nat n" "dropWhile isdigit (dec_nat n @ r) = r"
  using takeWhile_digits [OF dec_nat_digits assms] by auto

lemma scan_d_dec:
  assumes r: "r = [] \<or> \<not> isdigit (hd r)"
  shows "scan_d (dec v @ r) = Some (v, r)"
proof (cases "v < 0")
  case True
  then show ?thesis
    by (simp add: scan_d_def dec_def Let_def digits_val_dec_nat scan_d_dec_nat [OF r])
next
  case False
  have "hd (dec_nat (nat v)) \<in> set (dec_nat (nat v))" by simp
  then have "hd (dec_nat (nat v)) \<noteq> CHR ''-''"
    using dec_nat_digits by fastforce
  moreover have "skip_spaces (dec_nat (nat v) @ r) = dec_nat (nat v) @ r"
    using skip_spaces_dec [of v r] False by (simp add: dec_def)
  ultimately show ?thesis using False
    by (simp add: scan_d_def dec_def Let_def digits_val_dec_nat scan_d_dec_nat [OF r])
qed

lemma scan_d_blank [simp]: "scan_d (SP # s) = scan_d s"
  by (simp add: scan_d_def)

lemma scan_d_Nil [simp]: "scan_d [] = None"
  by (simp add: scan_d_def)

lemma scan_d_nondigit: "\<not> isspace c \<Longrightarrow> \<not> isdigit c \<Longrightarrow> c \<noteq> CHR ''-'' \<Longrightarrow> scan_d (c # s) = None"
  by (simp add: scan_d_def)

text \<open>Scanning a word that holds no blank.\<close>

lemma sscanf_word:
  assumes "w \<noteq> []" "\<And>c. c \<in> set w \<Longrightarrow> \<not> isspace c" "r = [] \<or> isspace (hd r)"
  shows "sscanf (w @ r) (FmtS # f) = StrV w # sscanf r f"
proof -
  have "skip_spaces (w @ r) = w @ r"
    using assms(1,2) by (cases w) auto
  moreover have "takeWhile (\<lambda>c. \<not> isspace c) r = []" "dropWhile (\<lambda>c. \<not> isspace c) r = r"
    using assms(3) by (cases r; simp)+
  then have "takeWhile (\<lambda>c. \<not> isspace c) (w @ r) = w"
    "dropWhile (\<lambda>c. \<not> isspace c) (w @ r) = r"
    using assms(2) by (simp_all add: takeWhile_append2 dropWhile_append2)
  ultimately show ?thesis using assms(1) by simp
qed

text \<open>The formats the commands use, on numbers that \<open>%d\<close> printed.\<close>

definition is_int32 :: "int \<Rightarrow> bool" where
  "is_int32 i \<longleftrightarrow> - 2147483648 \<le> i \<and> i < 2147483648"

definition stops :: "string \<Rightarrow> bool" where
  \<comment> \<open>text after a number that does not continue it\<close>
  "stops r \<longleftrightarrow> r = [] \<or> \<not> isdigit (hd r)"

lemma stops_blank [simp]: "stops (SP # r)" and stops_Nil [simp]: "stops []" and stops_NL [simp]: "stops [NL]"
  by (simp_all add: stops_def isdigit_def)

lemma sscanf_d: "is_int32 v \<Longrightarrow> stops r \<Longrightarrow> sscanf (dec v @ r) (FmtD # f) = IntV v # sscanf r f"
  using scan_d_dec [of r v] by (simp add: stops_def is_int32_def wrap32_id)

lemma sscanf_blank: "sscanf (SP # dec v @ r) (FmtBlank # f) = sscanf (dec v @ r) f"
  by (simp add: skip_spaces_dec)

lemma sscanf_dd:
  assumes "is_int32 a" "is_int32 b" "stops r"
  shows "sscanf (dec a @ SP # dec b @ r) [FmtD, FmtBlank, FmtD] = [IntV a, IntV b]"
  using sscanf_d [OF assms(1), of "SP # dec b @ r" "[FmtBlank, FmtD]"] sscanf_blank [of b r "[FmtD]"]
    sscanf_d [OF assms(2,3), of "[]"] by simp

lemma sscanf_dddd:
  assumes "is_int32 a" "is_int32 b" "is_int32 c" "is_int32 d" "stops r"
  shows "sscanf (dec a @ SP # dec b @ SP # dec c @ SP # dec d @ r)
      [FmtD, FmtBlank, FmtD, FmtBlank, FmtD, FmtBlank, FmtD] = [IntV a, IntV b, IntV c, IntV d]"
  using sscanf_d [OF assms(1), of "SP # dec b @ SP # dec c @ SP # dec d @ r"
      "[FmtBlank, FmtD, FmtBlank, FmtD, FmtBlank, FmtD]"]
    sscanf_blank [of b "SP # dec c @ SP # dec d @ r" "[FmtD, FmtBlank, FmtD, FmtBlank, FmtD]"]
    sscanf_d [OF assms(2), of "SP # dec c @ SP # dec d @ r" "[FmtBlank, FmtD, FmtBlank, FmtD]"]
    sscanf_blank [of c "SP # dec d @ r" "[FmtD, FmtBlank, FmtD]"]
    sscanf_dd [OF assms(3-5)] by simp

end
