(* ===== verification/Kernel_Events.thy ===== *)
theory Kernel_Events
  imports Text_Scan
begin

text \<open>
  What a driver does to the rest of the kernel, as a trace. The kernel's own functions are not
  part of the repository: their return values are arguments of the definitions, and a call is an
  event. \<open>Get r ret\<close> is a call that acquires \<open>r\<close> and returned \<open>ret\<close> (a negative value
  means that nothing was acquired), \<open>Put r\<close> a call that releases it, \<open>Printk\<close> a log line.
  \<open>replay\<close> runs a trace over the resources held, and is \<open>None\<close> when something is released
  that is not held; \<open>lifo\<close> also asks that releases come in the reverse order.
\<close>

datatype dev_t = MKDEV (MAJOR: int) (MINOR: int)

datatype loglevel = KERN_INFO | KERN_ERR | KERN_ALERT | KERN_DEFAULT

datatype kres =
    ChrdevRegion dev_t nat  \<comment> \<open>(un)register_chrdev_region, alloc_chrdev_region\<close>
  | ChrdevMajor int         \<comment> \<open>(un)register_chrdev\<close>
  | Cdev                    \<comment> \<open>cdev_add, cdev_del\<close>
  | Class                   \<comment> \<open>class_create, class_destroy\<close>
  | Device dev_t            \<comment> \<open>device_create, device_destroy\<close>
  | Kobject                 \<comment> \<open>kobject_create_and_add, kobject_put\<close>
  | SysfsFile               \<comment> \<open>sysfs_create_file, sysfs_remove_file\<close>
  | NetHook                 \<comment> \<open>nf_(un)register_net_hook\<close>
  | ProcEntry               \<comment> \<open>proc_create, remove_proc_entry\<close>
  | Kmem                    \<comment> \<open>kmalloc/kstrdup, kfree\<close>
  | DevRef nat              \<comment> \<open>dev_get_by_name, dev_put\<close>
  | PidRef nat              \<comment> \<open>find_get_pid, put_pid\<close>
  | RcuRead                 \<comment> \<open>rcu_read_lock, rcu_read_unlock\<close>
  | Mutex                   \<comment> \<open>mutex_lock, mutex_unlock\<close>
  | DtNode                  \<comment> \<open>of_find_node_by_path, of_node_put\<close>
  | IoMap nat               \<comment> \<open>ioremap, iounmap of the n-th mapping\<close>
  | EtherDev                \<comment> \<open>alloc_etherdev, free_netdev\<close>
  | NetReg                  \<comment> \<open>register_netdev, unregister_netdev\<close>
  | PciEnable               \<comment> \<open>pci_enable_device, pci_disable_device\<close>
  | PciDriver               \<comment> \<open>pci_register_driver, pci_unregister_driver\<close>
  | Skb                     \<comment> \<open>a packet handed to the driver, dev_kfree_skb\<close>

datatype kev = Printk loglevel string | Get kres int | Put kres

abbreviation printk :: "string \<Rightarrow> kev" where "printk s \<equiv> Printk KERN_DEFAULT s"
abbreviation pr_info :: "string \<Rightarrow> kev" where "pr_info s \<equiv> Printk KERN_INFO s"
abbreviation pr_err :: "string \<Rightarrow> kev" where "pr_err s \<equiv> Printk KERN_ERR s"
abbreviation pr_alert :: "string \<Rightarrow> kev" where "pr_alert s \<equiv> Printk KERN_ALERT s"

text \<open>The errno values the drivers return.\<close>

abbreviation ESRCH :: int where "ESRCH \<equiv> 3"
abbreviation ENOMEM :: int where "ENOMEM \<equiv> 12"
abbreviation EFAULT :: int where "EFAULT \<equiv> 14"
abbreviation ENODEV :: int where "ENODEV \<equiv> 19"
abbreviation EINVAL :: int where "EINVAL \<equiv> 22"
abbreviation ENOTTY :: int where "ENOTTY \<equiv> 25"

section \<open>Replaying a trace over the resources held\<close>

fun replay :: "kres list \<Rightarrow> kev list \<Rightarrow> kres list option" where
  "replay h [] = Some h"
| "replay h (Printk _ _ # t) = replay h t"
| "replay h (Get r ret # t) = replay (if ret < 0 then h else r # h) t"
| "replay h (Put r # t) = (if r \<in> set h then replay (remove1 r h) t else None)"

fun lifo :: "kres list \<Rightarrow> kev list \<Rightarrow> kres list option" where
  "lifo h [] = Some h"
| "lifo h (Printk _ _ # t) = lifo h t"
| "lifo h (Get r ret # t) = lifo (if ret < 0 then h else r # h) t"
| "lifo h (Put r # t) = (case h of [] \<Rightarrow> None | q # h' \<Rightarrow> if q = r then lifo h' t else None)"

lemma replay_append: "replay h (a @ b) = Option.bind (replay h a) (\<lambda>h'. replay h' b)"
  by (induction h a rule: replay.induct) auto

lemma lifo_append: "lifo h (a @ b) = Option.bind (lifo h a) (\<lambda>h'. lifo h' b)"
  by (induction h a rule: lifo.induct) (auto split: list.splits)

lemma lifo_replay: "lifo h t = Some h' \<Longrightarrow> replay h t = Some h'"
  by (induction h t rule: lifo.induct) (auto split: list.splits if_splits)

text \<open>
  A balanced piece of trace leaves whatever was held before it: it releases what it took, and
  nothing else.
\<close>

definition balanced :: "kev list \<Rightarrow> bool" where
  "balanced t \<longleftrightarrow> lifo [] t = Some []"

lemma lifo_frame: "lifo h t = Some h' \<Longrightarrow> lifo (h @ k) t = Some (h' @ k)"
  by (induction h t rule: lifo.induct) (auto split: list.splits if_splits)

lemma balanced_lifo: "balanced t \<Longrightarrow> lifo h t = Some h"
  using lifo_frame [of "[]" t "[]" h] by (simp add: balanced_def)

lemma balanced_replay: "balanced t \<Longrightarrow> replay h t = Some h"
  by (simp add: balanced_lifo lifo_replay)

lemma balanced_Nil [simp, intro]: "balanced []"
  by (simp add: balanced_def)

lemma balanced_append [intro]: "balanced a \<Longrightarrow> balanced b \<Longrightarrow> balanced (a @ b)"
  by (simp add: balanced_def lifo_append)

lemma balanced_Printk [simp]: "balanced (Printk l s # t) = balanced t"
  by (simp add: balanced_def)

lemma balanced_Get_fail [simp]: "ret < 0 \<Longrightarrow> balanced (Get r ret # t) = balanced t"
  by (simp add: balanced_def)

lemma balanced_bracket [intro]:
  "balanced a \<Longrightarrow> balanced b \<Longrightarrow> \<not> ret < 0 \<Longrightarrow> balanced (Get r ret # a @ Put r # b)"
  using balanced_lifo [of a "[r]"] by (simp add: balanced_def lifo_append)

lemma balanced_map_Printk [simp]: "balanced (map (\<lambda>x. Printk (l x) (s x)) xs)"
  by (induction xs) simp_all

lemma balanced_concat: "(\<And>x. x \<in> set xs \<Longrightarrow> balanced (f x)) \<Longrightarrow> balanced (concat (map f xs))"
  by (induction xs) auto

text \<open>The log lines of a trace.\<close>

fun log_of :: "kev list \<Rightarrow> (loglevel \<times> string) list" where
  "log_of [] = []"
| "log_of (Printk l s # t) = (l, s) # log_of t"
| "log_of (Get _ _ # t) = log_of t"
| "log_of (Put _ # t) = log_of t"

lemma log_of_append [simp]: "log_of (a @ b) = log_of a @ log_of b"
  by (induction a rule: log_of.induct) auto

lemma log_of_map_Printk [simp]:
  "log_of (map (\<lambda>x. Printk (l x) (s x)) xs) = map (\<lambda>x. (l x, s x)) xs"
  by (induction xs) simp_all

end
