(* ===== verification/Kern_State.thy ===== *)
theory Kern_State
  imports Kernel_Events
begin

text \<open>
  The kernel objects the module \<open>sys2\<close> reads and writes. Pointers are numbers into stores, so
  that two pointers to one object see each other's writes. \<open>procs\<close> is the order of
  \<open>for_each_process\<close>, \<open>threads p\<close> that of \<open>for_each_thread\<close> (the leader included), a file
  table is the list of its file pointers. \<open>kapi\<close> holds the kernel functions the module calls:
  they are not in the repository, so they are arguments of the model.
\<close>

record task =
  comm :: string
  pid :: int
  tgid :: int
  prio :: int
  static_prio :: int
  normal_prio :: int
  policy :: int
  task_uid :: nat
  fdt :: "nat option list option"  \<comment> \<open>\<open>files_fdtable(task->files)->fd\<close>, \<open>None\<close>: no \<open>files\<close>\<close>

record net_device =
  dev_name :: string
  mtu :: int
  dev_addr :: "nat list option"  \<comment> \<open>the bytes the pointer points at, \<open>None\<close> when it is NULL\<close>
  dev_stats :: "64 word list"  \<comment> \<open>the words of \<open>struct net_device_stats stats\<close>\<close>
  dev_after :: "64 word list"
    \<comment> \<open>the words of the struct that follow \<open>stats\<close>; one that holds \<open>mtu\<close> or \<open>dev_addr\<close> has its value there\<close>
  dev_own :: "64 word list"    \<comment> \<open>counters that the driver of the device keeps elsewhere\<close>

record link_stats64 =
  rx_packets :: "64 word"
  rx_bytes :: "64 word"
  rx_errors :: "64 word"
  rx_dropped :: "64 word"
  tx_packets :: "64 word"
  tx_bytes :: "64 word"
  tx_errors :: "64 word"
  tx_dropped :: "64 word"

record kfile =
  i_mode :: "32 word"
  i_size :: int
  private_data :: "nat option"  \<comment> \<open>a \<open>struct socket\<close> when the file is one\<close>

record sock =
  sk_userlocks :: "8 word"
  sk_rcvbuf :: int
  sk_sndbuf :: int

record kern =
  tasks :: "nat \<Rightarrow> task"
  procs :: "nat list"
  threads :: "nat \<Rightarrow> nat list"
  netdevs :: "nat \<Rightarrow> net_device"
  files :: "nat \<Rightarrow> kfile"
  sockets :: "nat \<Rightarrow> nat option"  \<comment> \<open>\<open>sock->sk\<close>\<close>
  socks :: "nat \<Rightarrow> sock"
  trace :: "kev list"

record kapi =
  k_set_user_nice :: "task \<Rightarrow> int \<Rightarrow> task"
  k_task_nice :: "task \<Rightarrow> int"
  k_make_kuid :: "int \<Rightarrow> nat"
  k_uid_valid :: "nat \<Rightarrow> bool"
  k_find_get_pid :: "kern \<Rightarrow> int \<Rightarrow> nat option"
  k_pid_task :: "kern \<Rightarrow> nat \<Rightarrow> nat option"
  k_dev_get_by_name :: "kern \<Rightarrow> string \<Rightarrow> nat option"
  k_dev_get_stats :: "net_device \<Rightarrow> link_stats64"
  k_link_stats64_words :: nat     \<comment> \<open>\<open>sizeof(struct rtnl_link_stats64) / 8\<close>\<close>
  k_mtu_at :: int                 \<comment> \<open>the word of the device that holds \<open>mtu\<close>, counted from \<open>stats\<close>\<close>
  k_dev_addr_at :: int            \<comment> \<open>and the one that holds \<open>dev_addr\<close>; \<open>name\<close> is the first member\<close>
  k_stack16 :: "char list"        \<comment> \<open>what an uninitialised \<open>char [16]\<close> on the stack holds\<close>
  k_kstrdup_ok :: bool            \<comment> \<open>whether \<open>kstrdup\<close> finds memory\<close>

text \<open>
  What the code relies on in these functions: lookups do not depend on what was logged, the
  device found has the name asked for, and \<open>set_user_nice\<close> leaves a task its identity.
\<close>

definition same_objects :: "kern \<Rightarrow> kern \<Rightarrow> bool" where
  "same_objects k k' \<longleftrightarrow> (\<exists>t. k' = k\<lparr>trace := t\<rparr>)"

definition kapi_ok :: "kapi \<Rightarrow> bool" where
  "kapi_ok api \<longleftrightarrow>
     (\<forall>k k' n. same_objects k k' \<longrightarrow> k_dev_get_by_name api k' n = k_dev_get_by_name api k n) \<and>
     (\<forall>k n d. k_dev_get_by_name api k n = Some d \<longrightarrow> dev_name (netdevs k d) = n) \<and>
     (\<forall>k k' n. same_objects k k' \<longrightarrow> k_find_get_pid api k' n = k_find_get_pid api k n) \<and>
     (\<forall>k k' p. same_objects k k' \<longrightarrow> k_pid_task api k' p = k_pid_task api k p) \<and>
     (\<forall>t n. pid (k_set_user_nice api t n) = pid t \<and> task_uid (k_set_user_nice api t n) = task_uid t \<and>
            comm (k_set_user_nice api t n) = comm t) \<and>
     length (k_stack16 api) = 16"

definition emit :: "kev list \<Rightarrow> kern \<Rightarrow> kern" where
  "emit t k = k\<lparr>trace := trace k @ t\<rparr>"

lemma emit_fields [simp]:
  "tasks (emit t k) = tasks k" "procs (emit t k) = procs k" "threads (emit t k) = threads k"
  "netdevs (emit t k) = netdevs k" "files (emit t k) = files k" "sockets (emit t k) = sockets k"
  "socks (emit t k) = socks k" "trace (emit t k) = trace k @ t"
  by (simp_all add: emit_def)

lemma emit_emit [simp]: "emit b (emit a k) = emit (a @ b) k"
  by (simp add: emit_def)

lemma emit_Nil [simp]: "emit [] k = k"
  by (simp add: emit_def)

lemma emit_update [simp]:
  "emit t k\<lparr>tasks := ts\<rparr> = emit t (k\<lparr>tasks := ts\<rparr>)"
  "emit t k\<lparr>netdevs := ds\<rparr> = emit t (k\<lparr>netdevs := ds\<rparr>)"
  "emit t k\<lparr>socks := ss\<rparr> = emit t (k\<lparr>socks := ss\<rparr>)"
  by (simp_all add: emit_def)

lemma same_objects_emit [simp, intro]: "same_objects k (emit t k)"
  by (auto simp: same_objects_def emit_def)

lemma kapi_ok_lookup:
  assumes "kapi_ok api"
  shows "k_dev_get_by_name api (emit t k) n = k_dev_get_by_name api k n"
    "k_find_get_pid api (emit t k) i = k_find_get_pid api k i"
    "k_pid_task api (emit t k) p = k_pid_task api k p"
    "k_dev_get_by_name api k n = Some d \<Longrightarrow> dev_name (netdevs k d) = n"
    "length (k_stack16 api) = 16"
  using assms by (auto simp: kapi_ok_def)

text \<open>
  The events a handler added, when the state before is known.
\<close>

definition added :: "kern \<Rightarrow> kern \<Rightarrow> kev list" where
  "added k k' = drop (length (trace k)) (trace k')"

lemma added_emit [simp]: "added k (emit t k) = t"
  by (simp add: added_def)

lemma added_emit_upd [simp]:
  "added k (emit t (k\<lparr>tasks := ts\<rparr>)) = t"
  "added k (emit t (k\<lparr>netdevs := ds\<rparr>)) = t"
  "added k (emit t (k\<lparr>socks := ss\<rparr>)) = t"
  by (simp_all add: added_def)

section \<open>What a command handler promises\<close>

text \<open>
  \<open>keeps_refs k k'\<close>: going from \<open>k\<close> to \<open>k'\<close> the trace only grew, by a piece that releases
  every reference and lock it takes, and the object graph is the same. \<open>handler\<close> is the contract
  between a command handler and the dispatcher of \<open>sys2.c\<close>; each handler interprets it.
\<close>

definition keeps_refs :: "kern \<Rightarrow> kern \<Rightarrow> bool" where
  "keeps_refs k k' \<longleftrightarrow>
     (\<exists>t. trace k' = trace k @ t \<and> balanced t) \<and> procs k' = procs k \<and> threads k' = threads k \<and>
     files k' = files k \<and> sockets k' = sockets k"

lemma keeps_refs_refl [simp, intro]: "keeps_refs k k"
  by (auto simp: keeps_refs_def)

lemma keeps_refs_trans: "keeps_refs a b \<Longrightarrow> keeps_refs b c \<Longrightarrow> keeps_refs a c"
  unfolding keeps_refs_def by (metis append_assoc balanced_append)

lemma keeps_refs_emit [simp]: "balanced t \<Longrightarrow> keeps_refs k (emit t k)"
  by (auto simp: keeps_refs_def)

lemma keeps_refs_upd [simp]:
  "keeps_refs k (k'\<lparr>tasks := ts\<rparr>) = keeps_refs k k'"
  "keeps_refs k (k'\<lparr>netdevs := ds\<rparr>) = keeps_refs k k'"
  "keeps_refs k (k'\<lparr>socks := ss\<rparr>) = keeps_refs k k'"
  by (simp_all add: keeps_refs_def)

lemma keeps_refs_emit_upd [simp]:
  assumes "balanced t"
  shows "keeps_refs k (emit t (k\<lparr>tasks := ts\<rparr>))" "keeps_refs k (emit t (k\<lparr>netdevs := ds\<rparr>))"
    "keeps_refs k (emit t (k\<lparr>socks := ss\<rparr>))"
  using assms by (auto simp: keeps_refs_def)

lemma ex_emit: "balanced t \<Longrightarrow> \<exists>t'. emit t k = emit t' k \<and> balanced t'"
  by blast

lemma ex_emit_lifo: "lifo [] t = Some [] \<Longrightarrow> \<exists>t'. lifo [] t' = Some [] \<and> emit t k = emit t' k"
  by blast

lemma keeps_refs_replay:
  assumes "keeps_refs k k'" "replay [] (trace k) = Some h"
  shows "replay [] (trace k') = Some h"
proof -
  from assms(1) obtain t where "trace k' = trace k @ t" "balanced t"
    by (auto simp: keeps_refs_def)
  with assms(2) show ?thesis by (simp add: replay_append balanced_replay)
qed

fun run_all :: "('p \<Rightarrow> kern \<Rightarrow> fault + kern) \<Rightarrow> 'p list \<Rightarrow> kern \<Rightarrow> fault + kern" where
  "run_all run [] k = Inr k"
| "run_all run (p # ps) k = bindF (run p k) (run_all run ps)"

locale handler =
  fixes run :: "'p \<Rightarrow> kern \<Rightarrow> fault + kern"
    and safe :: "'p \<Rightarrow> bool"
  assumes run_keeps: "safe p \<Longrightarrow> run p k = Inr k' \<Longrightarrow> keeps_refs k k'"
begin

lemma run_all_keeps:
  "(\<And>p. p \<in> set ps \<Longrightarrow> safe p) \<Longrightarrow> run_all run ps k = Inr k' \<Longrightarrow> keeps_refs k k'"
proof (induction ps arbitrary: k)
  case Nil
  then show ?case by simp
next
  case (Cons p ps)
  then obtain k1 where "run p k = Inr k1" "run_all run ps k1 = Inr k'"
    by (auto simp: bindF_Inr)
  moreover from this Cons have "keeps_refs k k1" "keeps_refs k1 k'"
    using run_keeps [of p k k1] by auto
  ultimately show ?case by (blast intro: keeps_refs_trans)
qed

lemma run_all_replay:
  assumes "\<And>p. p \<in> set ps \<Longrightarrow> safe p" "run_all run ps k = Inr k'" "replay [] (trace k) = Some h"
  shows "replay [] (trace k') = Some h"
  using run_all_keeps [OF assms(1,2)] assms(3) by (rule keeps_refs_replay)

end

section \<open>A small kernel\<close>

text \<open>
  A concrete kernel with two processes, one interface and one open socket, and concrete kernel
  functions that meet \<open>kapi_ok\<close>. The witnesses of the properties run the handlers on it.
\<close>

definition demo_api :: kapi where
  "demo_api =
     \<lparr>k_set_user_nice = (\<lambda>t n. t\<lparr>static_prio := 120 + n\<rparr>), k_task_nice = (\<lambda>t. static_prio t - 120),
      k_make_kuid = nat, k_uid_valid = (\<lambda>u. True),
      k_find_get_pid = (\<lambda>k i. find (\<lambda>p. pid (tasks k p) = i) (procs k)), k_pid_task = (\<lambda>k p. Some p),
      k_dev_get_by_name = (\<lambda>k n. if dev_name (netdevs k 0) = n then Some 0 else None),
      k_dev_get_stats = (\<lambda>d. \<lparr>rx_packets = 1, rx_bytes = 2, rx_errors = 0, rx_dropped = 0, tx_packets = 3,
         tx_bytes = 4, tx_errors = 0, tx_dropped = 0\<rparr>),
      k_link_stats64_words = 4, k_mtu_at = - 20, k_dev_addr_at = 40, k_stack16 = replicate 16 NUL, k_kstrdup_ok = True\<rparr>"

definition demo_task :: "int \<Rightarrow> nat \<Rightarrow> task" where
  "demo_task i u = \<lparr>comm = ''init'', pid = i, tgid = i, prio = 120, static_prio = 120, normal_prio = 120,
     policy = 0, task_uid = u, fdt = Some [None, Some 0]\<rparr>"

definition demo_kern :: kern where
  "demo_kern =
     \<lparr>tasks = (\<lambda>p. if p = 1 then demo_task 1 0 else demo_task 42 1000), procs = [1, 2], threads = (\<lambda>p. [p]),
      netdevs = (\<lambda>_. \<lparr>dev_name = ''eth0'', mtu = 1500, dev_addr = Some [0, 1, 2, 3, 4, 5],
         dev_stats = [7, 8, 9], dev_after = [10, 11], dev_own = [12]\<rparr>),
      files = (\<lambda>_. \<lparr>i_mode = 0xC1FF, i_size = 0, private_data = Some 0\<rparr>), sockets = (\<lambda>_. Some 0),
      socks = (\<lambda>_. \<lparr>sk_userlocks = 0, sk_rcvbuf = 4096, sk_sndbuf = 4096\<rparr>), trace = []\<rparr>"

lemma demo_api_ok: "kapi_ok demo_api"
  by (auto simp: kapi_ok_def demo_api_def same_objects_def split: if_splits)

lemma demo_lookups:
  "k_dev_get_by_name demo_api demo_kern ''eth0'' = Some 0"
  "k_find_get_pid demo_api demo_kern 42 = Some 2" "k_pid_task demo_api demo_kern 2 = Some 2"
  "distinct (procs demo_kern)" "replay [] (trace demo_kern) = Some []"
  by (simp_all add: demo_api_def demo_kern_def demo_task_def)

end
