(* ===== verification/Sys2_Task.thy ===== *)
theory Sys2_Task
  imports Kern_State
begin

text \<open>
  \<open>sys2/showtask.c\<close>: the commands that list tasks and set their nice values. A handler takes
  the C string after the command word and the kernel state, and returns the state it leaves, the
  log lines in its trace. \<open>nice_all\<close> is the abstract effect of a nice command: the tasks
  a predicate selects get the new value, the others keep theirs.
\<close>

section \<open>Listing tasks\<close>

fun showtasklist_loop :: "nat list \<Rightarrow> int \<Rightarrow> kern \<Rightarrow> int \<times> kern" where
  "showtasklist_loop [] n k = (n, k)"
| "showtasklist_loop (p # ps) n k =
     showtasklist_loop ps (n + 1)
       (emit [pr_info (''Process: '' @ comm (tasks k p) @ '' (PID: '' @ dec (pid (tasks k p)) @ '')'' @ [NL])] k)"

definition showtasklist :: "string \<Rightarrow> kern \<Rightarrow> kern" where
  "showtasklist param k =
     (case showtasklist_loop (procs k) 0 k of (iTaskCount, k') \<Rightarrow>
        emit [pr_info (''task count:'' @ dec iTaskCount @ [NL])] k')"

definition task_info_line :: "task \<Rightarrow> string" where
  "task_info_line t =
     ''Process: '' @ comm t @ '' (PID: '' @ dec (pid t) @ '', TGID: '' @ dec (tgid t) @
     '', Prio: '' @ dec (prio t) @ '', Static Prio: '' @ dec (static_prio t) @
     '', Normal Prio: '' @ dec (normal_prio t) @ '')'' @ [NL]"

fun print_task_info_loop :: "nat list \<Rightarrow> int \<Rightarrow> kern \<Rightarrow> int \<times> kern" where
  "print_task_info_loop [] n k = (n, k)"
| "print_task_info_loop (p # ps) n k =
     print_task_info_loop ps (n + 1) (emit [pr_info (task_info_line (tasks k p))] k)"

definition print_task_info :: "string \<Rightarrow> kern \<Rightarrow> kern" where
  "print_task_info param k =
     (case print_task_info_loop (procs k) 0 k of (iTaskCount, k') \<Rightarrow>
        emit [pr_info (''task count:'' @ dec iTaskCount @ [NL])] k')"

definition get_policy_str :: "int \<Rightarrow> string" where
  "get_policy_str p =
     (if p = 0 then ''SCHED_NORMAL'' else if p = 1 then ''SCHED_FIFO''
      else if p = 2 then ''SCHED_RR'' else if p = 3 then ''SCHED_BATCH''
      else if p = 5 then ''SCHED_IDLE'' else if p = 6 then ''SCHED_DEADLINE''
      else ''UNKNOWN'')"

definition thread_line :: "kapi \<Rightarrow> task \<Rightarrow> task \<Rightarrow> string" where
  "thread_line api task thread =
     padr 6 (dec (pid task)) @ padr 10 (dec (pid thread)) @ padr 30 (comm thread) @
     padr 10 (dec (prio thread)) @ padr 6 (dec (k_task_nice api thread)) @
     get_policy_str (policy thread) @ [NL]"

fun show_threads :: "kapi \<Rightarrow> nat \<Rightarrow> nat list \<Rightarrow> kern \<Rightarrow> kern" where
  "show_threads api task [] k = k"
| "show_threads api task (t # ts) k =
     show_threads api task ts (emit [pr_info (thread_line api (tasks k task) (tasks k t))] k)"

fun showallthread_loop :: "kapi \<Rightarrow> nat list \<Rightarrow> kern \<Rightarrow> kern" where
  "showallthread_loop api [] k = k"
| "showallthread_loop api (p # ps) k = showallthread_loop api ps (show_threads api p (threads k p) k)"

definition showallthread :: "kapi \<Rightarrow> string \<Rightarrow> kern \<Rightarrow> kern" where
  "showallthread api param k =
     showallthread_loop api (procs k)
       (emit [pr_info (padr 6 ''PID'' @ padr 10 ''TID'' @ padr 30 ''Name'' @ padr 10 ''Priority'' @
                       padr 6 ''Nice'' @ ''Policy'' @ [NL]),
              pr_info (replicate 80 CHR ''-'' @ [NL])] k)"

section \<open>Setting nice values\<close>

definition set_user_nice_at :: "kapi \<Rightarrow> nat \<Rightarrow> int \<Rightarrow> kern \<Rightarrow> kern" where
  \<comment> \<open>\<open>set_user_nice(p, n)\<close>\<close>
  "set_user_nice_at api p n k = k\<lparr>tasks := (tasks k)(p := k_set_user_nice api (tasks k p) n)\<rparr>"

fun set_all_nice_loop :: "kapi \<Rightarrow> int \<Rightarrow> nat list \<Rightarrow> kern \<Rightarrow> kern" where
  "set_all_nice_loop api n [] k = k"
| "set_all_nice_loop api n (p # ps) k =
     set_all_nice_loop api n ps
       (if pid (tasks k p) \<noteq> 0
        then let k' = set_user_nice_at api p n k
             in emit [pr_info (''Set nice value of process '' @ comm (tasks k' p) @ '' (PID: '' @
                       dec (pid (tasks k' p)) @ '') to '' @ dec n @ [NL])] k'
        else k)"

definition set_all_task_nice :: "kapi \<Rightarrow> string \<Rightarrow> kern \<Rightarrow> kern" where
  "set_all_task_nice api param k =
     (case sscanf param [FmtD] of
        IntV nice_value # _ \<Rightarrow>
          if - 20 \<le> nice_value \<and> nice_value \<le> 19
          then set_all_nice_loop api nice_value (procs k) k
          else emit [pr_err (''Invalid nice value'' @ [NL])] k
      | _ \<Rightarrow> emit [pr_err (''Invalid nice value'' @ [NL])] k)"

fun set_uid_nice_loop :: "kapi \<Rightarrow> int \<Rightarrow> nat \<Rightarrow> int \<Rightarrow> nat list \<Rightarrow> bool \<Rightarrow> kern \<Rightarrow> bool \<times> kern" where
  "set_uid_nice_loop api uid kuid n [] flag k = (flag, k)"
| "set_uid_nice_loop api uid kuid n (p # ps) flag k =
     (if pid (tasks k p) \<noteq> 0 \<and> task_uid (tasks k p) = kuid
      then let k' = set_user_nice_at api p n k
           in set_uid_nice_loop api uid kuid n ps True
                (emit [pr_info (''Set nice value of process '' @ comm (tasks k' p) @ '' (PID: '' @
                        dec (pid (tasks k' p)) @ '', UID: '' @ dec uid @ '') to '' @ dec n @ [NL])] k')
      else set_uid_nice_loop api uid kuid n ps flag k)"

definition set_user_nice_by_uid :: "kapi \<Rightarrow> string \<Rightarrow> kern \<Rightarrow> kern" where
  "set_user_nice_by_uid api param k =
     (case sscanf param [FmtD, FmtBlank, FmtD] of
        [IntV uid, IntV nice_value] \<Rightarrow>
          let kuid = k_make_kuid api uid in
          if \<not> k_uid_valid api kuid then emit [pr_err (''Invalid UID: '' @ dec uid @ [NL])] k
          else if nice_value < - 20 \<or> nice_value > 19
          then emit [pr_err (''Invalid nice value: '' @ dec nice_value @ [NL])] k
          else (case set_uid_nice_loop api uid kuid nice_value (procs k) False k of (flag, k') \<Rightarrow>
                  if flag then k'
                  else emit [pr_err (''No process found with UID: '' @ dec uid @ [NL])] k')
      | _ \<Rightarrow> emit [pr_err (''Invalid input format. Expected: setniceuser <uid> <nice_value>'' @ [NL])] k)"

definition set_thread_priority_in :: "kapi \<Rightarrow> string option \<Rightarrow> kern \<Rightarrow> int \<times> kern" where
  "set_thread_priority_in api param0 k =
     (let usage = pr_info (''Invalid input format. Expected: setthreadpriority <tid> <priority>'' @ [NL]) in
      case param0 of None \<Rightarrow> (- EINVAL, emit [usage] k) | Some param \<Rightarrow>
      if length param = 0 then (- EINVAL, emit [usage] k)
      else
      let k1 = emit [pr_info (''Setting thread priority: '' @ param @ [NL])] k in
      (case sscanf param [FmtD, FmtBlank, FmtD] of
         [IntV tid, IntV new_priority] \<Rightarrow>
           let notfound = pr_info (''Thread with TID '' @ dec tid @ '' not found'' @ [NL]) in
           (case k_find_get_pid api k1 tid of
              None \<Rightarrow> (- ESRCH, emit [notfound] k1)
            | Some pid_struct \<Rightarrow>
              let k2 = emit [Get (PidRef pid_struct) 0] k1 in
              (case k_pid_task api k2 pid_struct of
                 None \<Rightarrow> (- ESRCH, emit [notfound, Put (PidRef pid_struct)] k2)
               | Some thread \<Rightarrow>
                 let k3 = emit [Put (PidRef pid_struct)] k2 in
                 if new_priority < - 20 \<or> new_priority > 19
                 then (- EINVAL, emit [pr_info (''Invalid priority value: '' @ dec new_priority @ [NL])] k3)
                 else (0, emit [pr_info (''Thread '' @ dec tid @ '' priority set to '' @ dec new_priority @ [NL])]
                            (set_user_nice_at api thread new_priority k3))))
       | _ \<Rightarrow> (- EINVAL, emit [usage] k1)))"

definition set_thread_priority :: "kapi \<Rightarrow> string \<Rightarrow> kern \<Rightarrow> kern" where
  "set_thread_priority api param k = snd (set_thread_priority_in api (Some param) k)"

section \<open>What the listing commands log\<close>

lemma showtasklist_loop_eq:
  "showtasklist_loop ps n k =
     (n + int (length ps),
      emit (map (\<lambda>p. pr_info (''Process: '' @ comm (tasks k p) @ '' (PID: '' @ dec (pid (tasks k p)) @
                              '')'' @ [NL])) ps) k)"
  by (induction ps arbitrary: n k) (simp_all add: emit_def)

lemma showtasklist_eq:
  "showtasklist param k =
     emit (map (\<lambda>p. pr_info (''Process: '' @ comm (tasks k p) @ '' (PID: '' @ dec (pid (tasks k p)) @
                             '')'' @ [NL])) (procs k) @
           [pr_info (''task count:'' @ dec (int (length (procs k))) @ [NL])]) k"
  by (simp add: showtasklist_def showtasklist_loop_eq)

lemma print_task_info_loop_eq:
  "print_task_info_loop ps n k =
     (n + int (length ps), emit (map (\<lambda>p. pr_info (task_info_line (tasks k p))) ps) k)"
  by (induction ps arbitrary: n k) (simp_all add: emit_def)

lemma print_task_info_eq:
  "print_task_info param k =
     emit (map (\<lambda>p. pr_info (task_info_line (tasks k p))) (procs k) @
           [pr_info (''task count:'' @ dec (int (length (procs k))) @ [NL])]) k"
  by (simp add: print_task_info_def print_task_info_loop_eq)

lemma show_threads_eq:
  "show_threads api p ts k = emit (map (\<lambda>t. pr_info (thread_line api (tasks k p) (tasks k t))) ts) k"
  by (induction ts arbitrary: k) (simp_all add: emit_def)

lemma showallthread_loop_eq:
  "showallthread_loop api ps k =
     emit (concat (map (\<lambda>p. map (\<lambda>t. pr_info (thread_line api (tasks k p) (tasks k t))) (threads k p)) ps)) k"
  by (induction ps arbitrary: k) (simp_all add: show_threads_eq)

section \<open>What the nice commands change\<close>

definition nice_all :: "kapi \<Rightarrow> int \<Rightarrow> (task \<Rightarrow> bool) \<Rightarrow> nat list \<Rightarrow> (nat \<Rightarrow> task) \<Rightarrow> nat \<Rightarrow> task" where
  "nice_all api n sel ps ts =
     (\<lambda>p. if p \<in> set ps \<and> sel (ts p) then k_set_user_nice api (ts p) n else ts p)"

lemma nice_all_Nil [simp]: "nice_all api n sel [] ts = ts"
  by (simp add: nice_all_def)

lemma nice_all_Cons:
  "p \<notin> set ps \<Longrightarrow>
   nice_all api n sel (p # ps) ts =
     nice_all api n sel ps (if sel (ts p) then ts(p := k_set_user_nice api (ts p) n) else ts)"
  by (auto simp: nice_all_def)

lemma tasks_set_user_nice_at [simp]:
  "tasks (set_user_nice_at api p n k) = (tasks k)(p := k_set_user_nice api (tasks k p) n)"
  by (simp add: set_user_nice_at_def)

lemma keeps_refs_set_user_nice_at [simp]:
  "keeps_refs k (set_user_nice_at api p n k') = keeps_refs k k'"
  by (simp add: set_user_nice_at_def)

lemma tasks_set_all_nice_loop:
  "distinct ps \<Longrightarrow>
   tasks (set_all_nice_loop api n ps k) = nice_all api n (\<lambda>t. pid t \<noteq> 0) ps (tasks k)"
proof (induction ps arbitrary: k)
  case (Cons p ps)
  then show ?case by (simp add: Let_def nice_all_Cons)
qed simp

lemma tasks_set_uid_nice_loop:
  "distinct ps \<Longrightarrow>
   tasks (snd (set_uid_nice_loop api uid kuid n ps f k)) =
   nice_all api n (\<lambda>t. pid t \<noteq> 0 \<and> task_uid t = kuid) ps (tasks k)"
proof (induction ps arbitrary: f k)
  case (Cons p ps)
  then show ?case
    by (simp add: Let_def nice_all_Cons)
qed simp

lemma set_uid_nice_loop_flag:
  "distinct ps \<Longrightarrow>
   fst (set_uid_nice_loop api uid kuid n ps f k) \<longleftrightarrow>
   f \<or> (\<exists>p \<in> set ps. pid (tasks k p) \<noteq> 0 \<and> task_uid (tasks k p) = kuid)"
proof (induction ps arbitrary: f k)
  case (Cons p ps)
  then have "\<forall>q \<in> set ps. q \<noteq> p" by auto
  then show ?case using Cons by (auto simp: Let_def)
qed simp

lemma keeps_refs_set_all_nice_loop: "keeps_refs k (set_all_nice_loop api n ps k)"
proof (induction ps arbitrary: k)
  case (Cons p ps)
  show ?case
    by (simp add: Let_def) (intro conjI impI keeps_refs_trans [OF _ Cons]; simp add: set_user_nice_at_def)
qed simp

lemma keeps_refs_set_uid_nice_loop:
  "keeps_refs k (snd (set_uid_nice_loop api uid kuid n ps f k))"
proof (induction ps arbitrary: f k)
  case (Cons p ps)
  show ?case
    by (simp add: Let_def) (intro conjI impI keeps_refs_trans [OF _ Cons]; simp add: set_user_nice_at_def)
qed simp

lemma set_thread_priority_keeps: "keeps_refs k (snd (set_thread_priority_in api param k))"
  by (auto simp: set_thread_priority_in_def Let_def set_user_nice_at_def balanced_def
      split: option.split list.split scanned.split)

lemma balanced_task_lines [simp]:
  "balanced (map (\<lambda>p. Printk l (f p)) ps @ [Printk l' s])"
  by (auto intro: balanced_append)

interpretation h_showtasklist: handler "\<lambda>s k. Inr (showtasklist s k)" "\<lambda>_. True"
  by unfold_locales (auto simp: showtasklist_eq)

interpretation h_print_task_info: handler "\<lambda>s k. Inr (print_task_info s k)" "\<lambda>_. True"
  by unfold_locales (auto simp: print_task_info_eq)

interpretation h_showallthread: handler "\<lambda>s k. Inr (showallthread api s k)" "\<lambda>_. True" for api
  by unfold_locales (auto simp: showallthread_def showallthread_loop_eq intro!: keeps_refs_emit balanced_concat)

interpretation h_setnice: handler "\<lambda>s k. Inr (set_all_task_nice api s k)" "\<lambda>_. True" for api
  by unfold_locales
     (auto simp: set_all_task_nice_def keeps_refs_set_all_nice_loop split: list.split scanned.split)

lemma set_user_nice_by_uid_keeps: "keeps_refs k (set_user_nice_by_uid api s k)"
proof -
  have "keeps_refs k (if f then k' else emit [Printk l x] k')"
    if "set_uid_nice_loop api u v n (procs k) False k = (f, k')" for f k' l x u v n
    using keeps_refs_set_uid_nice_loop [of k api u v n "procs k" False] that
    by (auto intro: keeps_refs_trans [OF _ keeps_refs_emit])
  then show ?thesis
    by (auto simp: set_user_nice_by_uid_def Let_def split: list.split scanned.split prod.split)
qed

interpretation h_setniceuser: handler "\<lambda>s k. Inr (set_user_nice_by_uid api s k)" "\<lambda>_. True" for api
  by unfold_locales (auto simp: set_user_nice_by_uid_keeps)

interpretation h_setthreadpriority: handler "\<lambda>s k. Inr (set_thread_priority api s k)" "\<lambda>_. True" for api
  by unfold_locales (auto simp: set_thread_priority_def set_thread_priority_keeps)

section \<open>Properties\<close>

text \<open>
  C31: \<open>setnice n\<close> gives every process of the process list (which has none twice) whose pid is not 0 the nice value \<open>n\<close> when
  \<open>n\<close> lies between -20 and 19, and changes no task otherwise. The init process has pid 1, so it is not
  left out, as the comment at this test has it.
\<close>

theorem setnice_effect:
  assumes "distinct (procs k)" "is_int32 n" "stops r"
  shows "tasks (set_all_task_nice api (dec n @ r) k) =
    (if - 20 \<le> n \<and> n \<le> 19 then nice_all api n (\<lambda>t. pid t \<noteq> 0) (procs k) (tasks k) else tasks k)"
  using sscanf_d [OF assms(2,3), of "[]"] tasks_set_all_nice_loop [OF assms(1), of api n k]
  by (simp add: set_all_task_nice_def del: sscanf.simps(3))

lemma setnice_effect_witness:
  "static_prio (tasks (set_all_task_nice demo_api (dec (- 5) @ [NL]) demo_kern) 1) = 115"
  by (subst setnice_effect)
    (simp_all add: demo_lookups is_int32_def nice_all_def, simp_all add: demo_api_def demo_kern_def demo_task_def)

text \<open>
  C26: \<open>setniceuser uid n\<close> gives exactly the processes of that user whose pid is not 0 the nice value
  \<open>n\<close>, when the user id is valid and \<open>n\<close> lies between -20 and 19, and changes no task otherwise. The
  init process has pid 1, so it is not left out, as the comment at this test has it, but reniced with
  the other processes of its user.
\<close>

theorem setniceuser_effect:
  assumes "distinct (procs k)" "is_int32 u" "is_int32 n" "stops r"
  shows "tasks (set_user_nice_by_uid api (dec u @ SP # dec n @ r) k) =
    (if k_uid_valid api (k_make_kuid api u) \<and> - 20 \<le> n \<and> n \<le> 19
     then nice_all api n (\<lambda>t. pid t \<noteq> 0 \<and> task_uid t = k_make_kuid api u) (procs k) (tasks k)
     else tasks k)"
proof -
  obtain f k' where l: "set_uid_nice_loop api u (k_make_kuid api u) n (procs k) False k = (f, k')"
    by (cases "set_uid_nice_loop api u (k_make_kuid api u) n (procs k) False k")
  then show ?thesis
    using sscanf_dd [OF assms(2-4)] tasks_set_uid_nice_loop [OF assms(1), of api u "k_make_kuid api u" n False k]
    by (simp add: set_user_nice_by_uid_def Let_def l del: sscanf.simps)
qed

lemma setniceuser_effect_witness:
  "map (\<lambda>p. static_prio (tasks (set_user_nice_by_uid demo_api (dec 1000 @ SP # dec 7 @ [NL]) demo_kern) p)) [1, 2]
     = [120, 127]"
  by (subst setniceuser_effect)
    (simp_all add: demo_lookups is_int32_def nice_all_def, simp_all add: demo_api_def demo_kern_def demo_task_def)

text \<open>
  C27: \<open>setthreadpriority tid n\<close> answers \<open>-ESRCH\<close> when there is no such thread, \<open>-EINVAL\<close> when
  \<open>n\<close> is not a nice value, and 0 after setting the nice value of that thread and of no other. On
  every path the pid reference it took has been released.
\<close>

theorem setthreadpriority_effect:
  assumes "kapi_ok api" "is_int32 tid" "is_int32 n" "stops r"
  shows "\<exists>t. balanced t \<and> set_thread_priority_in api (Some (dec tid @ SP # dec n @ r)) k =
    (case Option.bind (k_find_get_pid api k tid) (k_pid_task api k) of
       None \<Rightarrow> (- ESRCH, emit t k)
     | Some thread \<Rightarrow>
         if - 20 \<le> n \<and> n \<le> 19 then (0, emit t (set_user_nice_at api thread n k)) else (- EINVAL, emit t k))"
proof -
  have "set_user_nice_at api p n (emit t k) = emit t (set_user_nice_at api p n k)" for p t
    by (simp add: set_user_nice_at_def)
  then show ?thesis
    using sscanf_dd [OF assms(2-4)]
    by (auto simp: set_thread_priority_in_def Let_def kapi_ok_lookup [OF assms(1)] balanced_def
        simp del: sscanf.simps intro!: ex_emit_lifo split: option.split)
qed

lemma setthreadpriority_effect_witness:
  "fst (set_thread_priority_in demo_api (Some (dec 42 @ SP # dec 20 @ [NL])) demo_kern) = - EINVAL"
proof -
  obtain t where "set_thread_priority_in demo_api (Some (dec 42 @ SP # dec 20 @ [NL])) demo_kern =
    (case Option.bind (k_find_get_pid demo_api demo_kern 42) (k_pid_task demo_api demo_kern) of
       None \<Rightarrow> (- ESRCH, emit t demo_kern)
     | Some thread \<Rightarrow>
         if - 20 \<le> (20::int) \<and> (20::int) \<le> 19 then (0, emit t (set_user_nice_at demo_api thread 20 demo_kern))
         else (- EINVAL, emit t demo_kern))"
    using setthreadpriority_effect [OF demo_api_ok, of 42 20 "[NL]" demo_kern] by (auto simp: is_int32_def)
  then show ?thesis by (simp add: demo_lookups)
qed

text \<open>
  \<open>showtask\<close> logs one line per process, in the order of the process list, then their number,
  and changes no task.
\<close>

lemma showtask_log:
  "log_of (added k (showtasklist param k)) =
     map (\<lambda>p. (KERN_INFO, ''Process: '' @ comm (tasks k p) @ '' (PID: '' @ dec (pid (tasks k p)) @ '')'' @ [NL])) (procs k)
       @ [(KERN_INFO, ''task count:'' @ dec (int (length (procs k))) @ [NL])] \<and>
   tasks (showtasklist param k) = tasks k"
  by (simp add: showtasklist_eq)

end
