(* ===== verification/Sys2_Netdev.thy ===== *)
theory Sys2_Netdev
  imports Kern_State
begin

text \<open>
  The interface commands of \<open>sys2/mypacket.c\<close>: \<open>showinterface\<close>, \<open>setmtu\<close> and
  \<open>clearinterface\<close>, and the string trimming they share. A handler that writes outside an
  object gives a fault. \<open>clearinterface\<close> clears as many words as \<open>struct rtnl_link_stats64\<close>
  has, starting at \<open>dev->stats\<close>: when that struct is larger than \<open>stats\<close>, whatever members of the
  device lie behind. Where they lie is the kernel's layout, an argument of the model.
\<close>

definition IFNAMSIZ :: nat where
  "IFNAMSIZ = 16"

section \<open>Trimming\<close>

fun trim_loop :: "char list \<Rightarrow> nat \<Rightarrow> char list" where
  \<comment> \<open>the loop with \<open>end = str + n\<close>\<close>
  "trim_loop b 0 = b"
| "trim_loop b (Suc n) = (if isspace (b ! Suc n) then trim_loop (b[Suc n := NUL]) n else b)"

definition trim_trailing_whitespace :: "char list \<Rightarrow> char list" where
  "trim_trailing_whitespace b = (case strlen b of 0 \<Rightarrow> b | Suc n \<Rightarrow> trim_loop b n)"

text \<open>The string it leaves: without its trailing blanks, but never without its first character.\<close>

definition rtrim :: "string \<Rightarrow> string" where
  "rtrim s = (case s of [] \<Rightarrow> [] | c # t \<Rightarrow> c # rev (dropWhile isspace (rev t)))"

definition copied_name :: "char list \<Rightarrow> string \<Rightarrow> char list" where
  \<comment> \<open>\<open>strncpy\<close>, the terminator, \<open>trim_trailing_whitespace\<close>\<close>
  "copied_name b param =
     trim_trailing_whitespace ((strncpy_buf b param (IFNAMSIZ - 1))[IFNAMSIZ - 1 := NUL])"

section \<open>showinterface\<close>

fun mac_str :: "nat list \<Rightarrow> string" where
  "mac_str [] = []"
| "mac_str [b] = hex2 b"
| "mac_str (b # bs) = hex2 b @ CHR '':'' # mac_str bs"

definition mac_of :: "nat list option \<Rightarrow> string" where
  \<comment> \<open>\<open>%pM\<close>\<close>
  "mac_of a = (case a of None \<Rightarrow> ''(null)'' | Some bs \<Rightarrow> mac_str bs)"

definition llu :: "64 word \<Rightarrow> string" where
  "llu w = dec (uint w)"

definition stat_lines :: "net_device \<Rightarrow> link_stats64 \<Rightarrow> kev list" where
  "stat_lines d st =
     [pr_info (''Interface: '' @ dev_name d @ [NL]),
      pr_info (''MTU: '' @ dec (mtu d) @ [NL]),
      pr_info (''MAC Address: '' @ mac_of (dev_addr d) @ [NL]),
      pr_info (''RX packets: '' @ llu (rx_packets st) @ [NL]),
      pr_info (''RX bytes: '' @ llu (rx_bytes st) @ [NL]),
      pr_info (''RX errors: '' @ llu (rx_errors st) @ [NL]),
      pr_info (''RX dropped: '' @ llu (rx_dropped st) @ [NL]),
      pr_info (''TX packets: '' @ llu (tx_packets st) @ [NL]),
      pr_info (''TX bytes: '' @ llu (tx_bytes st) @ [NL]),
      pr_info (''TX errors: '' @ llu (tx_errors st) @ [NL]),
      pr_info (''TX dropped: '' @ llu (tx_dropped st) @ [NL])]"

definition showinterface_in :: "kapi \<Rightarrow> string option \<Rightarrow> kern \<Rightarrow> int \<times> kern" where
  "showinterface_in api param0 k =
     (let usage = pr_info (''Invalid input format. Expected: showinterface <interface_name>'' @ [NL]) in
      case param0 of None \<Rightarrow> (- EINVAL, emit [usage] k) | Some param \<Rightarrow>
      if length param = 0 then (- EINVAL, emit [usage] k)
      else
      let interface_name = cstr (copied_name (k_stack16 api) param);
          k1 = emit [pr_info (''Showing interface statistics: '' @ interface_name @ [NL])] k in
      (case k_dev_get_by_name api k1 interface_name of
         None \<Rightarrow> (- ENODEV, emit [pr_info (''Interface '' @ interface_name @ '' not found'' @ [NL])] k1)
       | Some dev \<Rightarrow>
         let d = netdevs k1 dev in
         (0, emit ([Get (DevRef dev) 0] @ stat_lines d (k_dev_get_stats api d) @ [Put (DevRef dev)]) k1)))"

definition showinterface :: "kapi \<Rightarrow> string \<Rightarrow> kern \<Rightarrow> kern" where
  "showinterface api param k = snd (showinterface_in api (Some param) k)"

section \<open>setmtu\<close>

definition setmtu_in :: "kapi \<Rightarrow> string option \<Rightarrow> kern \<Rightarrow> fault + (int \<times> kern)" where
  "setmtu_in api param0 k =
     (let usage = pr_info (''Invalid input format. Expected: setmtu <interface_name> <mtu_value>'' @ [NL]) in
      case param0 of None \<Rightarrow> Inr (- EINVAL, emit [usage] k) | Some param \<Rightarrow>
      if length param = 0 then Inr (- EINVAL, emit [usage] k)
      else
      (case sscanf param [FmtS, FmtBlank, FmtD] of
         [] \<Rightarrow> Inr (- EINVAL, emit [usage] k)
       | v # vs \<Rightarrow>
         (case v of IntV _ \<Rightarrow> Inr (- EINVAL, emit [usage] k) | StrV w \<Rightarrow>
          \<comment> \<open>\<open>%s\<close> has stored the word and a terminator into the 16 bytes\<close>
          if length w \<ge> IFNAMSIZ then Inl OutOfBounds
          else
          (case vs of
             [IntV new_mtu] \<Rightarrow>
               let b = w @ NUL # drop (Suc (length w)) (k_stack16 api);
                   interface_name = cstr (trim_trailing_whitespace b);
                   k1 = emit [pr_info (''Setting MTU for interface: '' @ interface_name @ '' to '' @
                                dec new_mtu @ [NL])] k in
               (case k_dev_get_by_name api k1 interface_name of
                  None \<Rightarrow> Inr (- ENODEV, emit [pr_info (''Interface '' @ interface_name @ '' not found'' @ [NL])] k1)
                | Some dev \<Rightarrow>
                  let k2 = emit [Get (DevRef dev) 0] k1 in
                  if new_mtu < 68 \<or> new_mtu > 65535 then
                    Inr (- EINVAL,
                      emit [pr_info (''Invalid MTU value: '' @ dec new_mtu @ ''. Valid range is 68 to 65535'' @ [NL]),
                            Put (DevRef dev)] k2)
                  else
                    let k3 = k2\<lparr>netdevs := (netdevs k2)(dev := (netdevs k2 dev)\<lparr>mtu := new_mtu\<rparr>)\<rparr> in
                    Inr (0, emit [pr_info (''MTU for interface '' @ dev_name (netdevs k3 dev) @ '' set to '' @
                                    dec (mtu (netdevs k3 dev)) @ [NL]),
                                  Put (DevRef dev)] k3))
           | _ \<Rightarrow> Inr (- EINVAL, emit [usage] k)))))"

definition setmtu :: "kapi \<Rightarrow> string \<Rightarrow> kern \<Rightarrow> fault + kern" where
  "setmtu api param k = bindF (setmtu_in api (Some param) k) (\<lambda>(_, k'). Inr k')"

section \<open>clearinterface\<close>

definition hit :: "nat \<Rightarrow> int \<Rightarrow> bool" where
  \<comment> \<open>whether \<open>n\<close> words from \<open>stats\<close> on reach the word at an offset\<close>
  "hit n at \<longleftrightarrow> 0 \<le> at \<and> at < int n"

definition memset_stats :: "kapi \<Rightarrow> nat \<Rightarrow> net_device \<Rightarrow> fault + net_device" where
  \<comment> \<open>\<open>memset(&dev->stats, 0, 8 * n)\<close>\<close>
  "memset_stats api n d =
     (let ws = dev_stats d @ dev_after d; m = length (dev_stats d); z = replicate n 0 @ drop n ws in
      if length ws < n then Inl OutOfBounds
      else Inr (d\<lparr>dev_stats := take m z, dev_after := drop m z,
                  mtu := (if hit n (k_mtu_at api) then 0 else mtu d),
                  dev_addr := (if hit n (k_dev_addr_at api) then None else dev_addr d)\<rparr>))"

definition clearinterface_in :: "kapi \<Rightarrow> string option \<Rightarrow> kern \<Rightarrow> fault + (int \<times> kern)" where
  "clearinterface_in api param0 k =
     (let usage = pr_info (''Invalid input format. Expected: clearinterface <interface_name>'' @ [NL]) in
      case param0 of None \<Rightarrow> Inr (- EINVAL, emit [usage] k) | Some param \<Rightarrow>
      if length param = 0 then Inr (- EINVAL, emit [usage] k)
      else
      let interface_name = cstr (copied_name (replicate IFNAMSIZ NUL) param);
          k1 = emit [pr_info (''Clearing statistics for interface: '' @ interface_name @ [NL])] k in
      (case k_dev_get_by_name api k1 interface_name of
         None \<Rightarrow> Inr (- ENODEV, emit [pr_info (''Interface '' @ interface_name @ '' not found'' @ [NL])] k1)
       | Some dev \<Rightarrow>
         bindF (memset_stats api (k_link_stats64_words api) (netdevs k1 dev)) (\<lambda>d.
           let k2 = emit [Get (DevRef dev) 0] k1; k3 = k2\<lparr>netdevs := (netdevs k2)(dev := d)\<rparr> in
           Inr (0, emit [pr_info (''Statistics for interface '' @ dev_name d @ '' have been cleared'' @ [NL]),
                         Put (DevRef dev)] k3))))"

definition clearinterface :: "kapi \<Rightarrow> string \<Rightarrow> kern \<Rightarrow> fault + kern" where
  "clearinterface api param k = bindF (clearinterface_in api (Some param) k) (\<lambda>(_, k'). Inr k')"

section \<open>Trimming: what is left\<close>

lemma cstr_update_NUL: "i < length (cstr b) \<Longrightarrow> cstr (b[i := NUL]) = take i (cstr b)"
proof (induction b arbitrary: i)
  case (Cons c b)
  then show ?case by (cases i) (auto split: if_splits)
qed simp

lemma nth_cstr_less: "i < length (cstr b) \<Longrightarrow> cstr b ! i = b ! i"
proof (induction b arbitrary: i)
  case (Cons c b)
  then show ?case by (cases i) (auto split: if_splits)
qed simp

lemma rtrim_snoc: "rtrim (c # t @ [d]) = (if isspace d then rtrim (c # t) else c # t @ [d])"
  by (simp add: rtrim_def)

lemma cstr_trim_loop: "length (cstr b) = Suc n \<Longrightarrow> cstr (trim_loop b n) = rtrim (cstr b)"
proof (induction n arbitrary: b)
  case 0
  then obtain c where "cstr b = [c]" by (metis length_0_conv length_Suc_conv)
  then show ?case by (simp add: rtrim_def)
next
  case (Suc n)
  then obtain c t d where s: "cstr b = c # t @ [d]" "length t = n"
    by (metis length_Suc_conv length_append_singleton length_Suc_conv_rev)
  then have d: "b ! Suc n = d"
    using nth_cstr_less [of "Suc n" b] by (simp add: nth_append)
  show ?case
  proof (cases "isspace d")
    case True
    have c: "cstr (b[Suc n := NUL]) = c # t"
      using s cstr_update_NUL [of "Suc n" b] by simp
    then show ?thesis
      using Suc.IH [of "b[Suc n := NUL]"] s d True rtrim_snoc [of c t d] by simp
  next
    case False
    then show ?thesis using s d rtrim_snoc [of c t d] by simp
  qed
qed

lemma cstr_trim: "cstr (trim_trailing_whitespace b) = rtrim (cstr b)"
  by (cases "length (cstr b)")
     (auto simp: trim_trailing_whitespace_def strlen_def cstr_trim_loop rtrim_def)

lemma rtrim_no_space: "(\<And>c. c \<in> set s \<Longrightarrow> \<not> isspace c) \<Longrightarrow> rtrim s = s"
proof (cases s)
  case (Cons c t)
  assume "\<And>c. c \<in> set s \<Longrightarrow> \<not> isspace c"
  with Cons have "dropWhile isspace (rev t) = rev t"
    by (intro dropWhile_eq_self_iff [THEN iffD2]) (auto simp: last_rev hd_rev)
  with Cons show ?thesis by (simp add: rtrim_def)
qed (simp add: rtrim_def)

lemma rtrim_NL:
  assumes "s \<noteq> []" "\<And>c. c \<in> set s \<Longrightarrow> \<not> isspace c"
  shows "rtrim (s @ [NL]) = s"
proof -
  obtain c t where s: "s = c # t" using assms(1) by (cases s) auto
  have "rtrim s = s" by (rule rtrim_no_space) (rule assms(2))
  then show ?thesis using s rtrim_snoc [of c t NL] by simp
qed

lemma cstr_strncpy_name:
  assumes "length b = IFNAMSIZ"
  shows "cstr ((strncpy_buf b s (IFNAMSIZ - 1))[IFNAMSIZ - 1 := NUL]) = take (IFNAMSIZ - 1) (cstr s)"
proof -
  let ?t = "take 15 (cstr s)"
  have "length (drop 15 b) = Suc 0" by (simp add: assms IFNAMSIZ_def)
  then obtain z where z: "drop 15 b = [z]" by (metis length_0_conv length_Suc_conv)
  have "(strncpy_buf b s 15)[15 := NUL] = ?t @ replicate (15 - length ?t) NUL @ [NUL]"
    by (simp add: strncpy_buf_def Let_def z list_update_append)
  also have "\<dots> = ?t @ NUL # replicate (15 - length ?t) NUL"
    by (simp add: replicate_append_same)
  also have "cstr \<dots> = ?t"
    by (rule cstr_append_NUL) (meson cstr_no_NUL in_set_takeD)
  finally show ?thesis by (simp add: IFNAMSIZ_def)
qed

lemma cstr_copied_name:
  "length b = IFNAMSIZ \<Longrightarrow> cstr (copied_name b s) = rtrim (take (IFNAMSIZ - 1) (cstr s))"
  by (simp only: copied_name_def cstr_trim cstr_strncpy_name)

section \<open>What the commands change\<close>

definition with_mtu :: "nat \<Rightarrow> int \<Rightarrow> kern \<Rightarrow> kern" where
  "with_mtu d v k = k\<lparr>netdevs := (netdevs k)(d := (netdevs k d)\<lparr>mtu := v\<rparr>)\<rparr>"

lemma setmtu_word:
  assumes "w \<noteq> []" "\<And>c. c \<in> set w \<Longrightarrow> \<not> isspace c" "r = [] \<or> isspace (hd r)"
  shows "sscanf (w @ r) [FmtS, FmtBlank, FmtD] = StrV w # sscanf (skip_spaces r) [FmtD]"
  using sscanf_word [OF assms, of "[FmtBlank, FmtD]"] by simp

lemma setmtu_overflow:
  assumes "w \<noteq> []" "\<And>c. c \<in> set w \<Longrightarrow> \<not> isspace c" "r = [] \<or> isspace (hd r)"
  shows "setmtu_in api (Some (w @ r)) k = Inl OutOfBounds \<longleftrightarrow> IFNAMSIZ \<le> length w"
  using assms setmtu_word [OF assms]
  by (auto simp: setmtu_in_def Let_def split: option.split list.split scanned.split)

lemma stored_name:
  assumes "\<And>c. c \<in> set w \<Longrightarrow> \<not> isspace c \<and> c \<noteq> NUL"
  shows "cstr (trim_trailing_whitespace (w @ NUL # b)) = w"
proof -
  have "cstr (w @ NUL # b) = w" using assms by (intro cstr_append_NUL) blast
  then show ?thesis using assms by (simp add: cstr_trim rtrim_no_space)
qed

lemma setmtu_effect:
  assumes api: "kapi_ok api"
    and w: "w \<noteq> []" "\<And>c. c \<in> set w \<Longrightarrow> \<not> isspace c \<and> c \<noteq> NUL" "length w < IFNAMSIZ"
    and d: "k_dev_get_by_name api k w = Some d"
    and v: "68 \<le> v" "v \<le> 65535" and r: "r = [] \<or> \<not> isdigit (hd r)"
  shows "\<exists>t. setmtu_in api (Some (w @ SP # dec v @ r)) k = Inr (0, emit t (with_mtu d v k)) \<and> balanced t"
proof -
  have sc: "sscanf (w @ SP # dec v @ r) [FmtS, FmtBlank, FmtD] = [StrV w, IntV v]"
    using setmtu_word [of w "SP # dec v @ r"] w v scan_d_dec [OF r, of v]
    by (simp add: skip_spaces_dec wrap32_id)
  show ?thesis
    using w(1,3) v d stored_name [of w] w(2)
    by (simp add: setmtu_in_def Let_def sc kapi_ok_lookup [OF api] with_mtu_def del: sscanf.simps)
       (rule exI, rule conjI, rule refl, simp add: balanced_def)
qed

lemma ex_emit_mtu:
  "68 \<le> v \<Longrightarrow> v \<le> 65535 \<Longrightarrow> balanced t \<Longrightarrow>
   \<exists>t' d' v'. 68 \<le> v' \<and> v' \<le> 65535 \<and>
     emit t (k\<lparr>netdevs := (netdevs k)(d := (netdevs k d)\<lparr>mtu := v\<rparr>)\<rparr>) = emit t' (with_mtu d' v' k) \<and>
     balanced t'"
  unfolding with_mtu_def by blast

lemma setmtu_cases:
  assumes "setmtu_in api p k = Inr (ret, k')"
  obtains (fail) t where "ret < 0" "k' = emit t k" "balanced t"
    | (ok) t d v where "ret = 0" "68 \<le> v" "v \<le> 65535" "k' = emit t (with_mtu d v k)" "balanced t"
proof -
  have "(\<exists>t. ret < 0 \<and> k' = emit t k \<and> balanced t) \<or>
    (\<exists>t d v. ret = 0 \<and> 68 \<le> v \<and> v \<le> 65535 \<and> k' = emit t (with_mtu d v k) \<and> balanced t)"
    using assms
    by (auto simp: setmtu_in_def Let_def balanced_def intro!: ex_emit [unfolded balanced_def] ex_emit_mtu [unfolded balanced_def]
        split: option.splits list.splits scanned.splits if_splits)
  then show thesis using fail ok by blast
qed

definition cleared :: "kapi \<Rightarrow> nat \<Rightarrow> net_device \<Rightarrow> net_device" where
  \<comment> \<open>a device whose first \<open>n\<close> words from \<open>stats\<close> on are zero\<close>
  "cleared api n d = d\<lparr>
     dev_stats := replicate (min n (length (dev_stats d))) 0 @ drop n (dev_stats d),
     dev_after := replicate (n - length (dev_stats d)) 0 @ drop (n - length (dev_stats d)) (dev_after d),
     mtu := (if hit n (k_mtu_at api) then 0 else mtu d),
     dev_addr := (if hit n (k_dev_addr_at api) then None else dev_addr d)\<rparr>"

lemma memset_stats_eq:
  "memset_stats api n d = (if length (dev_stats d @ dev_after d) < n then Inl OutOfBounds else Inr (cleared api n d))"
proof (cases "n \<le> length (dev_stats d)")
  case True
  then show ?thesis by (simp add: memset_stats_def cleared_def Let_def min_absorb1)
next
  case False
  then show ?thesis by (simp add: memset_stats_def cleared_def Let_def min_absorb2 min_def)
qed

lemma all_cleared: "length (dev_stats d) \<le> n \<Longrightarrow> dev_stats (cleared api n d) = replicate (length (dev_stats d)) 0"
  by (simp add: cleared_def min_absorb2)

interpretation h_showinterface: handler "\<lambda>s k. Inr (showinterface api s k)" "\<lambda>_. True" for api
  by unfold_locales
     (auto simp: showinterface_def showinterface_in_def stat_lines_def Let_def balanced_def split: option.split)

interpretation h_setmtu: handler "setmtu api" "\<lambda>_. True" for api
proof
  fix p k k'
  assume "setmtu api p k = Inr k'"
  then obtain ret where "setmtu_in api (Some p) k = Inr (ret, k')"
    by (auto simp: setmtu_def bindF_Inr)
  then show "keeps_refs k k'"
    by (rule setmtu_cases) (simp_all add: with_mtu_def)
qed

interpretation h_clearinterface: handler "clearinterface api" "\<lambda>_. True" for api
  by unfold_locales
     (auto simp: clearinterface_def clearinterface_in_def Let_def balanced_def bindF_Inr
       split: option.splits if_splits)

section \<open>Interface names\<close>

text \<open>A name as a user writes it: up to 15 characters without blanks, then any blanks.\<close>

definition if_name :: "string \<Rightarrow> bool" where
  "if_name w \<longleftrightarrow> w \<noteq> [] \<and> length w < IFNAMSIZ \<and> (\<forall>c \<in> set w. \<not> isspace c \<and> c \<noteq> NUL)"

definition blanks :: "string \<Rightarrow> bool" where
  "blanks b \<longleftrightarrow> (\<forall>c \<in> set b. isspace c)"

lemma rtrim_blanks:
  assumes "if_name w" "blanks b"
  shows "rtrim (w @ b) = w"
  using assms(2)
proof (induction b rule: rev_induct)
  case Nil
  show ?case using assms(1) by (simp add: if_name_def rtrim_no_space)
next
  case (snoc x b)
  obtain c t where w: "w = c # t" using assms(1) by (cases w) (auto simp: if_name_def)
  show ?case using snoc w rtrim_snoc [of c "t @ b" x] by (simp add: blanks_def)
qed

lemma copied_if_name:
  assumes "if_name w" "blanks b" "length buf = IFNAMSIZ"
  shows "cstr (copied_name buf (w @ b)) = w"
proof -
  have nul: "NUL \<notin> set (w @ b)" using assms by (auto simp: if_name_def blanks_def)
  have le: "length w \<le> 15" using assms(1) by (simp add: if_name_def IFNAMSIZ_def)
  have "cstr (copied_name buf (w @ b)) = rtrim (take (IFNAMSIZ - 1) (w @ b))"
    by (simp only: cstr_copied_name [OF assms(3)] cstr_id [OF nul])
  also have "\<dots> = rtrim (w @ take (15 - length w) b)" using le by (simp add: IFNAMSIZ_def)
  also have "\<dots> = w"
    using assms(2) by (intro rtrim_blanks assms(1)) (auto simp: blanks_def dest: in_set_takeD)
  finally show ?thesis .
qed

section \<open>Properties\<close>


lemma if_name_eth0: "if_name ''eth0''"
  by (simp add: if_name_def IFNAMSIZ_def isspace_def)

lemma blanks_NL: "blanks [NL]"
  by (simp add: blanks_def)


text \<open>
  \<open>setmtu\<close> writes past the 16-byte name buffer on its stack exactly when the first word of
  its argument has 16 or more characters.
\<close>

theorem setmtu_name_overflow:
  assumes "w \<noteq> []" "\<And>c. c \<in> set w \<Longrightarrow> \<not> isspace c" "r = [] \<or> isspace (hd r)"
  shows "setmtu api (w @ r) k = Inl OutOfBounds \<longleftrightarrow> 16 \<le> length w"
  using setmtu_overflow [OF assms, of api k] by (simp add: setmtu_def bindF_Inl IFNAMSIZ_def)

lemma setmtu_name_overflow_witness:
  "setmtu demo_api (replicate 16 CHR ''x'' @ '' 1500'') demo_kern = Inl OutOfBounds"
  by (subst setmtu_name_overflow) (auto simp: isspace_def)



end
