(* ===== verification/Sys2_Parse.thy ===== *)
theory Sys2_Parse
  imports Kern_State "HOL-Library.While_Combinator"
begin

text \<open>
  \<open>sys2/parse.c\<close>: the command \<open>parse\<close>, which splits a copy of its argument at blanks with
  \<open>strsep\<close>. \<open>strsep\<close> takes the pointer to the rest of the string (\<open>None\<close> is NULL) and gives
  the token and the new rest. \<open>kfree(NULL)\<close> does nothing.
\<close>

definition strsep :: "string option \<Rightarrow> char \<Rightarrow> string option \<times> string option" where
  "strsep p d =
     (case p of None \<Rightarrow> (None, None)
      | Some s \<Rightarrow>
        if d \<in> set s
        then (Some (takeWhile (\<lambda>c. c \<noteq> d) s), Some (tl (dropWhile (\<lambda>c. c \<noteq> d) s)))
        else (Some s, None))"

lemma strsep_shorter:
  "strsep (Some s) d = (tok, Some r) \<Longrightarrow> length r < length s"
proof -
  assume h: "strsep (Some s) d = (tok, Some r)"
  then have "d \<in> set s" "r = tl (dropWhile (\<lambda>c. c \<noteq> d) s)"
    by (auto simp: strsep_def split: if_splits)
  moreover from this have "dropWhile (\<lambda>c. c \<noteq> d) s \<noteq> []"
    by (simp add: dropWhile_eq_Nil_conv)
  moreover have "length (dropWhile (\<lambda>c. c \<noteq> d) s) \<le> length s"
    by (rule length_dropWhile_le)
  ultimately show ?thesis by (cases "dropWhile (\<lambda>c. c \<noteq> d) s") auto
qed

fun rest_size :: "string option \<Rightarrow> nat" where
  "rest_size None = 0"
| "rest_size (Some s) = Suc (length s)"

function parse_loop :: "string option \<Rightarrow> string option \<Rightarrow> int \<Rightarrow> kev list \<times> string option" where
  \<comment> \<open>\<open>token\<close>, \<open>cmd_copy\<close>, \<open>param_count\<close>; gives what is logged and the final \<open>cmd_copy\<close>\<close>
  "parse_loop None cmd_copy param_count = ([], cmd_copy)"
| "parse_loop (Some token) cmd_copy param_count =
     (let n = param_count + 1; nxt = strsep cmd_copy SP; r = parse_loop (fst nxt) (snd nxt) n in
      (pr_info (''Parameter '' @ dec n @ '': '' @ token @ [NL]) # fst r, snd r))"
  by pat_completeness auto
termination
  by (relation "measure (\<lambda>(tok, r, n). (if tok = None then 0 else 1) + rest_size r)")
     (auto simp: strsep_def less_Suc_eq_le length_dropWhile_le split: option.splits)

definition kfree :: "string option \<Rightarrow> kev list" where
  "kfree p = (case p of None \<Rightarrow> [] | Some _ \<Rightarrow> [Put Kmem])"

definition parse_command :: "kapi \<Rightarrow> string \<Rightarrow> kern \<Rightarrow> kern" where
  "parse_command api cmd k =
     (if \<not> k_kstrdup_ok api then emit [Get Kmem (- ENOMEM), pr_err (''Memory allocation failed'' @ [NL])] k
      else
      let k1 = emit [Get Kmem 0] k;
          nxt = strsep (Some cmd) SP;
          r = parse_loop (fst nxt) (snd nxt) 0
      in emit (fst r @ kfree (snd r)) k1)"

definition showkernelsymbol :: "string \<Rightarrow> kern \<Rightarrow> kern" where
  "showkernelsymbol param k = k"

section \<open>The tokens\<close>

text \<open>The abstract splitting: the fields between blanks, empty ones included.\<close>

fun fields :: "string \<Rightarrow> string list" where
  "fields [] = [[]]"
| "fields (c # s) =
     (if c = SP then [] # fields s
      else case fields s of [] \<Rightarrow> [[c]] | f # fs \<Rightarrow> (c # f) # fs)"

fun join_sp :: "string list \<Rightarrow> string" where
  "join_sp [] = []"
| "join_sp [f] = f"
| "join_sp (f # g # fs) = f @ SP # join_sp (g # fs)"

lemma fields_nonempty [simp]: "fields s \<noteq> []"
  by (induction s) (auto split: list.split)

lemma join_fields: "join_sp (fields s) = s"
proof (induction s)
  case (Cons c s)
  then show ?case by (cases "fields s" rule: join_sp.cases) auto
qed simp

lemma fields_no_blank: "f \<in> set (fields s) \<Longrightarrow> SP \<notin> set f"
proof (induction s arbitrary: f)
  case (Cons c s)
  then show ?case by (cases "fields s") (auto split: if_splits)
qed simp

lemma fields_strsep:
  "fields s = (case strsep (Some s) SP of (tok, r) \<Rightarrow>
     the tok # (case r of None \<Rightarrow> [] | Some t \<Rightarrow> fields t))"
  by (induction s) (auto simp: strsep_def split: list.split)

fun param_lines :: "int \<Rightarrow> string list \<Rightarrow> kev list" where
  "param_lines n [] = []"
| "param_lines n (f # fs) = pr_info (''Parameter '' @ dec (n + 1) @ '': '' @ f @ [NL]) # param_lines (n + 1) fs"

lemma parse_loop_eq:
  "parse_loop tok r n =
     (param_lines n (case tok of None \<Rightarrow> [] | Some t \<Rightarrow> t # (case r of None \<Rightarrow> [] | Some s \<Rightarrow> fields s)),
      if tok = None then r else None)"
proof (induction tok r n rule: parse_loop.induct)
  case (1 r n)
  then show ?case by simp
next
  case (2 t r n)
  show ?case
  proof (cases r)
    case None
    then show ?thesis by (simp add: Let_def strsep_def)
  next
    case (Some s)
    obtain tok' r' where st: "strsep (Some s) SP = (Some tok', r')"
      by (cases "SP \<in> set s") (auto simp: strsep_def)
    then have "fields s = tok' # (case r' of None \<Rightarrow> [] | Some t \<Rightarrow> fields t)"
      using fields_strsep [of s] by simp
    then show ?thesis using 2 Some st by (simp add: Let_def)
  qed
qed

lemma parse_command_eq:
  "k_kstrdup_ok api \<Longrightarrow> parse_command api cmd k = emit (Get Kmem 0 # param_lines 0 (fields cmd)) k"
  by (auto simp: parse_command_def Let_def parse_loop_eq kfree_def fields_strsep [of cmd] strsep_def
      split: if_splits)

lemma balanced_param_lines [simp]: "balanced (param_lines n fs)"
  by (induction n fs rule: param_lines.induct) auto

interpretation h_showkernelsymbol: handler "\<lambda>s k. Inr (showkernelsymbol s k)" "\<lambda>_. True"
  by unfold_locales (simp add: showkernelsymbol_def)

lemma replay_param_lines [simp]: "replay h (param_lines n fs) = Some h"
  by (simp add: balanced_replay)

section \<open>Properties\<close>

text \<open>
  C29: \<open>parse\<close> logs the fields of its argument, numbered from 1: texts without a blank which,
  joined by single blanks, are the argument; provided that \<open>kstrdup\<close> finds memory for the copy it works on.
\<close>

theorem parse_logs_fields:
  assumes "k_kstrdup_ok api"
  shows "\<exists>fs. join_sp fs = cmd \<and> (\<forall>f \<in> set fs. SP \<notin> set f) \<and>
    parse_command api cmd k = emit (Get Kmem 0 # param_lines 0 fs) k"
  using parse_command_eq [OF assms, of cmd k] join_fields [of cmd] fields_no_blank [of _ cmd] by blast

lemma parse_logs_fields_witness:
  "\<exists>fs. join_sp fs = ''a b'' \<and> parse_command demo_api ''a b'' demo_kern = emit (Get Kmem 0 # param_lines 0 fs) demo_kern"
  using parse_logs_fields [of demo_api "''a b''" demo_kern] by (auto simp: demo_api_def)

text \<open>
  Every \<open>parse\<close> leaks the copy it made. The loop ends with \<open>cmd_copy\<close> NULL, so the final
  \<open>kfree\<close> frees nothing: after the command one more block of memory is held than before.
\<close>

theorem parse_leaks_copy:
  assumes "k_kstrdup_ok api" "replay [] (trace k) = Some h"
  shows "replay [] (trace (parse_command api cmd k)) = Some (Kmem # h)"
  using assms by (simp add: parse_command_eq replay_append)

lemma parse_leaks_copy_witness:
  "replay [] (trace (parse_command demo_api ''x'' demo_kern)) = Some [Kmem]"
  by (rule parse_leaks_copy) (simp_all add: demo_api_def demo_kern_def)

section \<open>The loop as it is written\<close>

definition parse_while ::
  "string option \<times> string option \<times> int \<times> kev list \<Rightarrow> (string option \<times> string option \<times> int \<times> kev list) option" where
  \<comment> \<open>\<open>while (token) ...\<close>: \<open>None\<close> if it does not end\<close>
  "parse_while = while_option (\<lambda>(token, cmd_copy, param_count, l). token \<noteq> None)
     (\<lambda>(token, cmd_copy, param_count, l).
        let n = param_count + 1; nxt = strsep cmd_copy SP in
        (fst nxt, snd nxt, n, l @ [pr_info (''Parameter '' @ dec n @ '': '' @ the token @ [NL])]))"

lemma parse_while_unfold:
  "parse_while (None, r, n, l) = Some (None, r, n, l)"
  "parse_while (Some t, r, n, l) =
     parse_while (fst (strsep r SP), snd (strsep r SP), n + 1, l @ [pr_info (''Parameter '' @ dec (n + 1) @ '': '' @ t @ [NL])])"
  unfolding parse_while_def by (subst while_option_unfold, simp add: Let_def)+

text \<open>
  C30: the loop that splits a command at blanks always ends, and leaves the pointer and the log that the
  recursive model of it gives, after one turn for each token.
\<close>

theorem parse_while_returns:
  "parse_while (token, cmd_copy, n, l) =
     Some (None, snd (parse_loop token cmd_copy n), n + int (length (fst (parse_loop token cmd_copy n))),
           l @ fst (parse_loop token cmd_copy n))"
proof (induction token cmd_copy n arbitrary: l rule: parse_loop.induct)
  case (1 r n)
  then show ?case by (simp add: parse_while_unfold)
next
  case (2 t r n)
  then show ?case by (simp add: parse_while_unfold Let_def)
qed

end
