(* ===== verification/Sys2_Process.thy ===== *)
theory Sys2_Process
  imports Kern_State
begin

unbundle bit_operations_syntax

text \<open>
  \<open>sys2/process.c\<close>: listing the open file descriptors of all processes, and setting the buffer
  sizes of one socket. The loops over a file table run over the list of its slots, with the
  descriptor number counted along.
\<close>

section \<open>File types\<close>

abbreviation S_IFMT :: "32 word" where "S_IFMT \<equiv> 0xF000"

definition is_type :: "32 word \<Rightarrow> 32 word \<Rightarrow> bool" where
  "is_type m t \<longleftrightarrow> m AND S_IFMT = t"

abbreviation S_ISSOCK :: "32 word \<Rightarrow> bool" where "S_ISSOCK m \<equiv> is_type m 0xC000"
abbreviation S_ISREG :: "32 word \<Rightarrow> bool" where "S_ISREG m \<equiv> is_type m 0x8000"
abbreviation S_ISDIR :: "32 word \<Rightarrow> bool" where "S_ISDIR m \<equiv> is_type m 0x4000"
abbreviation S_ISCHR :: "32 word \<Rightarrow> bool" where "S_ISCHR m \<equiv> is_type m 0x2000"
abbreviation S_ISBLK :: "32 word \<Rightarrow> bool" where "S_ISBLK m \<equiv> is_type m 0x6000"
abbreviation S_ISFIFO :: "32 word \<Rightarrow> bool" where "S_ISFIFO m \<equiv> is_type m 0x1000"
abbreviation S_ISLNK :: "32 word \<Rightarrow> bool" where "S_ISLNK m \<equiv> is_type m 0xA000"

definition file_type :: "32 word \<Rightarrow> string" where
  \<comment> \<open>what is copied into \<open>char type[10]\<close>\<close>
  "file_type m =
     (if S_ISSOCK m then ''SOCKET''
      else if S_ISREG m then ''REGULAR''
      else if S_ISDIR m then ''DIRECTORY''
      else if S_ISCHR m then ''CHARACTER''
      else if S_ISBLK m then ''BLOCK''
      else if S_ISFIFO m then ''FIFO''
      else if S_ISLNK m then ''SYMLINK''
      else ''UNKNOWN'')"

lemma file_type_fits: "length (file_type m) + 1 \<le> 10"
  by (simp add: file_type_def)

lemma file_type_SOCKET: "file_type m = ''SOCKET'' \<longleftrightarrow> S_ISSOCK m"
  by (simp add: file_type_def)

section \<open>showprocessfd\<close>

definition zu :: "int \<Rightarrow> string" where
  "zu i = dec (i mod 2 ^ 64)"

definition fd_lines :: "kern \<Rightarrow> int \<Rightarrow> int \<Rightarrow> kfile \<Rightarrow> kev list" where
  \<comment> \<open>what is logged for one open descriptor\<close>
  "fd_lines k p fd f =
     (let type = file_type (i_mode f) in
      if type = ''SOCKET'' then
        (case private_data f of None \<Rightarrow> [] | Some sock \<Rightarrow>
         (case sockets k sock of None \<Rightarrow> [] | Some sk \<Rightarrow>
           [pr_info (padr 8 (dec p) @ padr 8 (dec fd) @ padr 10 type @
                     padr 15 (dec (sk_rcvbuf (socks k sk))) @ padr 15 (dec (sk_sndbuf (socks k sk))) @ [NL])]))
      else
        [pr_info (padr 8 (dec p) @ padr 8 (dec fd) @ padr 10 type @
                  padr 15 (zu (i_size f)) @ padr 15 (zu (i_size f)) @ [NL])])"

fun fd_loop :: "int \<Rightarrow> int \<Rightarrow> nat option list \<Rightarrow> int \<Rightarrow> int \<Rightarrow> kern \<Rightarrow> int \<times> int \<times> kern" where
  \<comment> \<open>the pid, \<open>fd\<close>, the slots from \<open>fd\<close> on, the two counters\<close>
  "fd_loop p fd [] pc tc k = (pc, tc, k)"
| "fd_loop p fd (None # fs) pc tc k = fd_loop p (fd + 1) fs pc tc k"
| "fd_loop p fd (Some f # fs) pc tc k =
     fd_loop p (fd + 1) fs (pc + 1) (tc + 1) (emit (fd_lines k p fd (files k f)) k)"

fun showfd_loop :: "nat list \<Rightarrow> int \<Rightarrow> kern \<Rightarrow> int \<times> kern" where
  "showfd_loop [] total_fd_count k = (total_fd_count, k)"
| "showfd_loop (p # ps) total_fd_count k =
     (case fdt (tasks k p) of
        None \<Rightarrow> showfd_loop ps total_fd_count k
      | Some slots \<Rightarrow>
        (case fd_loop (pid (tasks k p)) 0 slots 0 total_fd_count (emit [Get RcuRead 0] k) of (pc, tc, k1) \<Rightarrow>
           showfd_loop ps tc
             (emit [Put RcuRead, pr_info (''Process '' @ dec (pid (tasks k p)) @ '' has '' @ dec pc @
                                  '' file descriptors open.'' @ [NL])] k1)))"

definition showprocessfd_in :: "string \<Rightarrow> kern \<Rightarrow> int \<times> kern" where
  "showprocessfd_in param k =
     (case showfd_loop (procs k) 0
             (emit [pr_info (''All open file descriptors:'' @ [NL]),
                    pr_info (padr 8 ''PID'' @ padr 8 ''FD'' @ padr 10 ''Type'' @ padr 15 ''RecvBufSize'' @
                             padr 15 ''SendBufSize'' @ [NL])] k) of (tc, k') \<Rightarrow>
        (0, emit [pr_info (''Total file descriptors open: '' @ dec tc @ [NL])] k'))"

definition showprocessfd :: "string \<Rightarrow> kern \<Rightarrow> kern" where
  "showprocessfd param k = snd (showprocessfd_in param k)"

section \<open>setsocketsize\<close>

abbreviation SOCK_BUF_LOCKS :: "8 word" where
  \<comment> \<open>\<open>SOCK_RCVBUF_LOCK | SOCK_SNDBUF_LOCK\<close>\<close>
  "SOCK_BUF_LOCKS \<equiv> 3"

definition set_sock_bufs :: "int \<Rightarrow> int \<Rightarrow> sock \<Rightarrow> sock" where
  "set_sock_bufs rcv sndb sk =
     sk\<lparr>sk_userlocks := sk_userlocks sk OR SOCK_BUF_LOCKS, sk_rcvbuf := rcv, sk_sndbuf := sndb\<rparr>"

definition socket_of :: "kern \<Rightarrow> nat \<Rightarrow> nat option" where
  \<comment> \<open>the \<open>struct sock\<close> the guards of the loop body reach from a file pointer\<close>
  "socket_of k f =
     (if S_ISSOCK (i_mode (files k f))
      then (case private_data (files k f) of None \<Rightarrow> None | Some s \<Rightarrow> sockets k s) else None)"

fun find_fd :: "kern \<Rightarrow> int \<Rightarrow> int \<Rightarrow> nat option list \<Rightarrow> nat option" where
  \<comment> \<open>the inner loop from \<open>lfd\<close> on: the \<open>sk\<close> at which it writes and returns, if it does\<close>
  "find_fd k lfd fd [] = None"
| "find_fd k lfd fd (None # fs) = find_fd k (lfd + 1) fd fs"
| "find_fd k lfd fd (Some f # fs) =
     (if lfd \<noteq> fd then find_fd k (lfd + 1) fd fs
      else case socket_of k f of None \<Rightarrow> find_fd k (lfd + 1) fd fs | Some sk \<Rightarrow> Some sk)"

fun setsock_loop :: "int \<Rightarrow> int \<Rightarrow> int \<Rightarrow> int \<Rightarrow> nat list \<Rightarrow> kern \<Rightarrow> int \<times> kern" where
  "setsock_loop pd fd rcv sndb [] k =
     (- ENODEV, emit [pr_info (''Socket with PID '' @ dec pd @ '', FD '' @ dec fd @ '' not found'' @ [NL])] k)"
| "setsock_loop pd fd rcv sndb (p # ps) k =
     (if pid (tasks k p) \<noteq> pd then setsock_loop pd fd rcv sndb ps k
      else case fdt (tasks k p) of
        None \<Rightarrow> setsock_loop pd fd rcv sndb ps k
      | Some slots \<Rightarrow>
        let k1 = emit [Get RcuRead 0] k in
        (case find_fd k1 0 fd slots of
           Some sk \<Rightarrow>
             (0, emit [pr_info (''Buffer sizes for PID '' @ dec pd @ '', FD '' @ dec fd @ '' changed to RCV: '' @
                                dec rcv @ '', SND: '' @ dec sndb @ [NL])]
                   (k1\<lparr>socks := (socks k1)(sk := set_sock_bufs rcv sndb (socks k1 sk))\<rparr>))
         | None \<Rightarrow> setsock_loop pd fd rcv sndb ps (emit [Put RcuRead] k1)))"

definition setsocketsize_in :: "string \<Rightarrow> kern \<Rightarrow> int \<times> kern" where
  "setsocketsize_in param k =
     (case sscanf param [FmtD, FmtBlank, FmtD, FmtBlank, FmtD, FmtBlank, FmtD] of
        [IntV pd, IntV fd, IntV rcv, IntV sndb] \<Rightarrow>
          setsock_loop pd fd rcv sndb (procs k)
            (emit [pr_info (''Changing buffer sizes for PID '' @ dec pd @ '', FD '' @ dec fd @ '' to RCV: '' @
                            dec rcv @ '', SND: '' @ dec sndb @ [NL])] k)
      | _ \<Rightarrow>
          (- EINVAL,
           emit [pr_info (''Invalid input format. Expected: setsocketsize <pid> <fd> <new_rcv_size> <new_snd_size>'' @ [NL])] k))"

definition setsocketsize :: "string \<Rightarrow> kern \<Rightarrow> kern" where
  "setsocketsize param k = snd (setsocketsize_in param k)"

section \<open>Lemmas: showprocessfd\<close>

definition open_fds :: "nat option list \<Rightarrow> nat" where
  "open_fds slots = length (filter (\<lambda>s. s \<noteq> None) slots)"

lemma open_fds_simps [simp]:
  "open_fds [] = 0" "open_fds (None # fs) = open_fds fs" "open_fds (Some f # fs) = Suc (open_fds fs)"
  by (simp_all add: open_fds_def)

lemma balanced_fd_lines [simp]: "balanced (fd_lines k p fd f)"
  by (auto simp: fd_lines_def Let_def split: option.split)

lemma fd_loop_eq:
  "\<exists>t. fd_loop p fd slots pc tc k = (pc + int (open_fds slots), tc + int (open_fds slots), emit t k) \<and> balanced t"
proof (induction slots arbitrary: fd pc tc k)
  case Nil
  show ?case by (rule exI [of _ "[]"]) simp
next
  case (Cons s slots)
  show ?case
  proof (cases s)
    case None
    then show ?thesis using Cons by simp
  next
    case (Some f)
    obtain t where "fd_loop p (fd + 1) slots (pc + 1) (tc + 1) (emit (fd_lines k p fd (files k f)) k) =
        (pc + 1 + int (open_fds slots), tc + 1 + int (open_fds slots),
         emit t (emit (fd_lines k p fd (files k f)) k)) \<and> balanced t"
      using Cons by blast
    then show ?thesis using Some
      by (auto intro!: exI [of _ "fd_lines k p fd (files k f) @ t"])
  qed
qed

definition total_fds :: "kern \<Rightarrow> nat list \<Rightarrow> nat" where
  \<comment> \<open>the specification: open slots over the tables of all processes that have one\<close>
  "total_fds k ps = sum_list (map (\<lambda>p. case fdt (tasks k p) of None \<Rightarrow> 0 | Some s \<Rightarrow> open_fds s) ps)"

lemma total_fds_emit [simp]: "total_fds (emit t k) ps = total_fds k ps"
  by (simp add: total_fds_def)

lemma showfd_loop_eq:
  "\<exists>t. showfd_loop ps tc k = (tc + int (total_fds k ps), emit t k) \<and> balanced t"
proof (induction ps arbitrary: tc k)
  case Nil
  show ?case by (rule exI [of _ "[]"]) (simp add: total_fds_def)
next
  case (Cons p ps)
  show ?case
  proof (cases "fdt (tasks k p)")
    case None
    then show ?thesis using Cons [of tc k] by (simp add: total_fds_def)
  next
    case (Some slots)
    obtain a where a: "fd_loop (pid (tasks k p)) 0 slots 0 tc (emit [Get RcuRead 0] k) =
        (int (open_fds slots), tc + int (open_fds slots), emit a (emit [Get RcuRead 0] k))" "balanced a"
      using fd_loop_eq [of "pid (tasks k p)" 0 slots 0 tc "emit [Get RcuRead 0] k"] by auto
    define b where "b = [Get RcuRead 0] @ a @ [Put RcuRead, pr_info (''Process '' @ dec (pid (tasks k p)) @
        '' has '' @ dec (int (open_fds slots)) @ '' file descriptors open.'' @ [NL])]"
    have b: "balanced b" unfolding b_def using balanced_bracket [OF a(2), of "[Printk l s]" 0 RcuRead for l s]
      by simp
    obtain t where "showfd_loop ps (tc + int (open_fds slots)) (emit b k) =
        (tc + int (open_fds slots) + int (total_fds k ps), emit t (emit b k))" "balanced t"
      using Cons [of "tc + int (open_fds slots)" "emit b k"] by auto
    with b show ?thesis using Some a(1)
      by (auto simp: total_fds_def b_def intro!: exI [of _ "b @ t"])
  qed
qed

lemma showprocessfd_eq:
  "\<exists>t. showprocessfd param k =
     emit (t @ [pr_info (''Total file descriptors open: '' @ dec (int (total_fds k (procs k))) @ [NL])]) k \<and>
     balanced t"
proof -
  define hd where "hd = [pr_info (''All open file descriptors:'' @ [NL]),
    pr_info (padr 8 ''PID'' @ padr 8 ''FD'' @ padr 10 ''Type'' @ padr 15 ''RecvBufSize'' @
             padr 15 ''SendBufSize'' @ [NL])]"
  obtain t where "showfd_loop (procs k) 0 (emit hd k) = (int (total_fds k (procs k)), emit t (emit hd k))"
    "balanced t"
    using showfd_loop_eq [of "procs k" 0 "emit hd k"] by auto
  then show ?thesis
    by (intro exI [of _ "hd @ t"]) (simp add: showprocessfd_def showprocessfd_in_def hd_def [symmetric], simp add: hd_def)
qed

interpretation h_showprocessfd: handler "\<lambda>s k. Inr (showprocessfd s k)" "\<lambda>_. True"
proof
  fix p :: string and k k'
  assume "Inr (showprocessfd p k) = (Inr k' :: fault + kern)"
  moreover obtain t where "showprocessfd p k =
      emit (t @ [pr_info (''Total file descriptors open: '' @ dec (int (total_fds k (procs k))) @ [NL])]) k"
    "balanced t"
    using showprocessfd_eq by blast
  ultimately show "keeps_refs k k'" by (auto intro!: keeps_refs_emit balanced_append)
qed

section \<open>Lemmas: setsocketsize\<close>

lemma find_fd_eq:
  "find_fd k lfd fd slots =
     (if lfd \<le> fd \<and> fd < lfd + int (length slots)
      then (case slots ! nat (fd - lfd) of None \<Rightarrow> None | Some f \<Rightarrow> socket_of k f) else None)"
proof (induction slots arbitrary: lfd)
  case (Cons s slots)
  have "nat (fd - lfd) = Suc (nat (fd - (lfd + 1)))" if "lfd < fd"
    using that by linarith
  with Cons [of "lfd + 1"] show ?case
    by (cases s; cases "lfd = fd") (auto split: option.split)
qed auto

lemma socket_of_emit [simp]: "socket_of (emit t k) f = socket_of k f"
  by (simp add: socket_of_def split: option.split)

lemma find_fd_emit [simp]: "find_fd (emit t k) lfd fd slots = find_fd k lfd fd slots"
  by (simp add: find_fd_eq split: option.split)

definition with_bufs :: "nat \<Rightarrow> int \<Rightarrow> int \<Rightarrow> kern \<Rightarrow> kern" where
  "with_bufs sk rcv sndb k = k\<lparr>socks := (socks k)(sk := set_sock_bufs rcv sndb (socks k sk))\<rparr>"

text \<open>
  The abstract search: how many file tables of the process are scanned in vain, and the socket
  found, if any.
\<close>

fun sock_target :: "kern \<Rightarrow> int \<Rightarrow> int \<Rightarrow> nat list \<Rightarrow> nat \<times> nat option" where
  "sock_target k pd fd [] = (0, None)"
| "sock_target k pd fd (p # ps) =
     (if pid (tasks k p) \<noteq> pd then sock_target k pd fd ps
      else case fdt (tasks k p) of None \<Rightarrow> sock_target k pd fd ps
      | Some slots \<Rightarrow>
        (case find_fd k 0 fd slots of Some sk \<Rightarrow> (0, Some sk)
         | None \<Rightarrow> (case sock_target k pd fd ps of (n, r) \<Rightarrow> (Suc n, r))))"

fun rcu_scans :: "nat \<Rightarrow> kev list" where
  "rcu_scans 0 = []"
| "rcu_scans (Suc n) = Get RcuRead 0 # Put RcuRead # rcu_scans n"

lemma balanced_rcu_scans [simp]: "balanced (rcu_scans n)"
  by (induction n) (auto simp: balanced_def)

lemma sock_target_emit [simp]: "sock_target (emit t k) pd fd ps = sock_target k pd fd ps"
  by (induction ps) (auto split: option.split prod.split)

definition sock_notfound :: "int \<Rightarrow> int \<Rightarrow> kev" where
  "sock_notfound pd fd = pr_info (''Socket with PID '' @ dec pd @ '', FD '' @ dec fd @ '' not found'' @ [NL])"

definition sock_changed :: "int \<Rightarrow> int \<Rightarrow> int \<Rightarrow> int \<Rightarrow> kev" where
  "sock_changed pd fd rcv sndb =
     pr_info (''Buffer sizes for PID '' @ dec pd @ '', FD '' @ dec fd @ '' changed to RCV: '' @
              dec rcv @ '', SND: '' @ dec sndb @ [NL])"

lemma setsock_loop_eq:
  "setsock_loop pd fd rcv sndb ps k =
     (case sock_target k pd fd ps of
        (n, None) \<Rightarrow> (- ENODEV, emit (rcu_scans n @ [sock_notfound pd fd]) k)
      | (n, Some sk) \<Rightarrow>
          (0, emit (rcu_scans n @ [Get RcuRead 0, sock_changed pd fd rcv sndb]) (with_bufs sk rcv sndb k)))"
proof (induction ps arbitrary: k)
  case Nil
  show ?case by (simp add: sock_notfound_def)
next
  case (Cons p ps)
  then show ?case
    by (auto simp: Let_def with_bufs_def sock_changed_def split: option.split prod.split)
qed

lemma sock_target_unique:
  assumes "distinct ps" "p \<in> set ps" "\<And>q. q \<in> set ps \<Longrightarrow> pid (tasks k q) = pd \<longleftrightarrow> q = p"
    and "fdt (tasks k p) = Some slots" "find_fd k 0 fd slots = Some sk"
  shows "sock_target k pd fd ps = (0, Some sk)"
  using assms
proof (induction ps)
  case (Cons q ps)
  show ?case
  proof (cases "q = p")
    case True
    then show ?thesis using Cons.prems(3) [of q] assms(4,5) by simp
  next
    case False
    then have "sock_target k pd fd ps = (0, Some sk)" using Cons by simp
    then show ?thesis using False Cons.prems(3) [of q] by simp
  qed
qed simp

lemma sock_target_none:
  "(\<And>q. q \<in> set ps \<Longrightarrow> pid (tasks k q) \<noteq> pd) \<Longrightarrow> sock_target k pd fd ps = (0, None)"
  by (induction ps) auto

definition socket_cmd :: "int \<Rightarrow> int \<Rightarrow> int \<Rightarrow> int \<Rightarrow> string \<Rightarrow> string" where
  "socket_cmd pd fd rcv sndb r = dec pd @ SP # dec fd @ SP # dec rcv @ SP # dec sndb @ r"

lemma with_bufs_emit: "with_bufs sk a b (emit t k) = emit t (with_bufs sk a b k)"
  by (simp add: with_bufs_def)

section \<open>Properties\<close>

text \<open>
  \<open>showprocessfd\<close> ends by logging the number of open descriptors of all processes that have
  a file table, changes no object, and takes the RCU read lock in balanced sections.
\<close>

theorem showprocessfd_total:
  "\<exists>t. balanced t \<and> showprocessfd param k =
     emit (t @ [pr_info (''Total file descriptors open: '' @ dec (int (total_fds k (procs k))) @ [NL])]) k"
  using showprocessfd_eq [of param k] by blast

text \<open>
  C28: \<open>setsocketsize pid fd rcv snd\<close>, when exactly one process has that pid and its descriptor
  \<open>fd\<close> is a socket, sets both buffer sizes of that socket and locks them against autotuning, and
  changes no other socket. It then returns out of the loop and never reaches
  \<open>rcu_read_unlock\<close>: the RCU read lock is still held.
\<close>

theorem setsocketsize_effect:
  assumes "is_int32 pd" "is_int32 fd" "is_int32 rcv" "is_int32 sndb" "stops r"
    and "distinct (procs k)" "p \<in> set (procs k)"
    and "\<And>q. q \<in> set (procs k) \<Longrightarrow> pid (tasks k q) = pd \<longleftrightarrow> q = p"
    and "fdt (tasks k p) = Some slots" "0 \<le> fd" "fd < int (length slots)" "slots ! nat fd = Some f"
    and "socket_of k f = Some sk"
  shows "\<exists>t. setsocketsize_in (socket_cmd pd fd rcv sndb r) k =
      (0, emit t (k\<lparr>socks := (socks k)(sk := (socks k sk)
         \<lparr>sk_userlocks := sk_userlocks (socks k sk) OR SOCK_BUF_LOCKS, sk_rcvbuf := rcv, sk_sndbuf := sndb\<rparr>)\<rparr>)) \<and>
    replay [] t = Some [RcuRead]"
proof -
  have "find_fd k 0 fd slots = Some sk"
    using assms(10-13) by (simp add: find_fd_eq)
  then have "sock_target k pd fd (procs k) = (0, Some sk)"
    using assms(6-9) by (intro sock_target_unique [of _ p]) auto
  then show ?thesis
    using sscanf_dddd [OF assms(1-5)]
    by (simp add: setsocketsize_in_def socket_cmd_def setsock_loop_eq with_bufs_emit del: sscanf.simps)
       (simp add: with_bufs_def set_sock_bufs_def sock_changed_def, rule exI, rule conjI, rule refl, simp)
qed

lemma setsocketsize_effect_witness:
  "\<exists>k'. setsocketsize_in (socket_cmd 42 1 8192 16384 [NL]) demo_kern = (0, k') \<and>
     sk_rcvbuf (socks k' 0) = 8192 \<and> sk_sndbuf (socks k' 0) = 16384 \<and> replay [] (trace k') = Some [RcuRead]"
proof -
  have i: "is_int32 42" "is_int32 1" "is_int32 8192" "is_int32 16384" by (simp_all add: is_int32_def)
  have p: "distinct (procs demo_kern)" "2 \<in> set (procs demo_kern)"
    "fdt (tasks demo_kern 2) = Some [None, Some 0]" "[None, Some 0] ! nat 1 = Some (0 :: nat)"
    "(0 :: int) \<le> 1" "1 < int (length [None, Some (0 :: nat)])" "socket_of demo_kern 0 = Some 0"
    by (simp_all add: demo_kern_def demo_task_def socket_of_def is_type_def)
  have u: "pid (tasks demo_kern q) = 42 \<longleftrightarrow> q = 2" if "q \<in> set (procs demo_kern)" for q
    using that by (auto simp: demo_kern_def demo_task_def)
  from setsocketsize_effect [OF i stops_NL p(1,2) u p(3,5,6,4,7)]
  obtain t where t: "setsocketsize_in (socket_cmd 42 1 8192 16384 [NL]) demo_kern =
      (0, emit t (demo_kern\<lparr>socks := (socks demo_kern)(0 := (socks demo_kern 0)
         \<lparr>sk_userlocks := sk_userlocks (socks demo_kern 0) OR SOCK_BUF_LOCKS, sk_rcvbuf := 8192, sk_sndbuf := 16384\<rparr>)\<rparr>))"
    "replay [] t = Some [RcuRead]" by blast
  show ?thesis by (rule exI, rule conjI, rule t(1)) (simp add: t(2), simp add: demo_kern_def t(2))
qed

end
