(* ===== verification/Sys2_Packet.thy ===== *)
theory Sys2_Packet
  imports Prelude
begin

unbundle bit_operations_syntax

text \<open>
  The netfilter hook of \<open>sys2/mypacket.c\<close> and its counters (\<open>unsigned long\<close>: 64-bit words).
  A packet is what the hook reads of an \<open>sk_buff\<close>: the protocol in host order, the bytes from
  \<open>skb->data\<close> on and those from the network header on. \<open>skb_pull\<close> and
  \<open>skb_reset_network_header\<close> are kernel functions, arguments of the model.
\<close>

type_synonym byte = "8 word"

record skb =
  protocol :: "16 word"
  data :: "byte list"
  nh :: "byte list"

record skb_api =
  skb_pull :: "skb \<Rightarrow> nat \<Rightarrow> skb"
  skb_reset_network_header :: "skb \<Rightarrow> skb"

record pkt_stats =
  vlan_stats :: "64 word list"
  ip_packets :: "64 word"
  tcp_packets :: "64 word"
  udp_packets :: "64 word"
  icmp_packets :: "64 word"
  other_packets :: "64 word"

definition pkt_stats_static :: pkt_stats where
  "pkt_stats_static = \<lparr>vlan_stats = replicate 4094 0, ip_packets = 0, tcp_packets = 0,
     udp_packets = 0, icmp_packets = 0, other_packets = 0\<rparr>"

abbreviation ETH_P_8021Q :: "16 word" where "ETH_P_8021Q \<equiv> 0x8100"
abbreviation ETH_P_IP :: "16 word" where "ETH_P_IP \<equiv> 0x0800"
abbreviation ETH_P_IPV6 :: "16 word" where "ETH_P_IPV6 \<equiv> 0x86DD"
abbreviation NF_ACCEPT :: nat where "NF_ACCEPT \<equiv> 1"

definition vlan_id_of :: "byte list \<Rightarrow> nat" where
  \<comment> \<open>\<open>ntohs(vlan_hdr->h_vlan_TCI) & VLAN_VID_MASK\<close>\<close>
  "vlan_id_of bs =
     unat ((push_bit 8 (ucast (bs ! 0)) OR ucast (bs ! 1) :: 16 word) AND 0x0FFF)"

definition count_vlan :: "byte list \<Rightarrow> pkt_stats \<Rightarrow> fault + pkt_stats" where
  "count_vlan bs st =
     (if length bs < 2 then Inl OutOfBounds
      else let vlan_id = vlan_id_of bs in
        if 1 \<le> vlan_id \<and> vlan_id \<le> 4094 then
          if vlan_id - 1 < length (vlan_stats st)
          then Inr (st\<lparr>vlan_stats := (vlan_stats st)[vlan_id - 1 := vlan_stats st ! (vlan_id - 1) + 1]\<rparr>)
          else Inl OutOfBounds
        else Inr st)"

definition count_ip :: "byte list \<Rightarrow> pkt_stats \<Rightarrow> fault + pkt_stats" where
  \<comment> \<open>\<open>ip_header->protocol\<close> is the byte at offset 9\<close>
  "count_ip hdr st =
     (if length hdr < 10 then Inl OutOfBounds
      else let st1 = st\<lparr>ip_packets := ip_packets st + 1\<rparr>; p = hdr ! 9 in
        Inr (if p = 6 then st1\<lparr>tcp_packets := tcp_packets st1 + 1\<rparr>
             else if p = 17 then st1\<lparr>udp_packets := udp_packets st1 + 1\<rparr>
             else if p = 1 then st1\<lparr>icmp_packets := icmp_packets st1 + 1\<rparr>
             else st1\<lparr>other_packets := other_packets st1 + 1\<rparr>))"

definition packet_hook :: "skb_api \<Rightarrow> skb \<Rightarrow> pkt_stats \<Rightarrow> fault + (nat \<times> skb \<times> pkt_stats)" where
  "packet_hook api s0 st0 =
     bindF (if protocol s0 = ETH_P_8021Q
            then bindF (count_vlan (data s0) st0) (\<lambda>st.
                   Inr (skb_reset_network_header api (skb_pull api s0 4), st))
            else Inr (s0, st0)) (\<lambda>(s, st).
     if protocol s = ETH_P_IP \<or> protocol s = ETH_P_IPV6
     then bindF (count_ip (nh s) st) (\<lambda>st'. Inr (NF_ACCEPT, s, st'))
     else Inr (NF_ACCEPT, s, st\<lparr>other_packets := other_packets st + 1\<rparr>))"

fun hook_all :: "skb_api \<Rightarrow> skb list \<Rightarrow> pkt_stats \<Rightarrow> fault + pkt_stats" where
  "hook_all api [] st = Inr st"
| "hook_all api (s # ss) st = bindF (packet_hook api s st) (\<lambda>(_, _, st'). hook_all api ss st')"

section \<open>Lemmas\<close>

lemma vlan_id_less: "vlan_id_of bs < 4096"
proof -
  have "(x :: 16 word) AND 0x0FFF \<le> 0x0FFF" for x
    by (rule word_and_le1)
  then have "unat ((x :: 16 word) AND 0x0FFF) \<le> unat (0x0FFF :: 16 word)" for x
    by (rule word_le_nat_alt [THEN iffD1])
  from this [of "push_bit 8 (ucast (bs ! 0)) OR ucast (bs ! 1)"] show ?thesis
    by (simp add: vlan_id_of_def)
qed

definition stats_ok :: "pkt_stats \<Rightarrow> bool" where
  "stats_ok st \<longleftrightarrow> length (vlan_stats st) = 4094"

lemma stats_ok_static: "stats_ok pkt_stats_static"
  by (simp add: stats_ok_def pkt_stats_static_def)

definition by_protocol :: "pkt_stats \<Rightarrow> 64 word" where
  "by_protocol st = tcp_packets st + udp_packets st + icmp_packets st + other_packets st"

lemma count_vlan_ok:
  assumes "stats_ok st" "2 \<le> length bs"
  shows "count_vlan bs st =
    Inr (if 1 \<le> vlan_id_of bs \<and> vlan_id_of bs \<le> 4094
         then st\<lparr>vlan_stats := (vlan_stats st)[vlan_id_of bs - 1 := vlan_stats st ! (vlan_id_of bs - 1) + 1]\<rparr>
         else st)"
  using assms by (auto simp: count_vlan_def stats_ok_def Let_def)

lemma count_vlan_keeps:
  "count_vlan bs st = Inr st' \<Longrightarrow>
   length (vlan_stats st') = length (vlan_stats st) \<and> ip_packets st' = ip_packets st \<and>
   tcp_packets st' = tcp_packets st \<and> udp_packets st' = udp_packets st \<and>
   icmp_packets st' = icmp_packets st \<and> other_packets st' = other_packets st"
  by (auto simp: count_vlan_def Let_def split: if_splits)

lemma count_ip_keeps:
  "count_ip hdr st = Inr st' \<Longrightarrow>
   vlan_stats st' = vlan_stats st \<and> ip_packets st' = ip_packets st + 1 \<and>
   by_protocol st' = by_protocol st + 1"
  by (auto simp: count_ip_def Let_def by_protocol_def split: if_splits)

lemma packet_hook_counts:
  assumes "packet_hook api s st = Inr (v, s', st')"
  shows "v = NF_ACCEPT \<and> length (vlan_stats st') = length (vlan_stats st) \<and>
    by_protocol st' = by_protocol st + 1 \<and> (ip_packets st' = ip_packets st \<or> ip_packets st' = ip_packets st + 1)"
  using assms
  by (auto simp: packet_hook_def bindF_Inr by_protocol_def dest!: count_vlan_keeps count_ip_keeps
      split: if_splits)

lemma count_ip_Inl: "count_ip hdr st = Inl f \<longleftrightarrow> length hdr < 10 \<and> f = OutOfBounds"
  by (auto simp: count_ip_def Let_def)

lemma count_vlan_Inl:
  "stats_ok st \<Longrightarrow> count_vlan bs st = Inl f \<longleftrightarrow> length bs < 2 \<and> f = OutOfBounds"
  by (auto simp: count_vlan_def stats_ok_def Let_def)

lemma packet_hook_total:
  assumes "stats_ok st" "protocol s = ETH_P_8021Q \<Longrightarrow> 2 \<le> length (data s)"
    "10 \<le> length (nh (skb_reset_network_header api (skb_pull api s 4)))" "10 \<le> length (nh s)"
  shows "\<exists>s' st'. packet_hook api s st = Inr (NF_ACCEPT, s', st') \<and> stats_ok st'"
proof (cases "packet_hook api s st")
  case (Inl f)
  then show ?thesis using assms
    by (auto simp: packet_hook_def bindF_Inl bindF_Inr count_ip_Inl count_vlan_Inl split: if_splits)
next
  case (Inr r)
  obtain v s' st' where r: "r = (v, s', st')" by (cases r)
  with Inr assms(1) packet_hook_counts [of api s st v s' st'] show ?thesis by (auto simp: stats_ok_def)
qed

lemma hook_all_counts:
  "hook_all api ss st = Inr st' \<Longrightarrow>
   by_protocol st' = by_protocol st + of_nat (length ss) \<and>
   length (vlan_stats st') = length (vlan_stats st)"
proof (induction ss arbitrary: st)
  case Nil
  then show ?case by simp
next
  case (Cons s ss)
  then obtain v s1 st1 where h: "packet_hook api s st = Inr (v, s1, st1)" "hook_all api ss st1 = Inr st'"
    by (auto simp: bindF_Inr)
  with Cons.IH [OF h(2)] packet_hook_counts [OF h(1)] show ?case by simp
qed

section \<open>Properties\<close>

text \<open>
  C18: the netfilter hook never reads or writes out of bounds and accepts every packet, on packets that
  have at least 10 bytes at the network header (before and after a VLAN header is pulled) and, when they
  are VLAN packets, 2 bytes of data; in particular no VLAN id is outside the table of 4094 counters.
\<close>

theorem packet_hook_safe:
  assumes "stats_ok st" "protocol s = ETH_P_8021Q \<Longrightarrow> 2 \<le> length (data s)"
    "10 \<le> length (nh (skb_reset_network_header api (skb_pull api s 4)))" "10 \<le> length (nh s)"
  shows "\<exists>s' st'. packet_hook api s st = Inr (NF_ACCEPT, s', st') \<and> stats_ok st'"
  by (rule packet_hook_total [OF assms])

text \<open>
  The two kernel functions as the hook relies on them: they move pointers into the packet, so the
  protocol field stays what it was.
\<close>

definition skb_api_ok :: "skb_api \<Rightarrow> bool" where
  "skb_api_ok api \<longleftrightarrow>
     (\<forall>s n. protocol (skb_pull api s n) = protocol s) \<and>
     (\<forall>s. protocol (skb_reset_network_header api s) = protocol s)"

definition demo_skb_api :: skb_api where
  "demo_skb_api = \<lparr>skb_pull = (\<lambda>s n. s\<lparr>data := drop n (data s)\<rparr>),
     skb_reset_network_header = (\<lambda>s. s\<lparr>nh := data s\<rparr>)\<rparr>"

definition demo_vlan_skb :: skb where
  \<comment> \<open>VLAN id 5, then an IPv4 header of a TCP packet\<close>
  "demo_vlan_skb = \<lparr>protocol = ETH_P_8021Q, data = [0, 5, 8, 0] @ (replicate 20 0)[9 := 6], nh = replicate 24 0\<rparr>"

lemma demo_skb_api_ok: "skb_api_ok demo_skb_api"
  by (simp add: skb_api_ok_def demo_skb_api_def)

lemma packet_hook_safe_witness:
  "\<exists>s' st'. packet_hook demo_skb_api demo_vlan_skb pkt_stats_static = Inr (NF_ACCEPT, s', st') \<and> stats_ok st'"
  by (rule packet_hook_safe) (simp_all add: stats_ok_static demo_vlan_skb_def demo_skb_api_def)

text \<open>
  Every packet is counted exactly once by protocol. After any run of packets through the hook
  the sum of the TCP, UDP, ICMP and other counters has grown by the number of packets (modulo
  2^64).
\<close>

theorem packets_counted_once:
  assumes "hook_all api ss st = Inr st'"
  shows "tcp_packets st' + udp_packets st' + icmp_packets st' + other_packets st' =
    tcp_packets st + udp_packets st + icmp_packets st + other_packets st + of_nat (length ss)"
  using hook_all_counts [OF assms] by (simp add: by_protocol_def)

lemma packets_counted_once_witness:
  "\<exists>st'. hook_all demo_skb_api [demo_vlan_skb, demo_vlan_skb] pkt_stats_static = Inr st' \<and>
     tcp_packets st' + udp_packets st' + icmp_packets st' + other_packets st' = 2"
proof -
  have p: "2 \<le> length (data demo_vlan_skb)" "10 \<le> length (nh demo_vlan_skb)"
    "10 \<le> length (nh (skb_reset_network_header demo_skb_api (skb_pull demo_skb_api demo_vlan_skb 4)))"
    by (simp_all add: demo_vlan_skb_def demo_skb_api_def)
  obtain s1 st1 where 1: "packet_hook demo_skb_api demo_vlan_skb pkt_stats_static = Inr (NF_ACCEPT, s1, st1)"
    "stats_ok st1" using packet_hook_total [OF stats_ok_static p(1,3,2)] by blast
  obtain s2 st2 where 2: "packet_hook demo_skb_api demo_vlan_skb st1 = Inr (NF_ACCEPT, s2, st2)"
    using packet_hook_total [OF 1(2) p(1,3,2)] by blast
  have "hook_all demo_skb_api [demo_vlan_skb, demo_vlan_skb] pkt_stats_static = Inr st2"
    using 1 2 by simp
  with packets_counted_once [OF this] show ?thesis by (simp add: pkt_stats_static_def)
qed

text \<open>
  A VLAN packet increments the counter of its VLAN id, when that lies between 1 and 4094, and
  is then counted as "other" whatever it carries: the protocol field of the \<open>sk_buff\<close> is not
  updated, so an IP packet inside a VLAN frame never reaches the IP counters.
\<close>

theorem vlan_packet_effect:
  assumes "skb_api_ok api" "stats_ok st" "protocol s = ETH_P_8021Q" "2 \<le> length (data s)"
    and "i = vlan_id_of (data s)"
  shows "packet_hook api s st = Inr (NF_ACCEPT, skb_reset_network_header api (skb_pull api s 4),
    st\<lparr>vlan_stats := (if 1 \<le> i \<and> i \<le> 4094 then (vlan_stats st)[i - 1 := vlan_stats st ! (i - 1) + 1] else vlan_stats st),
       other_packets := other_packets st + 1\<rparr>)"
  using assms count_vlan_ok [OF assms(2,4)] by (auto simp: packet_hook_def skb_api_ok_def)

lemma vlan_packet_effect_witness:
  "\<exists>st'. packet_hook demo_skb_api demo_vlan_skb pkt_stats_static =
       Inr (NF_ACCEPT, skb_reset_network_header demo_skb_api (skb_pull demo_skb_api demo_vlan_skb 4), st') \<and>
     vlan_stats st' ! 4 = 1 \<and> ip_packets st' = 0 \<and> tcp_packets st' = 0 \<and> other_packets st' = 1"
proof -
  have "vlan_id_of (data demo_vlan_skb) = 5" by (simp add: vlan_id_of_def demo_vlan_skb_def)
  then show ?thesis
    using vlan_packet_effect [OF demo_skb_api_ok stats_ok_static, of demo_vlan_skb 5]
    by (simp add: demo_vlan_skb_def pkt_stats_static_def)
qed

section \<open>The counters against a count of the packets\<close>

text \<open>What a packet is for the hook, read off the packet alone.\<close>

definition is_ip :: "skb \<Rightarrow> bool" where
  "is_ip s \<longleftrightarrow> protocol s = ETH_P_IP \<or> protocol s = ETH_P_IPV6"

definition carries :: "byte \<Rightarrow> skb \<Rightarrow> bool" where
  "carries p s \<longleftrightarrow> is_ip s \<and> nh s ! 9 = p"

definition other_kind :: "skb \<Rightarrow> bool" where
  "other_kind s \<longleftrightarrow> \<not> carries 6 s \<and> \<not> carries 17 s \<and> \<not> carries 1 s"

definition in_vlan :: "nat \<Rightarrow> skb \<Rightarrow> bool" where
  "in_vlan i s \<longleftrightarrow> protocol s = ETH_P_8021Q \<and> vlan_id_of (data s) = i"

definition bump_if :: "bool \<Rightarrow> 64 word" where "bump_if b = (if b then 1 else 0)"

lemma packet_hook_exact:
  assumes "skb_api_ok api" "stats_ok st" "packet_hook api s st = Inr (v, s', st')"
  shows "ip_packets st' = ip_packets st + bump_if (is_ip s)" "tcp_packets st' = tcp_packets st + bump_if (carries 6 s)"
    "udp_packets st' = udp_packets st + bump_if (carries 17 s)" "icmp_packets st' = icmp_packets st + bump_if (carries 1 s)"
    "other_packets st' = other_packets st + bump_if (other_kind s)" "stats_ok st'"
    "\<And>i. i < 4094 \<Longrightarrow> vlan_stats st' ! i = vlan_stats st ! i + bump_if (in_vlan (Suc i) s)"
proof -
  have vlan: "protocol s = ETH_P_8021Q \<Longrightarrow> \<not> is_ip s" by (simp add: is_ip_def)
  show "ip_packets st' = ip_packets st + bump_if (is_ip s)" "tcp_packets st' = tcp_packets st + bump_if (carries 6 s)"
    "udp_packets st' = udp_packets st + bump_if (carries 17 s)" "icmp_packets st' = icmp_packets st + bump_if (carries 1 s)"
    "other_packets st' = other_packets st + bump_if (other_kind s)"
    using assms
    by (auto simp: packet_hook_def bindF_Inr skb_api_ok_def is_ip_def carries_def other_kind_def bump_if_def count_ip_def Let_def
        dest!: count_vlan_keeps split: if_splits)
  show "stats_ok st'" using packet_hook_counts [OF assms(3)] assms(2) by (simp add: stats_ok_def)
  fix i :: nat assume i: "i < 4094"
  show "vlan_stats st' ! i = vlan_stats st ! i + bump_if (in_vlan (Suc i) s)"
  proof (cases "protocol s = ETH_P_8021Q")
    case True
    then have "\<not> length (data s) < 2" using assms(3) by (auto simp: packet_hook_def bindF_Inr count_vlan_def)
    with vlan_packet_effect [OF assms(1,2) True _ refl] assms(3) i True show ?thesis
      using assms(2) by (auto simp: in_vlan_def bump_if_def nth_list_update stats_ok_def)
  next
    case False
    then have "vlan_stats st' = vlan_stats st"
      using assms(3) by (auto simp: packet_hook_def bindF_Inr dest!: count_ip_keeps split: if_splits)
    with False show ?thesis by (simp add: in_vlan_def bump_if_def)
  qed
qed

definition many :: "(skb \<Rightarrow> bool) \<Rightarrow> skb list \<Rightarrow> 64 word" where
  "many P ss = of_nat (length (filter P ss))"

lemma many_Cons: "many P (s # ss) = bump_if (P s) + many P ss"
  by (simp add: many_def bump_if_def)

lemma hook_all_exact:
  assumes "skb_api_ok api"
  shows "stats_ok st \<Longrightarrow> hook_all api ss st = Inr st' \<Longrightarrow>
    ip_packets st' = ip_packets st + many is_ip ss \<and> tcp_packets st' = tcp_packets st + many (carries 6) ss \<and>
    udp_packets st' = udp_packets st + many (carries 17) ss \<and> icmp_packets st' = icmp_packets st + many (carries 1) ss \<and>
    other_packets st' = other_packets st + many other_kind ss \<and>
    (\<forall>i < 4094. vlan_stats st' ! i = vlan_stats st ! i + many (in_vlan (Suc i)) ss)"
proof (induction ss arbitrary: st)
  case Nil
  then show ?case by (simp add: many_def)
next
  case (Cons s ss)
  then obtain v s1 st1 where h: "packet_hook api s st = Inr (v, s1, st1)" "hook_all api ss st1 = Inr st'"
    by (auto simp: bindF_Inr)
  note ex = packet_hook_exact [OF assms Cons.prems(1) h(1)]
  from Cons.IH [OF ex(6) h(2)] ex(1-5,7) show ?case by (simp add: many_Cons add.assoc)
qed

text \<open>
  C15: the counters are exact. After any packets through the hook each counter has grown by the number of
  packets it is about (modulo 2^64): the IP packets, those of them with TCP, UDP or ICMP in the byte
  at offset 9, all that are none of these, and, for each VLAN id from 1 to 4094, the frames of that VLAN.
\<close>

theorem counters_exact:
  assumes "skb_api_ok api" "stats_ok st" "hook_all api ss st = Inr st'"
  shows "ip_packets st' = ip_packets st + of_nat (length (filter is_ip ss)) \<and>
    tcp_packets st' = tcp_packets st + of_nat (length (filter (carries 6) ss)) \<and>
    udp_packets st' = udp_packets st + of_nat (length (filter (carries 17) ss)) \<and>
    icmp_packets st' = icmp_packets st + of_nat (length (filter (carries 1) ss)) \<and>
    other_packets st' = other_packets st + of_nat (length (filter other_kind ss)) \<and>
    (\<forall>i < 4094. vlan_stats st' ! i = vlan_stats st ! i + of_nat (length (filter (in_vlan (Suc i)) ss)))"
  using hook_all_exact [OF assms] by (simp add: many_def)

definition demo_tcp_skb :: skb where
  "demo_tcp_skb = \<lparr>protocol = ETH_P_IP, data = replicate 20 0, nh = (replicate 20 0)[9 := 6]\<rparr>"

lemma counters_exact_witness:
  "\<exists>st'. hook_all demo_skb_api [demo_vlan_skb, demo_tcp_skb] pkt_stats_static = Inr st' \<and>
     ip_packets st' = 1 \<and> tcp_packets st' = 1 \<and> other_packets st' = 1 \<and> vlan_stats st' ! 4 = 1"
proof -
  have v: "vlan_id_of (data demo_vlan_skb) = 5" by (simp add: vlan_id_of_def demo_vlan_skb_def)
  have "\<exists>st'. hook_all demo_skb_api [demo_vlan_skb, demo_tcp_skb] pkt_stats_static = Inr st'"
    using count_vlan_ok [OF stats_ok_static, of "data demo_vlan_skb"]
    by (simp add: packet_hook_def demo_vlan_skb_def demo_tcp_skb_def demo_skb_api_def count_ip_def Let_def)
  then obtain st' where st': "hook_all demo_skb_api [demo_vlan_skb, demo_tcp_skb] pkt_stats_static = Inr st'" by blast
  have k: "is_ip demo_tcp_skb" "\<not> is_ip demo_vlan_skb" "carries 6 demo_tcp_skb" "in_vlan 5 demo_vlan_skb" "\<not> in_vlan 5 demo_tcp_skb"
    using v by (simp_all add: is_ip_def carries_def in_vlan_def demo_vlan_skb_def demo_tcp_skb_def)
  then have "\<not> carries 6 demo_vlan_skb" "other_kind demo_vlan_skb" "\<not> other_kind demo_tcp_skb" by (auto simp: other_kind_def carries_def)
  moreover from counters_exact [OF demo_skb_api_ok stats_ok_static st']
  have "vlan_stats st' ! 4 = vlan_stats pkt_stats_static ! 4 + of_nat (length (filter (in_vlan (Suc 4)) [demo_vlan_skb, demo_tcp_skb]))"
    "ip_packets st' = ip_packets pkt_stats_static + of_nat (length (filter is_ip [demo_vlan_skb, demo_tcp_skb]))"
    "tcp_packets st' = tcp_packets pkt_stats_static + of_nat (length (filter (carries 6) [demo_vlan_skb, demo_tcp_skb]))"
    "other_packets st' = other_packets pkt_stats_static + of_nat (length (filter other_kind [demo_vlan_skb, demo_tcp_skb]))"
    by simp_all
  ultimately show ?thesis using st' k by (auto simp: pkt_stats_static_def)
qed

text \<open>
  The hook is registered for \<open>NFPROTO_IPV4\<close> and sees IPv4 packets only: then no VLAN counter ever moves.
\<close>

lemma ipv4_only:
  assumes "skb_api_ok api" "stats_ok st" "hook_all api ss st = Inr st'" "\<forall>s \<in> set ss. protocol s = ETH_P_IP" "i < 4094"
  shows "vlan_stats st' ! i = vlan_stats st ! i \<and> ip_packets st' = ip_packets st + of_nat (length ss)"
proof -
  have "filter (in_vlan (Suc i)) ss = []" "filter is_ip ss = ss"
    using assms(4) by (auto simp: in_vlan_def is_ip_def filter_empty_conv filter_id_conv)
  with hook_all_exact [OF assms(1-3)] assms(5) show ?thesis by (simp add: many_def)
qed

end
