(* ===== verification/Text_Attr.thy ===== *)
theory Text_Attr
  imports Prelude
begin

text \<open>
  The interface of a text attribute: a 256-byte buffer that a store handler fills from user
  input and a show handler prints with a newline after it. \<open>accepts\<close> says which inputs are stored,
  \<open>content\<close> what is stored of them. The three modules with such an attribute
  (\<open>sys\<close>, \<open>sys2\<close>, \<open>procsys\<close>) interpret the locale \<open>text_attr\<close>.
\<close>

fun run_stores :: "('w \<Rightarrow> 's \<Rightarrow> fault + (int \<times> 's)) \<Rightarrow> 'w list \<Rightarrow> 's \<Rightarrow> fault + 's" where
  "run_stores store [] s = Inr s"
| "run_stores store (w # ws) s = bindF (store w s) (\<lambda>(_, s'). run_stores store ws s')"

lemma run_stores_snoc:
  "run_stores store (ws @ [w]) s = bindF (run_stores store ws s) (\<lambda>s'. bindF (store w s') (\<lambda>(_, s''). Inr s''))"
proof (induction ws arbitrary: s)
  case Nil
  show ?case by (cases "store w s") auto
next
  case (Cons v ws)
  then show ?case by (cases "store v s") auto
qed

locale text_attr =
  fixes store :: "'w \<Rightarrow> 's \<Rightarrow> fault + (int \<times> 's)"
    and shown :: "'s \<Rightarrow> string"
    and buf :: "'s \<Rightarrow> char list"
    and accepts :: "'w \<Rightarrow> bool"
    and content :: "'w \<Rightarrow> string"
    and lead :: string
  assumes store_ok: "buf_ok 256 (buf s) \<Longrightarrow> store w s = Inr (r, s') \<Longrightarrow> buf_ok 256 (buf s')"
    and store_content: "buf_ok 256 (buf s) \<Longrightarrow> accepts w \<Longrightarrow> store w s = Inr (r, s') \<Longrightarrow>
      cstr (buf s') = content w"
    and shown_buf: "shown s = lead @ cstr (buf s) @ [NL]"
begin

lemma run_ok: "buf_ok 256 (buf s) \<Longrightarrow> run_stores store ws s = Inr s' \<Longrightarrow> buf_ok 256 (buf s')"
  by (induction ws arbitrary: s) (auto simp: bindF_Inr dest: store_ok)

lemma shown_length:
  assumes "buf_ok 256 (buf s)" "run_stores store ws s = Inr s'"
  shows "length (shown s') \<le> length lead + 256"
  using buf_ok_strlen [OF run_ok [OF assms]] by (simp add: shown_buf)

lemma shown_last:
  assumes "buf_ok 256 (buf s)" "run_stores store (ws @ [w]) s = Inr s'" "accepts w"
  shows "shown s' = lead @ content w @ [NL]"
proof -
  from assms(2) obtain s1 r where "run_stores store ws s = Inr s1" "store w s1 = Inr (r, s')"
    by (auto simp: run_stores_snoc bindF_Inr)
  then have "cstr (buf s') = content w"
    using run_ok [OF assms(1)] assms(3) by (intro store_content [of s1])
  then show ?thesis by (simp add: shown_buf)
qed

end

end
