(* ===== verification/Driver_Lifecycle.thy ===== *)
theory Driver_Lifecycle
  imports Kernel_Events
begin

text \<open>
  What \<open>module_init\<close> and \<open>module_exit\<close> register: an init function, which returns 0 or a
  negative errno, and an exit function, which runs on the state init left. \<open>lifecycles\<close> is the
  module loader: each entry of the list is one insmod, followed by one rmmod when it succeeded.
  The locale \<open>driver\<close> is the contract the loader relies on, with the outcomes of the kernel's
  calls in \<open>'env\<close> and a well-formedness condition on them; each driver interprets it.
\<close>

fun lifecycles :: "('env \<Rightarrow> int \<times> 'st \<times> kev list) \<Rightarrow> ('st \<Rightarrow> kev list) \<Rightarrow> 'env list \<Rightarrow> kev list" where
  "lifecycles ini ext [] = []"
| "lifecycles ini ext (e # es) =
     (case ini e of (ret, s, t) \<Rightarrow>
        t @ (if ret = 0 then ext s else []) @ lifecycles ini ext es)"

locale driver =
  fixes ini :: "'env \<Rightarrow> int \<times> 'st \<times> kev list"
    and ext :: "'st \<Rightarrow> kev list"
    and env_ok :: "'env \<Rightarrow> bool"
  assumes ini_ret: "env_ok e \<Longrightarrow> ini e = (ret, s, t) \<Longrightarrow> ret \<le> 0"
    and ini_fail: "env_ok e \<Longrightarrow> ini e = (ret, s, t) \<Longrightarrow> ret < 0 \<Longrightarrow> balanced t"
    and ini_exit: "env_ok e \<Longrightarrow> ini e = (0, s, t) \<Longrightarrow> replay [] (t @ ext s) = Some []"
begin

lemma one_cycle:
  assumes "env_ok e"
  shows "replay [] (lifecycles ini ext [e]) = Some []"
proof -
  obtain ret s t where i: "ini e = (ret, s, t)" by (cases "ini e") auto
  show ?thesis
  proof (cases "ret = 0")
    case True
    with i ini_exit [OF assms] show ?thesis by simp
  next
    case False
    with i assms have "ret < 0" using ini_ret by fastforce
    with i False ini_fail [OF assms i] show ?thesis by (simp add: balanced_replay)
  qed
qed

lemma no_leak:
  assumes "\<And>e. e \<in> set es \<Longrightarrow> env_ok e"
  shows "replay [] (lifecycles ini ext es) = Some []"
  using assms
proof (induction es)
  case Nil
  then show ?case by simp
next
  case (Cons e es)
  have "lifecycles ini ext (e # es) = lifecycles ini ext [e] @ lifecycles ini ext es"
    by (simp split: prod.split)
  with Cons one_cycle [of e] show ?case by (simp add: replay_append del: lifecycles.simps)
qed

end

end
