(* ===== verification/Sys2.thy ===== *)
theory Sys2
  imports Sys2_Task Sys2_Netdev Sys2_Parse Sys2_Process Sys2_Packet Text_Attr Driver_Lifecycle
begin

text \<open>
  \<open>sys2/sys2.c\<close>: the attribute \<open>/sys/kernel/mymodule/my_data\<close>. A store copies the text into
  \<open>my_data\<close>, looks the command up in \<open>command_handlers\<close> by prefix and runs its handler on the
  text after the command word and one separator. Then the module's init and exit.
\<close>

section \<open>The commands\<close>

datatype command =
    C_showtasklist | C_print_task_info | C_parse_command | C_set_user_nice_by_uid
  | C_set_all_task_nice | C_showkernelsymbol | C_showallthread | C_set_thread_priority
  | C_showinterface | C_setmtu | C_clearinterface | C_showprocessfd | C_setsocketsize

definition command_handlers :: "(string \<times> command) list" where
  "command_handlers =
     [(''showtask'', C_showtasklist),
      (''showalltask'', C_print_task_info),
      (''parse'', C_parse_command),
      (''setniceuser'', C_set_user_nice_by_uid),
      (''setnice'', C_set_all_task_nice),
      (''showkernelsymbol'', C_showkernelsymbol),
      (''showallthread'', C_showallthread),
      (''setthreadpriority'', C_set_thread_priority),
      (''showinterface'', C_showinterface),
      (''setmtu'', C_setmtu),
      (''clearinterface'', C_clearinterface),
      (''showprocessfd'', C_showprocessfd),
      (''setsocketsize'', C_setsocketsize)]"

fun run_command :: "kapi \<Rightarrow> command \<Rightarrow> string \<Rightarrow> kern \<Rightarrow> fault + kern" where
  "run_command api C_showtasklist p k = Inr (showtasklist p k)"
| "run_command api C_print_task_info p k = Inr (print_task_info p k)"
| "run_command api C_parse_command p k = Inr (parse_command api p k)"
| "run_command api C_set_user_nice_by_uid p k = Inr (set_user_nice_by_uid api p k)"
| "run_command api C_set_all_task_nice p k = Inr (set_all_task_nice api p k)"
| "run_command api C_showkernelsymbol p k = Inr (showkernelsymbol p k)"
| "run_command api C_showallthread p k = Inr (showallthread api p k)"
| "run_command api C_set_thread_priority p k = Inr (set_thread_priority api p k)"
| "run_command api C_showinterface p k = Inr (showinterface api p k)"
| "run_command api C_setmtu p k = setmtu api p k"
| "run_command api C_clearinterface p k = clearinterface api p k"
| "run_command api C_showprocessfd p k = Inr (showprocessfd p k)"
| "run_command api C_setsocketsize p k = Inr (setsocketsize p k)"

section \<open>The attribute\<close>

record sys2 =
  my_data :: "char list"
  kern :: kern

definition my_data_static :: "char list" where
  "my_data_static = replicate 256 NUL"

definition my_data_show :: "sys2 \<Rightarrow> string" where
  "my_data_show s = cstr (my_data s) @ [NL]"

fun find_handler :: "char list \<Rightarrow> (string \<times> command) list \<Rightarrow> (string \<times> command) option" where
  \<comment> \<open>the loop over the table, up to its NULL entry\<close>
  "find_handler d [] = None"
| "find_handler d ((cmd, h) # hs) =
     (if strncmp_eq d cmd (length cmd) then Some (cmd, h) else find_handler d hs)"

definition my_data_store :: "kapi \<Rightarrow> char list \<times> nat \<Rightarrow> sys2 \<Rightarrow> fault + (int \<times> sys2)" where
  \<comment> \<open>the text written and \<open>count\<close>\<close>
  "my_data_store api w s =
     (case w of (buf, count) \<Rightarrow>
      let d = snprintf_s (my_data s) 256 buf;
          k1 = emit [pr_info (''Received data: '' @ cstr d @ [NL])] (kern s) in
      (case find_handler d command_handlers of
         Some (cmd, h) \<Rightarrow>
           let param = cstr (drop (length cmd + 1) d) in
           bindF (run_command api h param k1) (\<lambda>k2.
             Inr (int count, s\<lparr>my_data := d, kern := k2\<rparr>))
       | None \<Rightarrow>
           Inr (int count, s\<lparr>my_data := d,
             kern := emit [pr_err (''Unknown command: '' @ cstr d @ [NL])] k1\<rparr>)))"

section \<open>Init and exit\<close>

record sys2_env =
  kobject_create_ok :: bool
  sysfs_create_file_ret :: int
  nf_register_net_hook_ret :: int

record sys2_mod =
  nf_ops_hook :: bool  \<comment> \<open>whether \<open>nf_ops.hook\<close> is set\<close>

definition register_net_hooks :: "sys2_env \<Rightarrow> int \<times> kev list" where
  "register_net_hooks e = (0, [Get NetHook (nf_register_net_hook_ret e)])"

definition unregister_net_hooks :: "sys2_mod \<Rightarrow> sys2_mod \<times> kev list" where
  "unregister_net_hooks m = (m\<lparr>nf_ops_hook := False\<rparr>, [Put NetHook])"

definition mymodule_init :: "sys2_env \<Rightarrow> int \<times> sys2_mod \<times> kev list" where
  "mymodule_init e =
     (let m = \<lparr>nf_ops_hook = True\<rparr> in
      if \<not> kobject_create_ok e then
        (- ENOMEM, m, [Get Kobject (- ENOMEM), pr_err (''Failed to create kobject'' @ [NL])])
      else
      let ret = sysfs_create_file_ret e; t1 = [Get Kobject 0, Get SysfsFile ret] in
      if ret \<noteq> 0 then
        (ret, m, t1 @ [Put Kobject, pr_err (''Failed to create sysfs file'' @ [NL])])
      else
      case register_net_hooks e of (ret, t2) \<Rightarrow>
      if ret \<noteq> 0 then
        (ret, m, t1 @ t2 @ [Put SysfsFile, Put Kobject, pr_err (''Failed to register net hooks'' @ [NL])])
      else
        (0, m, t1 @ t2 @ [pr_info (''My module loaded.'' @ [NL])]))"

definition mymodule_exit :: "sys2_mod \<Rightarrow> sys2_mod \<times> kev list" where
  "mymodule_exit m =
     (case unregister_net_hooks m of (m', t) \<Rightarrow>
        (m', t @ [Put SysfsFile, Put Kobject, pr_info (''My module unloaded.'' @ [NL])]))"

section \<open>Lemmas: looking a command up\<close>

lemma find_handler_cong: "cstr d = cstr d' \<Longrightarrow> find_handler d hs = find_handler d' hs"
  by (induction hs) (auto simp: strncmp_eq_def)

lemma find_handler_prefix:
  "\<forall>x \<in> set hs. NUL \<notin> set (fst x) \<Longrightarrow>
   find_handler d hs = find (\<lambda>x. prefix (fst x) (cstr d)) hs"
  by (induction hs) (auto simp: strncmp_eq_prefix)

lemma command_names: "(c, h) \<in> set command_handlers \<Longrightarrow> NUL \<notin> set c \<and> length c \<le> 17 \<and> c \<noteq> []"
  by (auto simp: command_handlers_def)

text \<open>The order of the table: no earlier name is a prefix of a later one.\<close>

lemma command_order:
  "\<forall>x \<in> set command_handlers. find (\<lambda>y. prefix (fst y) (fst x)) command_handlers = Some x"
  by (simp add: command_handlers_def)

lemma command_no_blank: "\<forall>x \<in> set command_handlers. SP \<notin> set (fst x) \<and> NL \<notin> set (fst x) \<and> NUL \<notin> set (fst x)"
  by (simp add: command_handlers_def)

lemma prefix_word:
  assumes "SP \<notin> set c'" "NL \<notin> set c'" "rest = [] \<or> hd rest \<in> {SP, NL}"
  shows "prefix c' (c @ rest) \<longleftrightarrow> prefix c' c"
proof
  assume "prefix c' (c @ rest)"
  then have "prefix c' c \<or> (\<exists>zs. c' = c @ zs \<and> prefix zs rest)"
    by (simp add: prefix_append)
  then show "prefix c' c"
  proof (elim disjE exE conjE)
    fix zs assume z: "c' = c @ zs" "prefix zs rest"
    show ?thesis
    proof (cases zs)
      case (Cons z zs')
      with z have "z \<in> set c'" "hd rest = z" "rest \<noteq> []" by (auto simp: prefix_def)
      with assms show ?thesis by auto
    qed (use z in simp)
  qed
qed simp

lemma find_command:
  assumes "(c, h) \<in> set command_handlers" "cstr d = c @ rest" "rest = [] \<or> hd rest \<in> {SP, NL}"
  shows "find_handler d command_handlers = Some (c, h)"
proof -
  have "find_handler d command_handlers = find (\<lambda>x. prefix (fst x) (c @ rest)) command_handlers"
    using find_handler_prefix [of command_handlers d] command_no_blank assms(2) by simp
  also have "\<dots> = find (\<lambda>x. prefix (fst x) c) command_handlers"
    using command_no_blank by (intro find_cong refl prefix_word assms(3)) blast+
  also have "\<dots> = Some (c, h)"
    using command_order assms(1) by fastforce
  finally show ?thesis .
qed

section \<open>Lemmas: a store\<close>

lemma my_data_store_prefix:
  assumes "find_handler (take 255 (cstr buf)) command_handlers = Some (c, h)" "take 255 (cstr buf) = c @ x # arg"
  shows "my_data_store api (buf, n) s =
    bindF (run_command api h arg (emit [pr_info (''Received data: '' @ take 255 (cstr buf) @ [NL])] (kern s)))
      (\<lambda>k2. Inr (int n, s\<lparr>my_data := snprintf_s (my_data s) 256 buf, kern := k2\<rparr>))"
proof -
  let ?d = "snprintf_s (my_data s) 256 buf"
  have nul: "NUL \<notin> set (take 255 (cstr buf))" by (meson cstr_no_NUL in_set_takeD)
  have d: "cstr ?d = take 255 (cstr buf)" by (simp add: cstr_snprintf_s)
  then have "find_handler ?d command_handlers = Some (c, h)"
    using assms(1) find_handler_cong [of ?d "take 255 (cstr buf)"] cstr_id [OF nul] by simp
  moreover have "cstr (drop (length c + 1) ?d) = arg"
    using assms(2) nul by (simp add: snprintf_s_def Let_def cstr_append_NUL cstr_id)
  ultimately show ?thesis by (simp add: my_data_store_def Let_def d)
qed

lemma my_data_store_found:
  assumes "find_handler buf command_handlers = Some (cmd, h)" "strlen buf < 256"
  shows "my_data_store api (buf, n) s =
    bindF (run_command api h (cstr (drop (length cmd + 1) (snprintf_s (my_data s) 256 buf)))
             (emit [pr_info (''Received data: '' @ cstr buf @ [NL])] (kern s)))
      (\<lambda>k2. Inr (int n, s\<lparr>my_data := snprintf_s (my_data s) 256 buf, kern := k2\<rparr>))"
proof -
  have "find_handler (snprintf_s (my_data s) 256 buf) command_handlers = Some (cmd, h)"
    using assms find_handler_cong [of "snprintf_s (my_data s) 256 buf" buf]
    by (simp add: strlen_def cstr_snprintf_s)
  then show ?thesis using assms(2)
    by (simp add: my_data_store_def Let_def strlen_def cstr_snprintf_s)
qed

lemma stored_param:
  assumes "cstr buf = c @ x # arg" "strlen buf < 256"
  shows "cstr (drop (length c + 1) (snprintf_s d 256 buf)) = arg"
proof -
  have "NUL \<notin> set arg" using cstr_no_NUL [of buf] assms(1) by auto
  moreover have "snprintf_s d 256 buf = c @ x # arg @ NUL # drop (Suc (length (c @ x # arg))) d"
    using assms by (simp add: snprintf_s_def Let_def strlen_def)
  ultimately show ?thesis by (simp add: cstr_id)
qed

lemma stale_param:
  assumes "cstr buf = c" "length c < 255"
  shows "cstr (drop (length c + 1) (snprintf_s d 256 buf)) = cstr (drop (length c + 1) d)"
  using assms snprintf_s_after [of buf 256 d] by simp

interpretation sys2_attr: text_attr "my_data_store api" my_data_show my_data "\<lambda>_. True"
    "\<lambda>(buf, count). take 255 (cstr buf)" "[]" for api
proof
  fix s w r s'
  assume *: "my_data_store api w s = Inr (r, s')"
  then have d: "my_data s' = snprintf_s (my_data s) 256 (fst w)"
    by (auto simp: my_data_store_def Let_def bindF_Inr split: prod.splits option.splits)
  show "buf_ok 256 (my_data s) \<Longrightarrow> buf_ok 256 (my_data s')"
    by (simp add: d buf_ok_snprintf)
  show "cstr (my_data s') = (case w of (buf, count) \<Rightarrow> take 255 (cstr buf))"
    by (simp add: d cstr_snprintf_s split: prod.split)
qed (simp add: my_data_show_def)

section \<open>Lemmas: references\<close>

definition leaky :: "command \<Rightarrow> bool" where
  "leaky c \<longleftrightarrow> c = C_parse_command \<or> c = C_setsocketsize"

interpretation h_command: handler "\<lambda>(c, p). run_command api c p" "\<lambda>(c, p). \<not> leaky c" for api
proof
  fix x k k'
  assume *: "case x of (c, p) \<Rightarrow> \<not> leaky c" "(case x of (c, p) \<Rightarrow> run_command api c p) k = Inr k'"
  obtain c p where x: "x = (c, p)" by (cases x)
  from * show "keeps_refs k k'"
    using h_showtasklist.run_keeps h_print_task_info.run_keeps h_setniceuser.run_keeps
      h_setnice.run_keeps h_showkernelsymbol.run_keeps h_showallthread.run_keeps
      h_setthreadpriority.run_keeps h_showinterface.run_keeps h_setmtu.run_keeps
      h_clearinterface.run_keeps h_showprocessfd.run_keeps
    by (cases c) (auto simp: x leaky_def)
qed

lemma my_data_store_keeps:
  assumes "my_data_store api w s = Inr (r, s')"
    "\<And>c h. find_handler (take 255 (cstr (fst w))) command_handlers = Some (c, h) \<Longrightarrow> \<not> leaky h"
  shows "keeps_refs (kern s) (kern s')"
proof -
  obtain buf n where w: "w = (buf, n)" by (cases w)
  let ?d = "snprintf_s (my_data s) 256 buf"
  let ?k = "emit [pr_info (''Received data: '' @ cstr ?d @ [NL])] (kern s)"
  have f: "find_handler ?d command_handlers = find_handler (take 255 (cstr buf)) command_handlers"
    by (rule find_handler_cong) (simp add: cstr_snprintf_s)
  have k: "keeps_refs (kern s) ?k" by simp
  show ?thesis
  proof (cases "find_handler ?d command_handlers")
    case None
    with assms(1) w show ?thesis by (auto simp: my_data_store_def Let_def)
  next
    case (Some ch)
    obtain c h where ch: "ch = (c, h)" by (cases ch)
    with Some assms(1) w have "run_command api h (cstr (drop (length c + 1) ?d)) ?k = Inr (kern s')"
      by (auto simp: my_data_store_def Let_def bindF_Inr)
    then have "keeps_refs ?k (kern s')"
      using h_command.run_keeps [of "(h, cstr (drop (length c + 1) ?d))" api ?k "kern s'"]
        assms(2) Some ch f w by auto
    with k show ?thesis by (rule keeps_refs_trans)
  qed
qed

section \<open>Lemmas: init and exit\<close>

definition sys2_env_ok :: "sys2_env \<Rightarrow> bool" where
  "sys2_env_ok e \<longleftrightarrow> sysfs_create_file_ret e \<le> 0 \<and> nf_register_net_hook_ret e = 0"

interpretation sys2_drv: driver mymodule_init "\<lambda>m. snd (mymodule_exit m)" sys2_env_ok
  by unfold_locales
     (auto simp: mymodule_init_def mymodule_exit_def unregister_net_hooks_def register_net_hooks_def
       sys2_env_ok_def balanced_def Let_def split: if_splits)

section \<open>Lemmas: which commands touch a device\<close>

lemma netdevs_set_all_nice_loop: "netdevs (set_all_nice_loop api n ps k) = netdevs k"
  by (induction ps arbitrary: k) (simp_all add: Let_def set_user_nice_at_def)

lemma netdevs_set_uid_nice_loop: "netdevs (snd (set_uid_nice_loop api u v n ps f k)) = netdevs k"
  by (induction ps arbitrary: f k) (simp_all add: Let_def set_user_nice_at_def)

lemma netdevs_set_all_task_nice: "netdevs (set_all_task_nice api p k) = netdevs k"
  by (simp add: set_all_task_nice_def netdevs_set_all_nice_loop split: list.split scanned.split)

lemma netdevs_set_user_nice_by_uid: "netdevs (set_user_nice_by_uid api p k) = netdevs k"
proof -
  have "netdevs k' = netdevs k" if "set_uid_nice_loop api u v n ps f k = (g, k')" for u v n ps f g k'
    using netdevs_set_uid_nice_loop [of api u v n ps f k] that by simp
  then show ?thesis
    by (simp add: set_user_nice_by_uid_def Let_def split: list.split scanned.split prod.split)
qed

lemma netdevs_set_thread_priority: "netdevs (set_thread_priority api p k) = netdevs k"
  by (simp add: set_thread_priority_def set_thread_priority_in_def Let_def set_user_nice_at_def
      split: option.split list.split scanned.split)

lemma netdevs_parse_command: "netdevs (parse_command api p k) = netdevs k"
  by (simp add: parse_command_def Let_def)

lemma netdevs_showinterface: "netdevs (showinterface api p k) = netdevs k"
  by (simp add: showinterface_def showinterface_in_def Let_def split: option.split)

lemma netdevs_showprocessfd: "netdevs (showprocessfd p k) = netdevs k"
  using showprocessfd_eq [of p k] by auto

lemma netdevs_setsocketsize: "netdevs (setsocketsize p k) = netdevs k"
  by (auto simp: setsocketsize_def setsocketsize_in_def setsock_loop_eq with_bufs_def
      split: list.split scanned.split prod.split option.split)

lemmas netdevs_frame = showtasklist_eq print_task_info_eq showallthread_def showallthread_loop_eq
  netdevs_set_all_task_nice netdevs_set_user_nice_by_uid netdevs_set_thread_priority
  netdevs_parse_command netdevs_showinterface netdevs_showprocessfd netdevs_setsocketsize
  showkernelsymbol_def

lemma setmtu_mtu:
  assumes "setmtu api p k = Inr k'"
  shows "mtu (netdevs k' d) = mtu (netdevs k d) \<or> 68 \<le> mtu (netdevs k' d) \<and> mtu (netdevs k' d) \<le> 65535"
proof -
  obtain ret where "setmtu_in api (Some p) k = Inr (ret, k')"
    using assms by (auto simp: setmtu_def bindF_Inr)
  then show ?thesis by (rule setmtu_cases) (auto simp: with_mtu_def)
qed

definition mtu_set :: "kapi \<Rightarrow> int \<Rightarrow> int \<Rightarrow> bool" where
  \<comment> \<open>how the commands may change an MTU\<close>
  "mtu_set api v v' \<longleftrightarrow> v' = v \<or> 68 \<le> v' \<and> v' \<le> 65535 \<or> v' = 0 \<and> hit (k_link_stats64_words api) (k_mtu_at api)"

lemma mtu_set_trans: "mtu_set api u v \<Longrightarrow> mtu_set api v w \<Longrightarrow> mtu_set api u w"
  by (auto simp: mtu_set_def)

lemma clearinterface_mtu:
  "clearinterface api p k = Inr k' \<Longrightarrow> mtu_set api (mtu (netdevs k d)) (mtu (netdevs k' d))"
  by (auto simp: clearinterface_def clearinterface_in_def Let_def bindF_Inr memset_stats_def mtu_set_def
      split: if_splits option.splits)

lemma run_command_mtu:
  assumes "run_command api c p k = Inr k'"
  shows "mtu_set api (mtu (netdevs k d)) (mtu (netdevs k' d))"
  using assms setmtu_mtu [of api p k k' d] clearinterface_mtu [of api p k k' d]
  by (cases c) (auto simp: netdevs_frame mtu_set_def)

lemma my_data_store_mtu:
  assumes "my_data_store api w s = Inr (r, s')"
  shows "mtu_set api (mtu (netdevs (kern s) d)) (mtu (netdevs (kern s') d))"
proof -
  obtain buf n where w: "w = (buf, n)" by (cases w)
  let ?d = "snprintf_s (my_data s) 256 buf"
  show ?thesis
  proof (cases "find_handler ?d command_handlers")
    case None
    with assms w show ?thesis by (auto simp: my_data_store_def Let_def mtu_set_def)
  next
    case (Some ch)
    obtain c h where ch: "ch = (c, h)" by (cases ch)
    with Some assms(1) w have "run_command api h (cstr (drop (length c + 1) ?d))
        (emit [pr_info (''Received data: '' @ cstr ?d @ [NL])] (kern s)) = Inr (kern s')"
      by (auto simp: my_data_store_def Let_def bindF_Inr)
    from run_command_mtu [OF this, of d] show ?thesis by simp
  qed
qed

section \<open>Properties\<close>

text \<open>
  No sequence of loads and unloads of \<open>sys2\<close> leaks the kobject, the sysfs file or the netfilter
  hook, when the hook registration succeeds; the other kernel calls may fail.
\<close>

theorem sys2_no_leak:
  assumes "\<And>e. e \<in> set es \<Longrightarrow> sysfs_create_file_ret e \<le> 0 \<and> nf_register_net_hook_ret e = 0"
  shows "replay [] (lifecycles mymodule_init (\<lambda>m. snd (mymodule_exit m)) es) = Some []"
  using assms by (intro sys2_drv.no_leak) (simp add: sys2_env_ok_def)

lemma sys2_no_leak_witness:
  "replay [] (lifecycles mymodule_init (\<lambda>m. snd (mymodule_exit m))
     [\<lparr>kobject_create_ok = True, sysfs_create_file_ret = - ENOMEM, nf_register_net_hook_ret = 0\<rparr>,
      \<lparr>kobject_create_ok = True, sysfs_create_file_ret = 0, nf_register_net_hook_ret = 0\<rparr>]) = Some []"
  by (rule sys2_no_leak) auto

text \<open>
  \<open>register_net_hooks\<close> ignores the result of \<open>nf_register_net_hook\<close>. When only that call
  fails, init reports success without a hook, and exit unregisters a hook that is not registered.
\<close>

theorem sys2_hook_failure_ignored:
  assumes "kobject_create_ok e" "sysfs_create_file_ret e = 0" "nf_register_net_hook_ret e < 0"
  shows "fst (mymodule_init e) = 0 \<and>
    replay [] (lifecycles mymodule_init (\<lambda>m. snd (mymodule_exit m)) [e]) = None"
  using assms
  by (simp add: mymodule_init_def mymodule_exit_def register_net_hooks_def unregister_net_hooks_def Let_def)

lemma sys2_hook_failure_ignored_witness:
  "fst (mymodule_init \<lparr>kobject_create_ok = True, sysfs_create_file_ret = 0, nf_register_net_hook_ret = - ENOMEM\<rparr>) = 0"
  by (rule conjunct1, rule sys2_hook_failure_ignored) simp_all

end
