(* ===== verification/Sys_Basic.thy ===== *)
theory Sys_Basic
  imports Kern_State Text_Attr Driver_Lifecycle
begin

text \<open>
  \<open>sys/sys.c\<close>: the first version of the attribute \<open>my_data\<close>, with two commands recognised by
  their prefix. Its static variables and functions have the names of those of \<open>sys2.c\<close>; here they
  carry the suffix \<open>_basic\<close>.
\<close>

record sys_basic =
  my_data_basic :: "char list"
  kern_basic :: kern

fun showtasklist_basic_loop :: "nat list \<Rightarrow> kern \<Rightarrow> kern" where
  "showtasklist_basic_loop [] k = k"
| "showtasklist_basic_loop (p # ps) k =
     showtasklist_basic_loop ps
       (emit [pr_info (''Process: '' @ comm (tasks k p) @ '' (PID: '' @ dec (pid (tasks k p)) @ '')'' @ [NL])] k)"

definition showtasklist_basic :: "kern \<Rightarrow> kern" where
  "showtasklist_basic k =
     (let iTaskCount = 0; k' = showtasklist_basic_loop (procs k) k in
      emit [pr_info (''task count:'' @ dec iTaskCount @ [NL])] k')"

definition info_line_basic :: "task \<Rightarrow> kev" where
  "info_line_basic t =
     pr_info (''Process: '' @ comm t @ '' (PID: '' @ dec (pid t) @ '', TGID: '' @ dec (tgid t) @
       '', Prio: '' @ dec (prio t) @ '', Static Prio: '' @ dec (static_prio t) @
       '', Normal Prio: '' @ dec (normal_prio t) @ '')'' @ [NL])"

fun print_task_info_basic_loop :: "nat list \<Rightarrow> int \<Rightarrow> kern \<Rightarrow> int \<times> kern" where
  "print_task_info_basic_loop [] n k = (n, k)"
| "print_task_info_basic_loop (p # ps) n k =
     print_task_info_basic_loop ps (n + 1) (emit [info_line_basic (tasks k p)] k)"

definition print_task_info_basic :: "kern \<Rightarrow> kern" where
  "print_task_info_basic k =
     (case print_task_info_basic_loop (procs k) 0 k of (iTaskCount, k') \<Rightarrow>
        emit [pr_info (''task count:'' @ dec iTaskCount @ [NL])] k')"

definition my_data_show_basic :: "sys_basic \<Rightarrow> string" where
  "my_data_show_basic s = cstr (my_data_basic s) @ [NL]"

definition my_data_store_basic :: "char list \<times> nat \<Rightarrow> sys_basic \<Rightarrow> int \<times> sys_basic" where
  "my_data_store_basic w s =
     (case w of (buf, count) \<Rightarrow>
      let d = snprintf_s (my_data_basic s) 256 buf;
          k1 = emit [pr_info (''Received data: '' @ cstr d @ [NL])] (kern_basic s);
          k2 = (if strncmp_eq d ''showtask'' 8 then showtasklist_basic k1
                else if strncmp_eq d ''showalltask'' 11 then print_task_info_basic k1
                else k1)
      in (int count, s\<lparr>my_data_basic := d, kern_basic := k2\<rparr>))"

record sys_basic_env =
  kobject_create_ok_basic :: bool
  sysfs_create_file_ret_basic :: int

definition mymodule_init_basic :: "sys_basic_env \<Rightarrow> int \<times> unit \<times> kev list" where
  "mymodule_init_basic e =
     (if \<not> kobject_create_ok_basic e then
        (- ENOMEM, (), [Get Kobject (- ENOMEM), pr_err (''Failed to create kobject'' @ [NL])])
      else
      let ret = sysfs_create_file_ret_basic e; t1 = [Get Kobject 0, Get SysfsFile ret] in
      if ret \<noteq> 0 then
        (ret, (), t1 @ [Put Kobject, pr_err (''Failed to create sysfs file'' @ [NL])])
      else (0, (), t1 @ [pr_info (''My module loaded.'' @ [NL])]))"

definition mymodule_exit_basic :: "unit \<Rightarrow> kev list" where
  "mymodule_exit_basic s = [Put SysfsFile, Put Kobject, pr_info (''My module unloaded.'' @ [NL])]"

section \<open>Lemmas\<close>

lemma showtasklist_basic_loop_eq:
  "showtasklist_basic_loop ps k =
     emit (map (\<lambda>p. pr_info (''Process: '' @ comm (tasks k p) @ '' (PID: '' @ dec (pid (tasks k p)) @
                             '')'' @ [NL])) ps) k"
  by (induction ps arbitrary: k) (simp_all add: emit_def)

lemma print_task_info_basic_loop_eq:
  "print_task_info_basic_loop ps n k =
     (n + int (length ps), emit (map (\<lambda>p. info_line_basic (tasks k p)) ps) k)"
  by (induction ps arbitrary: n k) (simp_all add: emit_def)

interpretation basic_attr: text_attr "\<lambda>w s. Inr (my_data_store_basic w s)" my_data_show_basic my_data_basic
    "\<lambda>_. True" "\<lambda>(buf, count). take 255 (cstr buf)" "[]"
proof
  fix s w r s'
  assume *: "(Inr (my_data_store_basic w s) :: fault + _) = Inr (r, s')"
  then have d: "my_data_basic s' = snprintf_s (my_data_basic s) 256 (fst w)"
    by (auto simp: my_data_store_basic_def Let_def split: prod.splits)
  show "buf_ok 256 (my_data_basic s) \<Longrightarrow> buf_ok 256 (my_data_basic s')"
    by (simp add: d buf_ok_snprintf)
  show "cstr (my_data_basic s') = (case w of (buf, count) \<Rightarrow> take 255 (cstr buf))"
    by (simp add: d cstr_snprintf_s split: prod.split)
qed (simp add: my_data_show_basic_def)

interpretation basic_drv: driver mymodule_init_basic mymodule_exit_basic "\<lambda>e. sysfs_create_file_ret_basic e \<le> 0"
  by unfold_locales
     (auto simp: mymodule_init_basic_def mymodule_exit_basic_def balanced_def Let_def split: if_splits)

section \<open>Properties\<close>

text \<open>
  In the first version \<open>showtask\<close> logs every process and then the count 0, whatever the number
  of processes, since the counter is never incremented; \<open>showalltask\<close> logs the right count.
\<close>

theorem basic_task_counts:
  "log_of (added k (showtasklist_basic k)) =
     map (\<lambda>p. (KERN_INFO, ''Process: '' @ comm (tasks k p) @ '' (PID: '' @ dec (pid (tasks k p)) @ '')'' @ [NL])) (procs k)
       @ [(KERN_INFO, ''task count:'' @ dec 0 @ [NL])] \<and>
   last (log_of (added k (print_task_info_basic k))) =
     (KERN_INFO, ''task count:'' @ dec (int (length (procs k))) @ [NL])"
  by (simp add: showtasklist_basic_def showtasklist_basic_loop_eq print_task_info_basic_def
      print_task_info_basic_loop_eq)

end
