(* ===== verification/Char_Device.thy ===== *)
theory Char_Device
  imports Kernel_Events
begin

text \<open>
  Copies between user and kernel memory, and the interface of a device that keeps the bytes
  written to it. \<open>copy_from_user\<close> is the kernel's: its outcome is a \<open>ucopy\<close>, the number of
  bytes it could not copy and the bytes it put into the destination; \<open>ucopy_ok u d n\<close> is its
  documented contract for user data \<open>d\<close>. The locale \<open>char_device\<close> is what a user of such a
  device relies on, interpreted by each driver with a \<open>read\<close> and a \<open>write\<close> handler.
\<close>

record ucopy =
  not_copied :: nat
  moved :: "char list"

definition ucopy_ok :: "ucopy \<Rightarrow> char list \<Rightarrow> nat \<Rightarrow> bool" where
  "ucopy_ok u d n \<longleftrightarrow>
     n \<le> length d \<and> length (moved u) = n \<and> not_copied u \<le> n \<and>
     take (n - not_copied u) (moved u) = take (n - not_copied u) d"

lemma ucopy_ok_all: "ucopy_ok u d n \<Longrightarrow> not_copied u = 0 \<Longrightarrow> moved u = take n d"
  by (auto simp: ucopy_ok_def)

definition from_user :: "char list \<Rightarrow> ucopy \<Rightarrow> nat \<Rightarrow> fault + char list" where
  \<comment> \<open>the destination after \<open>copy_from_user(dst, buf, n)\<close>\<close>
  "from_user dst u n =
     (if length dst < n then Inl OutOfBounds
      else Inr (take n (moved u) @ drop (length (take n (moved u))) dst))"

lemma from_user_length: "from_user dst u n = Inr dst' \<Longrightarrow> length dst' = length dst"
  by (auto simp: from_user_def split: if_splits)

lemma from_user_data:
  assumes "from_user dst u n = Inr dst'" "ucopy_ok u d n" "not_copied u = 0"
  shows "dst' = take n d @ drop n dst"
  using assms ucopy_ok_all [OF assms(2,3)]
  by (auto simp: from_user_def ucopy_ok_def split: if_splits)

lemma from_user_Inl: "from_user dst u n = Inl f \<longleftrightarrow> length dst < n \<and> f = OutOfBounds"
  by (auto simp: from_user_def)

text \<open>A \<open>%s\<close> argument: the C string of an object, which must hold its terminator.\<close>

definition str_arg :: "char list \<Rightarrow> fault + string" where
  "str_arg b = (if NUL \<in> set b then Inr (cstr b) else Inl OutOfBounds)"

text \<open>A call of one of the two handlers.\<close>

datatype dev_call =
    Read_Call nat nat      \<comment> \<open>\<open>count\<close>, and how many bytes \<open>copy_to_user\<close> cannot copy\<close>
  | Write_Call ucopy nat

fun run_writes :: "(ucopy \<Rightarrow> nat \<Rightarrow> 's \<Rightarrow> fault + (int \<times> 's \<times> kev list)) \<Rightarrow> (ucopy \<times> nat) list \<Rightarrow> 's \<Rightarrow> fault + 's" where
  "run_writes dev_write [] s = Inr s"
| "run_writes dev_write ((u, n) # ws) s = bindF (dev_write u n s) (\<lambda>(_, s', _). run_writes dev_write ws s')"

locale char_device =
  fixes cap :: nat
    and dev_write :: "ucopy \<Rightarrow> nat \<Rightarrow> 's \<Rightarrow> fault + (int \<times> 's \<times> kev list)"
    and dev_read :: "nat \<Rightarrow> nat \<Rightarrow> 's \<Rightarrow> fault + (int \<times> char list \<times> kev list)"
    and cells :: "'s \<Rightarrow> char list"
  assumes write_cells:
      "length (cells s) = cap \<Longrightarrow> n \<le> cap \<Longrightarrow> ucopy_ok u d n \<Longrightarrow> not_copied u = 0 \<Longrightarrow>
       dev_write u n s = Inr (ret, s', t) \<Longrightarrow> cells s' = take n d @ drop n (cells s)"
    and write_length:
      "length (cells s) = cap \<Longrightarrow> dev_write u n s = Inr (ret, s', t) \<Longrightarrow> length (cells s') = cap"
    and read_cells:
      "length (cells s) = cap \<Longrightarrow> n \<le> cap \<Longrightarrow> dev_read n 0 s = Inr (ret, bs, t) \<Longrightarrow>
       take n bs = take n (cells s)"
begin

lemma writes_length: "length (cells s) = cap \<Longrightarrow> run_writes dev_write ws s = Inr s' \<Longrightarrow> length (cells s') = cap"
proof (induction ws arbitrary: s)
  case (Cons w ws)
  obtain u n where w: "w = (u, n)" by (cases w)
  then obtain r s1 t where "dev_write u n s = Inr (r, s1, t)" "run_writes dev_write ws s1 = Inr s'"
    using Cons.prems(2) by (auto simp: bindF_Inr)
  then show ?case using Cons.IH write_length [OF Cons.prems(1)] by blast
qed simp

text \<open>What was written is what the next read delivers.\<close>

lemma write_read:
  assumes "length (cells s) = cap" "n \<le> cap" "ucopy_ok u d n" "not_copied u = 0"
    and w: "dev_write u n s = Inr (ret, s', t)"
    and r: "dev_read m 0 s' = Inr (ret', bs, t')" and "m \<le> n"
  shows "take m bs = take m d"
proof -
  have "take m bs = take m (cells s')"
    using write_length [OF assms(1) w] assms(2,7) by (intro read_cells [OF _ _ r]) auto
  also have "\<dots> = take m (take n d @ drop n (cells s))"
    by (simp only: write_cells [OF assms(1-4) w])
  also have "\<dots> = take m d"
    using assms(2,3,7) by (simp add: ucopy_ok_def min_def)
  finally show ?thesis .
qed

end

end
