(* ===== verification/Procsys.thy ===== *)
theory Procsys
  imports Char_Device Text_Attr Driver_Lifecycle
begin

text \<open>
  \<open>procsys/procsys.c\<close>: the entry \<open>/proc/sys/my_module\<close>, a 256-byte text that a write replaces
  (after a check of its length) and a read prints. The write terminates the text itself.
\<close>

record procsys =
  user_data :: "char list"
  proc_log :: "kev list"

definition my_proc_show :: "procsys \<Rightarrow> string" where
  "my_proc_show s = ''User data: '' @ cstr (user_data s) @ [NL]"

definition my_proc_open :: "bool \<Rightarrow> int" where
  \<comment> \<open>\<open>single_open\<close> fails only when memory is short\<close>
  "my_proc_open mem = (if mem then 0 else - ENOMEM)"

definition my_proc_write :: "ucopy \<Rightarrow> nat \<Rightarrow> procsys \<Rightarrow> fault + (int \<times> procsys)" where
  "my_proc_write u count s =
     (if count \<ge> 256 then Inr (- EFAULT, s)
      else bindF (from_user (user_data s) u count) (\<lambda>b.
        if not_copied u \<noteq> 0 then Inr (- EFAULT, s\<lparr>user_data := b\<rparr>)
        else if count < length b then
          let b' = b[count := NUL] in
          Inr (int count, s\<lparr>user_data := b',
            proc_log := proc_log s @ [pr_info (''Received data: '' @ cstr b' @ [NL])]\<rparr>)
        else Inl OutOfBounds))"

definition my_module_init :: "bool \<Rightarrow> int \<times> unit \<times> kev list" where
  \<comment> \<open>whether \<open>proc_create\<close> gives an entry\<close>
  "my_module_init entry =
     (if \<not> entry then
        (- ENOMEM, (),
         [Get ProcEntry (- ENOMEM),
          pr_err (''Failed to create /proc/sys/my_module'' @ [NL]),
          pr_err (''Possible reasons:'' @ [NL]),
          pr_err (''1. Insufficient memory'' @ [NL]),
          pr_err (''2. Invalid parameters'' @ [NL]),
          pr_err (''3. Permission issues'' @ [NL]),
          pr_err (''4. Kernel configuration issues'' @ [NL])])
      else (0, (), [Get ProcEntry 0, pr_info (''My module loaded.'' @ [NL])]))"

definition my_module_exit :: "unit \<Rightarrow> kev list" where
  "my_module_exit s = [Put ProcEntry, pr_info (''My module unloaded.'' @ [NL])]"

section \<open>Lemmas\<close>

lemma from_user_last:
  assumes "from_user b u n = Inr b'" "n < length b"
  shows "b' ! (length b - 1) = b ! (length b - 1)"
  using assms by (auto simp: from_user_def nth_append split: if_splits)

lemma my_proc_write_ok:
  assumes "buf_ok 256 (user_data s)" "my_proc_write u n s = Inr (r, s')"
  shows "buf_ok 256 (user_data s')"
proof (cases "n < 256")
  case True
  then obtain b where b: "from_user (user_data s) u n = Inr b" "user_data s' = b \<or> user_data s' = b[n := NUL]"
    using assms(2) by (auto simp: my_proc_write_def bindF_Inr Let_def split: if_splits)
  have "buf_ok 256 b"
    using b(1) assms(1) True from_user_length [OF b(1)] from_user_last [OF b(1)] by (simp add: buf_ok_def)
  then show ?thesis using b(2) True by (auto simp: buf_ok_def nth_list_update)
next
  case False
  then show ?thesis using assms by (simp add: my_proc_write_def)
qed

lemma my_proc_write_total:
  assumes "buf_ok 256 (user_data s)"
  obtains r s' where "my_proc_write u n s = Inr (r, s')"
proof -
  have "\<exists>r s'. my_proc_write u n s = Inr (r, s')"
    using assms by (auto simp: my_proc_write_def buf_ok_def from_user_def Let_def)
  with that show thesis by blast
qed

text \<open>A write as the interface sees it: the outcome of the copy, the count and the user's bytes.\<close>

interpretation proc_attr: text_attr "\<lambda>(u, n, d). my_proc_write u n" my_proc_show user_data
    "\<lambda>(u, n, d). n < 256 \<and> ucopy_ok u d n \<and> not_copied u = 0" "\<lambda>(u, n, d). cstr (take n d)" "''User data: ''"
proof
  fix s and w :: "ucopy \<times> nat \<times> char list" and r s'
  obtain u n d where w: "w = (u, n, d)" by (cases w)
  assume ok: "buf_ok 256 (user_data s)" and st: "(case w of (u, n, d) \<Rightarrow> my_proc_write u n) s = Inr (r, s')"
  show "buf_ok 256 (user_data s')"
    using my_proc_write_ok [OF ok] st w by simp
  assume acc: "case w of (u, n, d) \<Rightarrow> n < 256 \<and> ucopy_ok u d n \<and> not_copied u = 0"
  then obtain b where b: "from_user (user_data s) u n = Inr b" "user_data s' = b[n := NUL]"
    using st w by (auto simp: my_proc_write_def bindF_Inr Let_def split: if_splits)
  have "b = take n d @ drop n (user_data s)"
    using from_user_data [OF b(1)] acc w by simp
  moreover have "n \<le> length d" using acc w by (simp add: ucopy_ok_def)
  moreover obtain x t where "drop n (user_data s) = x # t"
    using ok acc w by (cases "drop n (user_data s)") (auto simp: buf_ok_def)
  ultimately have "user_data s' = take n d @ NUL # t" by (simp add: b(2) list_update_append)
  then show "cstr (user_data s') = (case w of (u, n, d) \<Rightarrow> cstr (take n d))"
    by (simp add: w)
qed (simp add: my_proc_show_def)

interpretation proc_drv: driver my_module_init my_module_exit "\<lambda>_. True"
  by unfold_locales (auto simp: my_module_init_def my_module_exit_def balanced_def split: if_splits)

section \<open>Properties\<close>

text \<open>
  After any sequence of writes, a last write of fewer than 256 bytes that could be copied is
  what reading the entry shows, up to its first NUL.
\<close>

theorem proc_shows_last_write:
  assumes "buf_ok 256 (user_data s)" "n < 256" "ucopy_ok u d n" "not_copied u = 0"
    and "run_stores (\<lambda>(u, n, d). my_proc_write u n) (ws @ [(u, n, d)]) s = Inr s'"
  shows "my_proc_show s' = ''User data: '' @ cstr (take n d) @ [NL]"
  using proc_attr.shown_last [OF assms(1,5)] assms(2-4) by simp

lemma proc_shows_last_write_witness:
  "\<exists>s'. my_proc_write \<lparr>not_copied = 0, moved = ''hi''\<rparr> 2 \<lparr>user_data = replicate 256 NUL, proc_log = []\<rparr> = Inr (2, s') \<and>
     my_proc_show s' = ''User data: hi'' @ [NL]"
proof -
  let ?s = "\<lparr>user_data = replicate 256 NUL, proc_log = []\<rparr> :: procsys"
  let ?u = "\<lparr>not_copied = 0, moved = ''hi''\<rparr> :: ucopy"
  obtain s' where w: "my_proc_write ?u 2 ?s = Inr (2, s')"
    by (simp add: my_proc_write_def from_user_def Let_def)
  then have r: "run_stores (\<lambda>(u, n, d). my_proc_write u n) ([] @ [(?u, 2, ''hi'')]) ?s = Inr s'" by simp
  have "ucopy_ok ?u ''hi'' 2" "buf_ok 256 (user_data ?s)" by (simp_all add: ucopy_ok_def buf_ok_replicate)
  then show ?thesis using proc_shows_last_write [OF _ _ _ _ r] w by simp
qed

text \<open>
  No write can fault or leave the text unterminated. A write of 256 bytes or more is refused
  and changes nothing; a failed copy is reported with \<open>-EFAULT\<close>.
\<close>

theorem proc_write_safe:
  assumes "buf_ok 256 (user_data s)"
  shows "\<exists>s'. my_proc_write u n s = Inr (if 256 \<le> n \<or> not_copied u \<noteq> 0 then - EFAULT else int n, s') \<and>
    buf_ok 256 (user_data s') \<and> (256 \<le> n \<longrightarrow> s' = s)"
proof -
  obtain r s' where w: "my_proc_write u n s = Inr (r, s')" using my_proc_write_total [OF assms] .
  moreover have "buf_ok 256 (user_data s')" by (rule my_proc_write_ok [OF assms w])
  ultimately show ?thesis
    by (auto simp: my_proc_write_def bindF_Inr Let_def split: if_splits)
qed

lemma proc_write_safe_witness:
  "\<exists>s'. my_proc_write \<lparr>not_copied = 0, moved = []\<rparr> 256 \<lparr>user_data = replicate 256 NUL, proc_log = []\<rparr> = Inr (- EFAULT, s')"
  using proc_write_safe [of "\<lparr>user_data = replicate 256 NUL, proc_log = []\<rparr>" "\<lparr>not_copied = 0, moved = []\<rparr>" 256]
  by (auto simp: buf_ok_replicate)

end
