(* ===== verification/Chrdev_Base.thy ===== *)
theory Chrdev_Base
  imports Char_Device Driver_Lifecycle
begin

text \<open>
  \<open>chrdevbase/chrdevbase.c\<close>: a character device on a fixed major number that keeps the last
  bytes written in \<open>samebuf\<close>. Its handlers, its init and its exit.
\<close>

record chrdevbase =
  writebuf :: "char list"
  readbuf :: "char list"
  kerneldata :: string
  samebuf :: "char list"

definition CHARDEVBASE_MAJOR :: int where
  "CHARDEVBASE_MAJOR = 200"

definition chrdevbase_static :: chrdevbase where
  "chrdevbase_static = \<lparr>writebuf = replicate 100 NUL, readbuf = replicate 100 NUL,
     kerneldata = ''kernel data'', samebuf = replicate 100 NUL\<rparr>"

definition chrdevbase_open :: "int \<times> kev list" where
  "chrdevbase_open = (0, [printk (''chrdevbase_open'' @ [NL])])"

definition chrdevbase_release :: "int \<times> kev list" where
  "chrdevbase_release = (0, [printk (''chrdevbase_release'' @ [NL])])"

definition chrdevbase_read :: "nat \<Rightarrow> nat \<Rightarrow> chrdevbase \<Rightarrow> fault + (int \<times> char list \<times> kev list)" where
  \<comment> \<open>\<open>count\<close>, what \<open>copy_to_user\<close> returns, the device; gives the bytes put into user memory\<close>
  "chrdevbase_read count ret s =
     Inr (0, take (length (samebuf s) - ret) (samebuf s),
       if ret = 0 then [printk (''chrdevbase_read success'' @ [NL])] else [])"

definition chrdevbase_write :: "ucopy \<Rightarrow> nat \<Rightarrow> chrdevbase \<Rightarrow> fault + (int \<times> chrdevbase \<times> kev list)" where
  "chrdevbase_write u count s =
     bindF (from_user (samebuf s) u count) (\<lambda>b.
       Inr (0, s\<lparr>samebuf := b\<rparr>,
         if not_copied u = 0
         then [printk (''chrdevbase_write success, count:'' @ dec (int count mod 2 ^ 32) @ [NL])] else []))"

definition chrdevbase_init :: "int \<Rightarrow> int \<Rightarrow> int \<times> unit \<times> kev list" where
  \<comment> \<open>the caller's pid and what \<open>register_chrdev\<close> returns\<close>
  "chrdevbase_init pid ret =
     (0, (), [Get (ChrdevMajor CHARDEVBASE_MAJOR) ret] @
        (if ret < 0
         then [pr_info (''entering  chrdevbase_init @ '' @ dec pid @ '' '' @ dec 154 @ [NL]),
               printk (''chrdevbase register failed:'' @ dec ret @ [NL])]
         else []) @
        [pr_info (''ChardevBase driver has been loaded'' @ [NL])])"

definition chrdevbase_exit :: "unit \<Rightarrow> kev list" where
  "chrdevbase_exit s =
     [Put (ChrdevMajor CHARDEVBASE_MAJOR),
      pr_info (''ChardevBase driver has been unloaded'' @ [NL])]"

lemma chrdevbase_write_ok:
  assumes "length (samebuf s) = 100" "count \<le> 100"
  shows "\<exists>s' t. chrdevbase_write u count s = Inr (0, s', t) \<and> length (samebuf s') = 100"
  using assms by (simp add: chrdevbase_write_def from_user_def)

interpretation chrdevbase: char_device 100 chrdevbase_write chrdevbase_read samebuf
proof
  fix s :: chrdevbase and n u d ret s' t
  assume *: "length (samebuf s) = 100" "ucopy_ok u d n" "not_copied u = 0"
    "chrdevbase_write u n s = Inr (ret, s', t)"
  then obtain b where "from_user (samebuf s) u n = Inr b" "s' = s\<lparr>samebuf := b\<rparr>"
    by (auto simp: chrdevbase_write_def bindF_Inr)
  then show "samebuf s' = take n d @ drop n (samebuf s)"
    using from_user_data * by simp
next
  fix s :: chrdevbase and u n ret s' t
  assume "length (samebuf s) = 100" "chrdevbase_write u n s = Inr (ret, s', t)"
  then show "length (samebuf s') = 100"
    by (auto simp: chrdevbase_write_def bindF_Inr dest: from_user_length)
qed (auto simp: chrdevbase_read_def)

section \<open>Properties\<close>

text \<open>
  \<open>chrdevbase_init\<close> reports success whatever \<open>register_chrdev\<close> returned, so a load followed
  by an unload is clean exactly when the registration succeeded; otherwise the unload releases a
  major number the driver does not hold.
\<close>

theorem chrdevbase_load_unload:
  "fst (chrdevbase_init pid ret) = 0 \<and>
   (replay [] (lifecycles (chrdevbase_init pid) chrdevbase_exit [ret]) = Some [] \<longleftrightarrow> 0 \<le> ret)"
  by (auto simp: chrdevbase_init_def chrdevbase_exit_def)

end
