(* ===== verification/New_Chrdev.thy ===== *)
theory New_Chrdev
  imports Char_Device Driver_Lifecycle
begin

text \<open>
  \<open>newchrdevbase/newchrdevbase.c\<close>: the same device with a dynamic device number, a class and a
  device node. The four kernel calls of \<open>newchardevbase_init\<close> can each fail; the \<open>goto\<close> labels
  undo, in reverse order, what had been acquired.
\<close>

record newchrled_cdev =
  devid :: dev_t
  major :: int
  minor :: int

record chr_env =
  register_chrdev_region_ret :: int
  alloc_chrdev_region_ret :: int
  alloc_chrdev_region_dev :: dev_t  \<comment> \<open>\<open>newchrled.devid\<close> after the call\<close>
  cdev_add_ret :: int
  class_create_ret :: "int + nat"   \<comment> \<open>\<open>Inl e\<close>: an error pointer for errno \<open>e\<close>\<close>
  device_create_ret :: "int + nat"

definition ptr_err :: "int + nat \<Rightarrow> int" where
  "ptr_err p = (case p of Inl e \<Rightarrow> e | Inr _ \<Rightarrow> 0)"

definition NEWCHRLED_COUNT :: nat where
  "NEWCHRLED_COUNT = 1"

definition newchardevbase_open :: "int \<times> kev list" where
  "newchardevbase_open = (0, [printk (''newchardevbase_open'' @ [NL])])"

definition newchardevbase_release :: "int \<times> kev list" where
  "newchardevbase_release = (0, [printk (''newchardevbase_release'' @ [NL])])"

definition newchardevbase_read :: "nat \<Rightarrow> nat \<Rightarrow> char list \<Rightarrow> fault + (int \<times> char list \<times> kev list)" where
  "newchardevbase_read count ret samebuf =
     Inr (0, take (length samebuf - ret) samebuf,
       if ret = 0 then [printk (''newchardevbase_read success'' @ [NL])] else [])"

definition newchardevbase_write :: "ucopy \<Rightarrow> nat \<Rightarrow> char list \<Rightarrow> fault + (int \<times> char list \<times> kev list)" where
  "newchardevbase_write u count samebuf =
     bindF (from_user samebuf u count) (\<lambda>b.
       Inr (0, b,
         if not_copied u = 0
         then [printk (''newchardevbase_write success, count:'' @ dec (int count) @ [NL])] else []))"

section \<open>Init and exit\<close>

definition newchrled_devid :: "newchrled_cdev \<Rightarrow> chr_env \<Rightarrow> int \<times> newchrled_cdev" where
  \<comment> \<open>the device number: the fixed major when there is one, else a fresh one\<close>
  "newchrled_devid c e =
     (if major c \<noteq> 0
      then (register_chrdev_region_ret e, c\<lparr>devid := MKDEV (major c) 0\<rparr>)
      else (alloc_chrdev_region_ret e,
            c\<lparr>devid := alloc_chrdev_region_dev e,
              major := MAJOR (alloc_chrdev_region_dev e),
              minor := MINOR (alloc_chrdev_region_dev e)\<rparr>))"

text \<open>The labels at the end of \<open>newchardevbase_init\<close>; each falls through to the next.\<close>

definition fail_cdev :: "newchrled_cdev \<Rightarrow> kev list" where
  "fail_cdev c = [Put (ChrdevRegion (devid c) NEWCHRLED_COUNT)]"

definition fail_class :: "newchrled_cdev \<Rightarrow> kev list" where
  "fail_class c = Put Cdev # fail_cdev c"

definition fail_device :: "newchrled_cdev \<Rightarrow> kev list" where
  "fail_device c = Put Class # fail_class c"

definition newchardevbase_init :: "newchrled_cdev \<Rightarrow> chr_env \<Rightarrow> int \<times> newchrled_cdev \<times> kev list" where
  "newchardevbase_init c0 e =
     (case newchrled_devid c0 e of (ret, c) \<Rightarrow>
      let t1 = [Get (ChrdevRegion (devid c) NEWCHRLED_COUNT) ret] in
      if ret < 0 then
        (ret, c, t1 @ [printk (''newchardevbase alloc_chrdev_region failed:'' @ dec ret @ [NL])])
      else
      let t2 = t1 @ [printk (''newchardevbase major:'' @ dec (major c) @ '', minor:'' @ dec (minor c) @ [NL]),
                     Get Cdev (cdev_add_ret e)] in
      if cdev_add_ret e < 0 then
        (cdev_add_ret e, c, t2 @ [printk (''cdev_add failed'' @ [NL])] @ fail_cdev c)
      else
      let t3 = t2 @ [Get Class (ptr_err (class_create_ret e))] in
      (case class_create_ret e of Inl err \<Rightarrow> (err, c, t3 @ fail_class c)
       | Inr _ \<Rightarrow>
      let t4 = t3 @ [Get (Device (devid c)) (ptr_err (device_create_ret e))] in
      (case device_create_ret e of Inl err \<Rightarrow> (err, c, t4 @ fail_device c)
       | Inr _ \<Rightarrow>
        (0, c, t4 @ [pr_info (''NewChardevBase driver has been loaded'' @ [NL])]))))"

definition newchardevbase_exit :: "newchrled_cdev \<Rightarrow> kev list" where
  "newchardevbase_exit c =
     [printk ''newchrdevbase_exit'',
      Put Cdev,
      Put (ChrdevRegion (devid c) NEWCHRLED_COUNT),
      Put (Device (devid c)),
      Put Class,
      pr_info (''NewChardevBase driver has been unloaded'' @ [NL])]"

text \<open>
  What the kernel documents of the four calls: 0 on success, a negative errno on failure, an
  error pointer holds a negative errno.
\<close>

definition chr_env_ok :: "chr_env \<Rightarrow> bool" where
  "chr_env_ok e \<longleftrightarrow>
     register_chrdev_region_ret e \<le> 0 \<and> alloc_chrdev_region_ret e \<le> 0 \<and> cdev_add_ret e \<le> 0 \<and>
     (\<forall>err. class_create_ret e = Inl err \<longrightarrow> err < 0) \<and>
     (\<forall>err. device_create_ret e = Inl err \<longrightarrow> err < 0)"

lemmas newchrdev_defs = newchardevbase_init_def newchardevbase_exit_def newchrled_devid_def
  fail_cdev_def fail_class_def fail_device_def Let_def ptr_err_def

lemma newchardevbase_init_cases:
  assumes "newchardevbase_init c0 e = (ret, c, t)" "chr_env_ok e"
  obtains (fail) "ret < 0" "balanced t"
    | (ok) "ret = 0"
        "lifo [] t = Some [Device (devid c), Class, Cdev, ChrdevRegion (devid c) NEWCHRLED_COUNT]"
  using assms
  by (auto simp: newchrdev_defs chr_env_ok_def balanced_def split: if_splits sum.splits prod.splits)

lemma newchardevbase_ret: "chr_env_ok e \<Longrightarrow> newchardevbase_init c0 e = (ret, c, t) \<Longrightarrow> ret \<le> 0"
  by (erule newchardevbase_init_cases) auto

lemma newchardevbase_init_exit:
  assumes "chr_env_ok e" "newchardevbase_init c0 e = (0, c, t)"
  shows "replay [] (t @ newchardevbase_exit c) = Some []"
  using assms(2,1)
proof (cases rule: newchardevbase_init_cases)
  case ok
  then show ?thesis using lifo_replay [OF ok(2)]
    by (simp add: replay_append newchardevbase_exit_def)
qed simp

interpretation newchr_dev: char_device 100 newchardevbase_write newchardevbase_read "\<lambda>s. s"
proof
  fix s n u d ret s' t
  assume "ucopy_ok u d n" "not_copied u = 0" "newchardevbase_write u n s = Inr (ret, s', t)"
  then show "s' = take n d @ drop n s"
    by (auto simp: newchardevbase_write_def bindF_Inr intro: from_user_data)
next
  fix s :: "char list" and u n ret s' t
  assume "length s = 100" "newchardevbase_write u n s = Inr (ret, s', t)"
  then show "length s' = 100"
    by (auto simp: newchardevbase_write_def bindF_Inr dest: from_user_length)
qed (auto simp: newchardevbase_read_def)

interpretation newchr_drv: driver "newchardevbase_init c0" newchardevbase_exit chr_env_ok for c0
proof
  fix e ret c t
  assume ok: "chr_env_ok e"
  show "newchardevbase_init c0 e = (ret, c, t) \<Longrightarrow> ret \<le> 0"
    by (rule newchardevbase_ret [OF ok])
  show "newchardevbase_init c0 e = (ret, c, t) \<Longrightarrow> ret < 0 \<Longrightarrow> balanced t"
    using ok by (auto elim: newchardevbase_init_cases)
  show "newchardevbase_init c0 e = (0, c, t) \<Longrightarrow> replay [] (t @ newchardevbase_exit c) = Some []"
    by (rule newchardevbase_init_exit [OF ok])
qed

section \<open>Properties\<close>

text \<open>The first error among the results of calls made in order, 0 when there is none.\<close>

fun first_err :: "int list \<Rightarrow> int" where
  "first_err [] = 0"
| "first_err (r # rs) = (if r < 0 then r else first_err rs)"

text \<open>
  C6: \<open>newchardevbase_init\<close> returns the first error of its four kernel calls, or 0. On an error it
  has released, in reverse order, exactly what it had acquired; on success it holds the device
  number, the cdev, the class and the device.
\<close>

theorem newchr_init_unwinds:
  assumes "newchardevbase_init c0 e = (ret, c, t)" "chr_env_ok e"
  shows "ret = first_err [if major c0 \<noteq> 0 then register_chrdev_region_ret e else alloc_chrdev_region_ret e,
      cdev_add_ret e, ptr_err (class_create_ret e), ptr_err (device_create_ret e)] \<and>
    lifo [] t = Some (if ret = 0
      then [Device (devid c), Class, Cdev, ChrdevRegion (devid c) NEWCHRLED_COUNT] else [])"
  using assms
  by (auto simp: newchrdev_defs chr_env_ok_def split: if_splits sum.splits prod.splits)

definition demo_chr_env :: chr_env where
  \<comment> \<open>\<open>class_create\<close> fails with \<open>-ENOMEM\<close>\<close>
  "demo_chr_env = \<lparr>register_chrdev_region_ret = 0, alloc_chrdev_region_ret = 0,
     alloc_chrdev_region_dev = MKDEV 240 0, cdev_add_ret = 0, class_create_ret = Inl (- ENOMEM),
     device_create_ret = Inr 1\<rparr>"

definition demo_chr_dev :: newchrled_cdev where
  "demo_chr_dev = \<lparr>devid = MKDEV 0 0, major = 0, minor = 0\<rparr>"

lemma demo_chr_env_ok: "chr_env_ok demo_chr_env"
  by (simp add: chr_env_ok_def demo_chr_env_def)

lemma newchr_init_unwinds_witness:
  "\<exists>c t. newchardevbase_init demo_chr_dev demo_chr_env = (- ENOMEM, c, t) \<and> lifo [] t = Some []"
proof -
  obtain ret c t where i: "newchardevbase_init demo_chr_dev demo_chr_env = (ret, c, t)"
    by (cases "newchardevbase_init demo_chr_dev demo_chr_env")
  with newchr_init_unwinds [OF i demo_chr_env_ok] show ?thesis
    by (simp add: demo_chr_env_def demo_chr_dev_def ptr_err_def)
qed

text \<open>
  C10: no sequence of module loads, successful or not, each successful one followed by an unload,
  leaks a registration or releases one that is not held.
\<close>

theorem newchr_no_leak:
  assumes "\<And>e. e \<in> set es \<Longrightarrow> chr_env_ok e"
  shows "replay [] (lifecycles (newchardevbase_init c0) newchardevbase_exit es) = Some []"
  by (rule newchr_drv.no_leak [OF assms])

lemma newchr_no_leak_witness:
  "replay [] (lifecycles (newchardevbase_init demo_chr_dev) newchardevbase_exit
     [demo_chr_env, demo_chr_env\<lparr>class_create_ret := Inr 1\<rparr>]) = Some []"
  by (rule newchr_no_leak) (auto simp: demo_chr_env_def chr_env_ok_def)

text \<open>
  What was written is read back. After a complete write of \<open>n\<close> bytes (at most 100) of user
  data, the first \<open>m \<le> n\<close> bytes the next complete read delivers are the first \<open>m\<close> bytes of it.
\<close>

theorem newchr_write_read:
  assumes "length s = 100" "n \<le> 100" "ucopy_ok u d n" "not_copied u = 0" "m \<le> n"
    and "newchardevbase_write u n s = Inr (ret, s', t)" "newchardevbase_read m 0 s' = Inr (ret', bs, t')"
  shows "take m bs = take m d"
  by (rule newchr_dev.write_read [OF assms(1-4,6,7,5)])

lemma newchr_write_read_witness:
  "\<exists>s' t bs t'. newchardevbase_write \<lparr>not_copied = 0, moved = ''ab''\<rparr> 2 (replicate 100 NUL) = Inr (0, s', t) \<and>
     newchardevbase_read 2 0 s' = Inr (0, bs, t') \<and> take 2 bs = ''ab''"
proof -
  obtain s' t where w: "newchardevbase_write \<lparr>not_copied = 0, moved = ''ab''\<rparr> 2 (replicate 100 NUL) = Inr (0, s', t)"
    by (simp add: newchardevbase_write_def from_user_def)
  obtain bs t' where r: "newchardevbase_read 2 0 s' = Inr (0, bs, t')"
    by (simp add: newchardevbase_read_def)
  have "ucopy_ok \<lparr>not_copied = 0, moved = ''ab''\<rparr> ''ab'' 2" by (simp add: ucopy_ok_def)
  from newchr_write_read [OF _ _ this _ _ w r] w r show ?thesis by auto
qed

text \<open>
  A write faults exactly when the user asks for more than the 100 bytes of the buffer; the
  count is not checked before \<open>copy_from_user\<close>.
\<close>

theorem newchr_write_overflow:
  assumes "length s = 100"
  shows "newchardevbase_write u n s = Inl OutOfBounds \<longleftrightarrow> 100 < n"
  using assms by (simp add: newchardevbase_write_def bindF_Inl from_user_Inl)

lemma newchr_write_overflow_witness:
  "newchardevbase_write \<lparr>not_copied = 0, moved = replicate 101 CHR ''a''\<rparr> 101 (replicate 100 NUL) = Inl OutOfBounds"
  by (subst newchr_write_overflow) simp_all

end
