(* ===== verification/Mutex_Dev.thy ===== *)
theory Mutex_Dev
  imports Char_Device Driver_Lifecycle
begin

text \<open>
  \<open>mutex/mutex.c\<close>: a device over a 1024-byte buffer from \<open>kmalloc\<close>, guarded by
  \<open>resource_mutex\<close>. Both handlers log the buffer with \<open>%s\<close>, so they need a terminator in it
  (\<open>str_arg\<close>). \<open>min(count, 1024UL)\<close> bounds every copy.
\<close>

record mutex_env =
  alloc_chrdev_region_ret :: int
  alloc_chrdev_region_dev :: dev_t
  cdev_add_ret :: int
  kmalloc_ret :: "char list option"  \<comment> \<open>the fresh memory, with whatever it holds\<close>

record mutex_dev =
  major :: int
  shared_resource :: "char list"

definition my_open :: "int \<times> kev list" where
  "my_open = (0, [pr_info (''Device opened'' @ [NL])])"

definition my_release :: "int \<times> kev list" where
  "my_release = (0, [pr_info (''Device closed'' @ [NL])])"

definition my_init :: "mutex_env \<Rightarrow> int \<times> mutex_dev \<times> kev list" where
  "my_init e =
     (let ret = alloc_chrdev_region_ret e; dev_id = alloc_chrdev_region_dev e;
          t1 = [Get (ChrdevRegion dev_id 1) ret] in
      if ret < 0 then
        (ret, \<lparr>major = 0, shared_resource = []\<rparr>,
         t1 @ [pr_err (''Failed to allocate character device region'' @ [NL])])
      else
      let t2 = t1 @ [pr_info (''Major number: '' @ dec (MAJOR dev_id) @ [NL]), Get Cdev (cdev_add_ret e)] in
      if cdev_add_ret e < 0 then
        (cdev_add_ret e, \<lparr>major = MAJOR dev_id, shared_resource = []\<rparr>,
         t2 @ [Put (ChrdevRegion dev_id 1), pr_err (''Failed to add character device'' @ [NL])])
      else
      (case kmalloc_ret e of
         None \<Rightarrow>
           (- ENOMEM, \<lparr>major = MAJOR dev_id, shared_resource = []\<rparr>,
            t2 @ [Get Kmem (- ENOMEM), Put Cdev, Put (ChrdevRegion dev_id 1),
                  pr_err (''Failed to allocate shared resource'' @ [NL])])
       | Some mem \<Rightarrow>
           (0, \<lparr>major = MAJOR dev_id, shared_resource = mem\<rparr>,
            t2 @ [Get Kmem 0, pr_info (''Driver loaded successfully'' @ [NL])])))"

definition my_exit :: "mutex_dev \<Rightarrow> kev list" where
  "my_exit s =
     [Put Kmem, Put Cdev, Put (ChrdevRegion (MKDEV (major s) 0) 1),
      pr_info (''Driver unloaded successfully'' @ [NL])]"

definition my_read :: "nat \<Rightarrow> nat \<Rightarrow> mutex_dev \<Rightarrow> fault + (int \<times> char list \<times> kev list)" where
  \<comment> \<open>\<open>count\<close>, what \<open>copy_to_user\<close> returns, the device; gives the bytes put into user memory\<close>
  "my_read count ret s =
     (let bs = take (min count 1024 - ret) (shared_resource s) in
      if ret = 0 then
        bindF (str_arg (shared_resource s)) (\<lambda>str.
          Inr (1024, bs, [Get Mutex 0, pr_info (''Read successful:'' @ str @ [NL]), Put Mutex]))
      else
        Inr (- EFAULT, bs,
          [Get Mutex 0, pr_err (''Failed to copy data to user space'' @ [NL]), Put Mutex]))"

definition my_write :: "ucopy \<Rightarrow> nat \<Rightarrow> mutex_dev \<Rightarrow> fault + (int \<times> mutex_dev \<times> kev list)" where
  "my_write u count s =
     bindF (from_user (shared_resource s) u (min count 1024)) (\<lambda>b.
      if not_copied u = 0 then
        bindF (str_arg b) (\<lambda>str.
          Inr (int count, s\<lparr>shared_resource := b\<rparr>,
            [Get Mutex 0, pr_info (''Write successful:'' @ str @ [NL]), Put Mutex]))
      else
        Inr (- EFAULT, s\<lparr>shared_resource := b\<rparr>,
          [Get Mutex 0, pr_err (''Failed to copy data from user space'' @ [NL]), Put Mutex]))"

text \<open>
  The kernel's documentation of the calls of \<open>my_init\<close>: 0 or a negative errno, the first minor
  of the region is the one asked for (0), the memory has the size asked for.
\<close>

definition mutex_env_ok :: "mutex_env \<Rightarrow> bool" where
  "mutex_env_ok e \<longleftrightarrow>
     alloc_chrdev_region_ret e \<le> 0 \<and> cdev_add_ret e \<le> 0 \<and> MINOR (alloc_chrdev_region_dev e) = 0 \<and>
     (\<forall>m. kmalloc_ret e = Some m \<longrightarrow> length m = 1024)"

lemma my_init_cases:
  assumes "my_init e = (ret, s, t)" "mutex_env_ok e"
  obtains (fail) "ret < 0" "balanced t"
    | (ok) d where "ret = 0" "major s = MAJOR d" "MINOR d = 0" "length (shared_resource s) = 1024"
        "lifo [] t = Some [Kmem, Cdev, ChrdevRegion d 1]"
  using assms
  by (auto simp: my_init_def mutex_env_ok_def balanced_def Let_def split: if_splits option.splits)

lemma my_init_exit:
  assumes "mutex_env_ok e" "my_init e = (0, s, t)"
  shows "replay [] (t @ my_exit s) = Some []"
  using assms(2,1)
proof (cases rule: my_init_cases)
  case (ok d)
  then have "MKDEV (major s) 0 = d" by (cases d) simp
  then show ?thesis using lifo_replay [OF ok(5)]
    by (simp add: replay_append my_exit_def)
qed simp

lemma my_write_cells:
  assumes "my_write u n s = Inr (ret, s', t)"
  shows "from_user (shared_resource s) u (min n 1024) = Inr (shared_resource s')"
  using assms by (auto simp: my_write_def bindF_Inr split: if_splits)

lemma my_write_lock:
  "my_write u n s = Inr (ret, s', t) \<Longrightarrow> balanced t \<and> hd t = Get Mutex 0 \<and> last t = Put Mutex"
  by (auto simp: my_write_def bindF_Inr balanced_def split: if_splits)

lemma my_read_lock:
  "my_read n left s = Inr (ret, bs, t) \<Longrightarrow> balanced t \<and> hd t = Get Mutex 0 \<and> last t = Put Mutex"
  by (auto simp: my_read_def bindF_Inr balanced_def Let_def split: if_splits)

interpretation mutex_dev: char_device 1024 my_write my_read shared_resource
proof
  fix s :: mutex_dev and n u d ret s' t
  assume "n \<le> 1024" "ucopy_ok u d n" "not_copied u = 0" "my_write u n s = Inr (ret, s', t)"
  then show "shared_resource s' = take n d @ drop n (shared_resource s)"
    using my_write_cells [of u n s ret s' t] by (intro from_user_data) (simp_all add: min_absorb1)
next
  fix s :: mutex_dev and u n ret s' t
  assume "length (shared_resource s) = 1024" "my_write u n s = Inr (ret, s', t)"
  then show "length (shared_resource s') = 1024"
    using my_write_cells from_user_length by metis
qed (auto simp: my_read_def bindF_Inr Let_def)

interpretation mutex_drv: driver my_init my_exit mutex_env_ok
proof
  fix e ret s t
  assume ok: "mutex_env_ok e"
  show "my_init e = (ret, s, t) \<Longrightarrow> ret \<le> 0" and "my_init e = (ret, s, t) \<Longrightarrow> ret < 0 \<Longrightarrow> balanced t"
    using ok by (auto elim: my_init_cases)
  show "my_init e = (0, s, t) \<Longrightarrow> replay [] (t @ my_exit s) = Some []"
    by (rule my_init_exit [OF ok])
qed

section \<open>Properties\<close>

text \<open>
  No sequence of loads and unloads of the mutex driver leaks memory or a registration,
  whichever of its kernel calls fail.
\<close>

theorem mutex_no_leak:
  assumes "\<And>e. e \<in> set es \<Longrightarrow> mutex_env_ok e"
  shows "replay [] (lifecycles my_init my_exit es) = Some []"
  by (rule mutex_drv.no_leak [OF assms])

definition demo_mutex_env :: mutex_env where
  "demo_mutex_env = \<lparr>alloc_chrdev_region_ret = 0, alloc_chrdev_region_dev = MKDEV 240 0, cdev_add_ret = 0,
     kmalloc_ret = Some (replicate 1024 NUL)\<rparr>"

lemma mutex_no_leak_witness:
  "replay [] (lifecycles my_init my_exit [demo_mutex_env, demo_mutex_env\<lparr>kmalloc_ret := None\<rparr>]) = Some []"
  by (rule mutex_no_leak) (auto simp: demo_mutex_env_def mutex_env_ok_def)

text \<open>
  A read delivers what the last complete write of at most 1024 bytes put into the shared
  buffer.
\<close>

theorem mutex_write_read:
  assumes "length (shared_resource s) = 1024" "n \<le> 1024" "ucopy_ok u d n" "not_copied u = 0" "m \<le> n"
    and "my_write u n s = Inr (ret, s', t)" "my_read m 0 s' = Inr (ret', bs, t')"
  shows "take m bs = take m d"
  by (rule mutex_dev.write_read [OF assms(1-4,6,7,5)])

lemma mutex_write_read_witness:
  "\<exists>s' t bs t'. my_write \<lparr>not_copied = 0, moved = ''ab''\<rparr> 2 \<lparr>major = 1, shared_resource = replicate 1024 NUL\<rparr> =
       Inr (2, s', t) \<and> my_read 2 0 s' = Inr (1024, bs, t') \<and> take 2 bs = ''ab''"
proof -
  let ?s = "\<lparr>major = 1, shared_resource = replicate 1024 NUL\<rparr> :: mutex_dev"
  let ?u = "\<lparr>not_copied = 0, moved = ''ab''\<rparr> :: ucopy"
  have b: "from_user (shared_resource ?s) ?u 2 = Inr (''ab'' @ replicate 1022 NUL)"
    by (simp add: from_user_def)
  obtain s' t where w: "my_write ?u 2 ?s = Inr (2, s', t)" "shared_resource s' = ''ab'' @ replicate 1022 NUL"
    using b by (simp add: my_write_def str_arg_def)
  obtain bs t' where r: "my_read 2 0 s' = Inr (1024, bs, t')"
    by (simp add: my_read_def w(2) str_arg_def Let_def)
  have "ucopy_ok ?u ''ab'' 2" by (simp add: ucopy_ok_def)
  from mutex_write_read [OF _ _ this _ _ w(1) r] w r show ?thesis by auto
qed

text \<open>
  Both handlers hold the mutex from their first to their last action and release it on every
  path that returns.
\<close>

theorem mutex_handlers_lock:
  "(my_write u n s = Inr (ret, s', t) \<longrightarrow> balanced t \<and> hd t = Get Mutex 0 \<and> last t = Put Mutex) \<and>
   (my_read n left s = Inr (ret, bs, t) \<longrightarrow> balanced t \<and> hd t = Get Mutex 0 \<and> last t = Put Mutex)"
  using my_write_lock [of u n s ret s' t] my_read_lock [of n left s ret bs t] by blast

lemma mutex_handlers_lock_witness:
  "\<exists>t. my_read 5 1 \<lparr>major = 1, shared_resource = replicate 1024 NUL\<rparr> = Inr (- EFAULT, replicate 4 NUL, t) \<and>
     balanced t \<and> last t = Put Mutex"
proof -
  obtain t where "my_read 5 1 \<lparr>major = 1, shared_resource = replicate 1024 NUL\<rparr> = Inr (- EFAULT, replicate 4 NUL, t)"
    by (simp add: my_read_def Let_def)
  then show ?thesis using mutex_handlers_lock by metis
qed

text \<open>
  A write that fills the buffer without a terminator makes the driver read past its end: the
  handler logs the buffer with \<open>%s\<close>.
\<close>

theorem mutex_write_overread:
  assumes "length (shared_resource s) = 1024" "n \<le> 1024" "ucopy_ok u d n" "not_copied u = 0"
  shows "my_write u n s = Inl OutOfBounds \<longleftrightarrow> NUL \<notin> set (take n d @ drop n (shared_resource s))"
proof -
  obtain b where b: "from_user (shared_resource s) u n = Inr b"
    using assms(1,2) by (simp add: from_user_def)
  have "b = take n d @ drop n (shared_resource s)" by (rule from_user_data [OF b assms(3,4)])
  with b show ?thesis using assms(2,4)
    by (auto simp: my_write_def min_absorb1 str_arg_def)
qed

lemma mutex_write_overread_witness:
  "my_write \<lparr>not_copied = 0, moved = replicate 1024 CHR ''a''\<rparr> 1024 \<lparr>major = 1, shared_resource = replicate 1024 NUL\<rparr>
     = Inl OutOfBounds"
  by (subst mutex_write_overread [of _ _ _ "replicate 1024 CHR ''a''"]) (simp_all add: ucopy_ok_def)

end
