(* ===== verification/Ioctl_Dev.thy ===== *)
theory Ioctl_Dev
  imports Char_Device Driver_Lifecycle "HOL-Library.Word"
begin

text \<open>
  \<open>ioctl_device/my_device.c\<close>: a device with one integer, set, read and shown by \<open>ioctl\<close>. The
  value is a C \<open>int\<close>, a 32-bit word; the command numbers are those \<open>_IOR\<close> builds.
\<close>

definition IOR :: "nat \<Rightarrow> nat \<Rightarrow> nat \<Rightarrow> nat" where
  \<comment> \<open>\<open>_IOR(type, nr, t)\<close>: direction 2, the size of \<open>t\<close>, the type, the number\<close>
  "IOR ty nr sz = 2 * 2 ^ 30 + sz * 2 ^ 16 + ty * 2 ^ 8 + nr"

definition IOCTL_SET_VALUE :: nat where "IOCTL_SET_VALUE = IOR (of_char CHR ''k'') 0 4"
definition IOCTL_GET_VALUE :: nat where "IOCTL_GET_VALUE = IOR (of_char CHR ''k'') 1 4"
definition IOCTL_SHOW_VALUE :: nat where "IOCTL_SHOW_VALUE = IOR (of_char CHR ''k'') 2 4"

record ioctl_arg =
  user_int :: "32 word option"  \<comment> \<open>the \<open>int\<close> at \<open>arg\<close>, when all of it is readable\<close>
  user_writable :: bool         \<comment> \<open>whether \<open>copy_to_user\<close> to \<open>arg\<close> succeeds\<close>

definition my_ioctl :: "nat \<Rightarrow> ioctl_arg \<Rightarrow> 32 word \<Rightarrow> int \<times> 32 word \<times> 32 word option \<times> kev list" where
  \<comment> \<open>gives the result, \<open>value\<close>, what is put into user memory, and the log\<close>
  "my_ioctl cmd arg value =
     (if cmd = IOCTL_SET_VALUE then
        (case user_int arg of
           None \<Rightarrow> (- EFAULT, value, None, [])
         | Some tmp \<Rightarrow> (0, tmp, None, []))
      else if cmd = IOCTL_GET_VALUE then
        (if \<not> user_writable arg then (- EFAULT, value, None, []) else (0, value, Some value, []))
      else if cmd = IOCTL_SHOW_VALUE then
        (0, value, None, [printk (''value is:'' @ dec (uint value) @ [NL])])
      else (- ENOTTY, value, None, []))"

fun ioctl_seq :: "(nat \<times> ioctl_arg) list \<Rightarrow> 32 word \<Rightarrow> 32 word" where
  "ioctl_seq [] value = value"
| "ioctl_seq ((cmd, arg) # cs) value = ioctl_seq cs (fst (snd (my_ioctl cmd arg value)))"

section \<open>Init and exit\<close>

record my_driver_env =
  alloc_ret :: int
  alloc_dev :: dev_t
  cdev_add_err :: int
  class_create_err :: int   \<comment> \<open>0, or the errno in the error pointer\<close>
  device_create_err :: int

definition my_driver_init :: "my_driver_env \<Rightarrow> int \<times> dev_t \<times> kev list" where
  "my_driver_init e =
     (let dev = alloc_dev e; t1 = [Get (ChrdevRegion dev 1) (alloc_ret e)] in
      if alloc_ret e < 0 then (- 1, dev, t1)
      else
      let t2 = t1 @ [Get Cdev (cdev_add_err e)] in
      if cdev_add_err e = - 1 then (- 1, dev, t2 @ [Put (ChrdevRegion dev 1)])
      else
        (0, dev, t2 @ [Get Class (class_create_err e), Get (Device dev) (device_create_err e),
                       printk (''my_device init'' @ [NL])]))"

definition my_driver_exit :: "dev_t \<Rightarrow> kev list" where
  \<comment> \<open>\<open>class_destroy\<close> is \<open>class_unregister\<close> of a class that is not an error pointer\<close>
  "my_driver_exit dev = [Put (Device dev), Put Class, Put Class, Put Cdev, Put (ChrdevRegion dev 1)]"

section \<open>Lemmas\<close>

lemma ioctl_numbers:
  "IOCTL_SET_VALUE = 0x80046B00" "IOCTL_GET_VALUE = 0x80046B01" "IOCTL_SHOW_VALUE = 0x80046B02"
  by (simp_all add: IOCTL_SET_VALUE_def IOCTL_GET_VALUE_def IOCTL_SHOW_VALUE_def IOR_def)

lemma ioctl_seq_append: "ioctl_seq (a @ b) v = ioctl_seq b (ioctl_seq a v)"
  by (induction a v rule: ioctl_seq.induct) simp_all

lemma my_ioctl_other_keeps:
  "cmd \<noteq> IOCTL_SET_VALUE \<or> user_int arg = None \<Longrightarrow> fst (snd (my_ioctl cmd arg v)) = v"
  by (auto simp: my_ioctl_def)

lemma ioctl_seq_keeps:
  "\<forall>(cmd, arg) \<in> set cs. cmd \<noteq> IOCTL_SET_VALUE \<or> user_int arg = None \<Longrightarrow> ioctl_seq cs v = v"
proof (induction cs arbitrary: v)
  case (Cons c cs)
  obtain cmd arg where c: "c = (cmd, arg)" by (cases c)
  then have "fst (snd (my_ioctl cmd arg v)) = v" using Cons.prems by (intro my_ioctl_other_keeps) auto
  then show ?case using Cons.IH [of v] Cons.prems c by simp
qed simp

section \<open>Properties\<close>

text \<open>
  \<open>IOCTL_GET_VALUE\<close> returns the 32-bit value of the last \<open>IOCTL_SET_VALUE\<close> that could read its
  argument, whatever other commands, unknown ones and failed ones included, come between.
\<close>

theorem ioctl_get_last_set:
  assumes "user_int a = Some v" "user_writable g"
    and "\<forall>(cmd, arg) \<in> set cs. cmd \<noteq> IOCTL_SET_VALUE \<or> user_int arg = None"
  shows "my_ioctl IOCTL_GET_VALUE g (ioctl_seq (before @ (IOCTL_SET_VALUE, a) # cs) x) = (0, v, Some v, [])"
proof -
  have "ioctl_seq (before @ (IOCTL_SET_VALUE, a) # cs) x = v"
    using ioctl_seq_keeps [OF assms(3), of v] assms(1) by (simp add: ioctl_seq_append my_ioctl_def)
  then show ?thesis using assms(2) by (simp add: my_ioctl_def ioctl_numbers)
qed

lemma ioctl_get_last_set_witness:
  "my_ioctl IOCTL_GET_VALUE \<lparr>user_int = None, user_writable = True\<rparr>
     (ioctl_seq ([(IOCTL_SET_VALUE, \<lparr>user_int = Some 7, user_writable = True\<rparr>)] @
       (IOCTL_SET_VALUE, \<lparr>user_int = Some 9, user_writable = True\<rparr>) #
       [(IOCTL_SHOW_VALUE, \<lparr>user_int = Some 1, user_writable = True\<rparr>), (0, \<lparr>user_int = Some 1, user_writable = True\<rparr>)]) 0)
     = (0, 9, Some 9, [])"
  by (rule ioctl_get_last_set) (simp_all add: ioctl_numbers)

text \<open>
  Unloading the ioctl driver after a load in which every kernel call succeeded releases the
  class twice, since \<open>class_destroy\<close> follows \<open>class_unregister\<close>; and a \<open>cdev_add\<close> that fails with
  any errno but \<open>-1\<close> does not stop the load.
\<close>

theorem ioctl_driver_unload:
  "(alloc_ret e = 0 \<and> cdev_add_err e = 0 \<and> class_create_err e = 0 \<and> device_create_err e = 0 \<longrightarrow>
      replay [] (lifecycles my_driver_init my_driver_exit [e]) = None) \<and>
   (alloc_ret e = 0 \<and> cdev_add_err e \<noteq> - 1 \<longrightarrow> fst (my_driver_init e) = 0)"
  by (auto simp: my_driver_init_def my_driver_exit_def Let_def)

lemma ioctl_driver_unload_witness:
  "fst (my_driver_init \<lparr>alloc_ret = 0, alloc_dev = MKDEV 240 0, cdev_add_err = - ENOMEM, class_create_err = 0,
     device_create_err = 0\<rparr>) = 0"
  using ioctl_driver_unload [of "\<lparr>alloc_ret = 0, alloc_dev = MKDEV 240 0, cdev_add_err = - ENOMEM,
    class_create_err = 0, device_create_err = 0\<rparr>"] by simp

end
