(* ===== verification/Dts_Led.thy ===== *)
theory Dts_Led
  imports Char_Device Driver_Lifecycle
begin

unbundle bit_operations_syntax

text \<open>
  \<open>dtsofled/dtsofled.c\<close>: a LED behind the data register of a GPIO port. The register is a 32-bit
  word; the addresses come from the device tree, whose contents are arguments of the model, like
  the outcomes of the other kernel calls. The five mapped pointers are part of the state: static,
  so \<open>NULL\<close> (\<open>None\<close>) until init maps the registers, and a register that is read through \<open>NULL\<close>
  is a fault.
\<close>

definition DTSLED_CNT :: nat where "DTSLED_CNT = 1"
definition LEDOFF :: "8 word" where "LEDOFF = 0"
definition LEDON :: "8 word" where "LEDON = 1"

record ioregs =   \<comment> \<open>the static pointers: the physical address each one maps\<close>
  IMX6U_CCM_CCGR1 :: "32 word option"
  SW_MUX_GPIO1_I003 :: "32 word option"
  SW_PAD_GPIO1_I003 :: "32 word option"
  GPIO1_DR :: "32 word option"
  GPIO1_GDIR :: "32 word option"

record dtsled_dev = ioregs +
  devid :: dev_t
  major :: int
  minor :: int

definition at_dr :: "('a ioregs_scheme) \<Rightarrow> (32 word \<Rightarrow> 32 word) \<Rightarrow> 32 word \<Rightarrow> fault + 32 word" where
  \<comment> \<open>\<open>readl\<close> of \<open>GPIO1_DR\<close>, a change of the value and \<open>writel\<close>; \<open>dr\<close> is what the register holds\<close>
  "at_dr c f dr = (case GPIO1_DR c of None \<Rightarrow> Inl NullDeref | Some _ \<Rightarrow> Inr (f dr))"

definition led_switch :: "dtsled_dev \<Rightarrow> 8 word \<Rightarrow> 32 word \<Rightarrow> fault + 32 word" where
  "led_switch c sta dr =
     (if sta = LEDON then at_dr c (\<lambda>val. val AND NOT (push_bit 3 1)) dr
      else if sta = LEDOFF then at_dr c (\<lambda>val. val OR push_bit 3 1) dr
      else Inr dr)"

definition dtsled_open :: int where "dtsled_open = 0"
definition dtsled_release :: int where "dtsled_release = 0"

definition dtsled_read :: "nat \<Rightarrow> int \<times> char list" where
  "dtsled_read cnt = (0, [])"

definition dtsled_write :: "dtsled_dev \<Rightarrow> ucopy \<Rightarrow> (nat \<Rightarrow> char option) \<Rightarrow> nat \<Rightarrow> 32 word \<Rightarrow>
    fault + (int \<times> 32 word)" where
  \<comment> \<open>\<open>direct i\<close>: what the kernel reads at \<open>buf[i]\<close> without \<open>copy_from_user\<close>, \<open>None\<close> when the
    processor refuses; the one-byte \<open>databuf\<close> is filled and not used\<close>
  "dtsled_write c u direct cnt dr =
     bindF (from_user [NUL] u cnt) (\<lambda>databuf.
       let retvalue = int (not_copied u) in
       if retvalue < 0 then Inr (- EFAULT, dr)
       else case direct 0 of None \<Rightarrow> Inl UserDeref
         | Some b \<Rightarrow> bindF (led_switch c (of_char b) dr) (\<lambda>dr'. Inr (0, dr')))"

section \<open>Init and exit\<close>

record dtsled_env =
  alloc_region_ret :: int
  alloc_region_dev :: dev_t
  cdev_ret :: int
  class_err :: "int option"     \<comment> \<open>the errno of an error pointer\<close>
  device_err :: "int option"
  node_found :: bool
  status_prop :: "int + string"
  compatible_prop :: "int + string"
  reg_prop :: "nat \<Rightarrow> int + 32 word list"
    \<comment> \<open>\<open>of_property_read_u32_array\<close> for a number of elements\<close>
  stack_regdata :: "32 word list"  \<comment> \<open>what the uninitialised \<open>u32 regdata[10]\<close> holds\<close>
  ioremap_ok :: "32 word \<Rightarrow> 32 word \<Rightarrow> bool"   \<comment> \<open>of an address and a size\<close>

definition err_of :: "int option \<Rightarrow> int" where
  "err_of p = (case p of None \<Rightarrow> 0 | Some e \<Rightarrow> e)"

definition led_fail_cdev :: "dtsled_dev \<Rightarrow> kev list" where
  "led_fail_cdev c = [Put (ChrdevRegion (devid c) DTSLED_CNT)]"

definition led_fail_class :: "dtsled_dev \<Rightarrow> kev list" where
  "led_fail_class c = Put Cdev # led_fail_cdev c"

definition led_fail_device :: "dtsled_dev \<Rightarrow> kev list" where
  "led_fail_device c = Put Class # led_fail_class c"

definition fail_findnd :: "dtsled_dev \<Rightarrow> kev list" where
  \<comment> \<open>also \<open>fail_rs\<close>\<close>
  "fail_findnd c = Put (Device (devid c)) # led_fail_device c"

definition node_msg :: kev where
  "node_msg = pr_alert (''dts node not found!'' @ [NL])"

definition store_regdata :: "32 word list \<Rightarrow> 32 word list \<Rightarrow> fault + 32 word list" where
  \<comment> \<open>words written to the array \<open>regdata\<close>, from its first element on\<close>
  "store_regdata regdata ws =
     (if length ws > length regdata then Inl OutOfBounds else Inr (ws @ drop (length ws) regdata))"

definition reg_lines :: "32 word list \<Rightarrow> kev list" where
  "reg_lines regdata =
     map (\<lambda>i. pr_alert (''reg['' @ dec (int i) @ '']: '' @ hex_nat (unat (regdata ! i)) @ [NL])) [0..<10]"

definition ioremap :: "dtsled_env \<Rightarrow> 32 word list \<Rightarrow> nat \<Rightarrow> 32 word option" where
  \<comment> \<open>\<open>ioremap(regdata[2i], regdata[2i + 1])\<close>\<close>
  "ioremap e regdata i =
     (if ioremap_ok e (regdata ! (2 * i)) (regdata ! (2 * i + 1)) then Some (regdata ! (2 * i)) else None)"

definition led_ioremap :: "dtsled_env \<Rightarrow> 32 word list \<Rightarrow> dtsled_dev \<Rightarrow> dtsled_dev \<times> kev list" where
  "led_ioremap e regdata c =
     (c\<lparr>IMX6U_CCM_CCGR1 := ioremap e regdata 0, SW_MUX_GPIO1_I003 := ioremap e regdata 1,
        SW_PAD_GPIO1_I003 := ioremap e regdata 2, GPIO1_DR := ioremap e regdata 3,
        GPIO1_GDIR := ioremap e regdata 4\<rparr>,
      map (\<lambda>i. Get (IoMap i) (if ioremap e regdata i = None then - ENOMEM else 0)) [0..<5])"

definition dtsofled_dts :: "dtsled_env \<Rightarrow> dtsled_dev \<Rightarrow> int \<Rightarrow> fault + (int \<times> dtsled_dev \<times> kev list)" where
  \<comment> \<open>from the node lookup on; \<open>ret\<close> is the value the variable has before\<close>
  "dtsofled_dts e c ret =
     (if \<not> node_found e then Inr (ret, c, Get DtNode (- ENODEV) # node_msg # fail_findnd c)
      else
      (case status_prop e of
         Inl err \<Rightarrow> Inr (err, c, [Get DtNode 0, node_msg] @ fail_findnd c)
       | Inr status \<Rightarrow>
         let t1 = [Get DtNode 0, pr_alert (''status: '' @ status @ [NL])] in
         (case compatible_prop e of
            Inl err \<Rightarrow> Inr (err, c, t1 @ node_msg # fail_findnd c)
          | Inr cstring \<Rightarrow>
            let t2 = t1 @ [pr_alert (''compatible: '' @ cstring @ [NL])] in
            (case reg_prop e (4 * 10) of
               Inl err \<Rightarrow> Inr (err, c, t2 @ node_msg # fail_findnd c)
             | Inr ws \<Rightarrow> bindF (store_regdata (stack_regdata e) ws) (\<lambda>regdata.
                 let (c, tm) = led_ioremap e regdata c in
                 Inr (0, c, t2 @ [printk (''reg data'' @ [NL])] @ reg_lines regdata @ tm))))))"

definition dtsofled_init :: "dtsled_env \<Rightarrow> fault + (int \<times> dtsled_dev \<times> kev list)" where
  "dtsofled_init e =
     (let c = \<lparr>IMX6U_CCM_CCGR1 = None, SW_MUX_GPIO1_I003 = None, SW_PAD_GPIO1_I003 = None,
               GPIO1_DR = None, GPIO1_GDIR = None,
               devid = alloc_region_dev e, major = MAJOR (alloc_region_dev e),
               minor = MINOR (alloc_region_dev e)\<rparr>;
          t1 = [Get (ChrdevRegion (devid c) DTSLED_CNT) (alloc_region_ret e)] in
      if alloc_region_ret e < 0 then Inr (alloc_region_ret e, c, t1)
      else
      let t2 = t1 @ [Get Cdev (cdev_ret e)] in
      if cdev_ret e < 0 then Inr (cdev_ret e, c, t2 @ led_fail_cdev c)
      else
      let t3 = t2 @ [Get Class (err_of (class_err e))] in
      (case class_err e of Some err \<Rightarrow> Inr (err, c, t3 @ led_fail_class c)
       | None \<Rightarrow>
      let t4 = t3 @ [Get (Device (devid c)) (err_of (device_err e))] in
      (case device_err e of Some err \<Rightarrow> Inr (err, c, t4 @ led_fail_device c)
       | None \<Rightarrow>
         bindF (dtsofled_dts e c (cdev_ret e)) (\<lambda>(ret, c, t). Inr (ret, c, t4 @ t)))))"

definition iounmaps :: "dtsled_dev \<Rightarrow> kev list" where
  \<comment> \<open>\<open>iounmap\<close> of the five pointers; of \<open>NULL\<close> it does nothing\<close>
  "iounmaps c =
     map (\<lambda>(i, p). Put (IoMap i))
       (filter (\<lambda>(i, p). p \<noteq> None)
         [(0, IMX6U_CCM_CCGR1 c), (1, SW_MUX_GPIO1_I003 c), (2, SW_PAD_GPIO1_I003 c),
          (3, GPIO1_DR c), (4, GPIO1_GDIR c)])"

definition dtsofled_exit :: "dtsled_dev \<Rightarrow> 32 word \<Rightarrow> fault + (32 word \<times> kev list)" where
  "dtsofled_exit c dr = bindF (at_dr c (\<lambda>val. val OR push_bit 3 1) dr) (\<lambda>dr'. Inr (dr',
      iounmaps c @
      [Put Cdev, Put (ChrdevRegion (devid c) DTSLED_CNT), Put (Device (devid c)), Put Class,
       pr_alert (''dtsofled exit ok!'' @ [NL])]))"

section \<open>Lemmas\<close>

lemma bit3: "bit (push_bit 3 (1 :: 32 word)) k \<longleftrightarrow> k = 3"
  by (simp only: push_bit_of_1 bit_exp_iff) auto

lemma at_dr_Inr: "at_dr c f dr = Inr v \<longleftrightarrow> GPIO1_DR c \<noteq> None \<and> v = f dr"
  by (auto simp: at_dr_def split: option.split)

lemma at_dr_Inl: "at_dr c f dr = Inl e \<longleftrightarrow> GPIO1_DR c = None \<and> e = NullDeref"
  by (auto simp: at_dr_def split: option.split)

lemma led_switch_bit:
  assumes "led_switch c sta dr = Inr dr'"
  shows "bit dr' n \<longleftrightarrow>
     (if n = 3 then (if sta = LEDON then False else if sta = LEDOFF then True else bit dr n) else bit dr n)"
proof -
  define m where "m = push_bit 3 (1 :: 32 word)"
  have bm: "bit m k \<longleftrightarrow> k = 3" for k by (simp only: m_def bit3)
  show ?thesis using assms unfolding led_switch_def m_def [symmetric]
    by (auto simp: at_dr_Inr bit_and_iff bit_or_iff bit_not_iff bm LEDON_def LEDOFF_def
        dest: bit_imp_le_length split: if_splits)
qed

lemma led_switch_idem:
  assumes "led_switch c sta dr = Inr dr'"
  shows "led_switch c sta dr' = Inr dr'"
proof (cases "led_switch c sta dr'")
  case (Inr dr'')
  have "dr'' = dr'"
    by (rule bit_word_eqI) (simp add: led_switch_bit [OF assms] led_switch_bit [OF Inr])
  with Inr show ?thesis by simp
next
  case (Inl f)
  then show ?thesis using assms by (auto simp: led_switch_def at_dr_Inr at_dr_Inl split: if_splits)
qed

lemma led_switch_returns: "GPIO1_DR c \<noteq> None \<Longrightarrow> \<exists>dr'. led_switch c sta dr = Inr dr'"
  by (auto simp: led_switch_def at_dr_Inr)

lemma dtsled_write_bits:
  \<comment> \<open>a write of at most one byte sets the LED's bit by the byte, and no other bit\<close>
  assumes "GPIO1_DR c \<noteq> None" "cnt \<le> 1" "direct 0 = Some b"
  obtains dr' where "dtsled_write c u direct cnt dr = Inr (0, dr')"
    and "\<And>n. bit dr' n \<longleftrightarrow>
      (if n = 3 then (if of_char b = LEDON then False else if of_char b = LEDOFF then True else bit dr n)
       else bit dr n)"
proof -
  obtain dr' where sw: "led_switch c (of_char b) dr = Inr dr'"
    using led_switch_returns [OF assms(1)] by blast
  have "dtsled_write c u direct cnt dr = Inr (0, dr')"
    using assms sw by (simp add: dtsled_write_def from_user_def)
  then show ?thesis using that led_switch_bit [OF sw] by blast
qed

lemma dtsled_write_overrun: "1 < cnt \<Longrightarrow> dtsled_write c u direct cnt dr = Inl OutOfBounds"
  by (simp add: dtsled_write_def from_user_def)

lemma dtsofled_exit_Inr:
  "dtsofled_exit c dr = Inr (dr', t) \<Longrightarrow> led_switch c LEDOFF dr = Inr dr'"
  by (auto simp: dtsofled_exit_def led_switch_def LEDON_def LEDOFF_def bindF_Inr)

lemma dtsofled_exit_unmapped: "GPIO1_DR c = None \<Longrightarrow> dtsofled_exit c dr = Inl NullDeref"
  by (simp add: dtsofled_exit_def at_dr_def)

text \<open>What the kernel documents of the calls: errors are negative, an array read gives all its elements.\<close>

definition dtsled_env_ok :: "dtsled_env \<Rightarrow> bool" where
  "dtsled_env_ok e \<longleftrightarrow>
     alloc_region_ret e \<le> 0 \<and> cdev_ret e \<le> 0 \<and>
     (\<forall>err. class_err e = Some err \<longrightarrow> err < 0) \<and> (\<forall>err. device_err e = Some err \<longrightarrow> err < 0) \<and>
     (\<forall>err. status_prop e = Inl err \<longrightarrow> err < 0) \<and> (\<forall>err. compatible_prop e = Inl err \<longrightarrow> err < 0) \<and>
     (\<forall>n err. reg_prop e n = Inl err \<longrightarrow> err < 0) \<and> (\<forall>n ws. reg_prop e n = Inr ws \<longrightarrow> length ws = n) \<and>
     length (stack_regdata e) = 10"

lemmas dtsled_defs = dtsofled_init_def dtsofled_dts_def led_fail_cdev_def led_fail_class_def
  led_fail_device_def fail_findnd_def node_msg_def err_of_def store_regdata_def Let_def

definition device_made :: "dtsled_env \<Rightarrow> bool" where
  "device_made e \<longleftrightarrow> alloc_region_ret e = 0 \<and> cdev_ret e = 0 \<and> class_err e = None \<and> device_err e = None"

lemma dtsofled_dts_cases:
  assumes "dtsled_env_ok e" "dtsofled_dts e c 0 = Inr (ret, c', t)"
  shows "c' = c" and "(ret < 0 \<and> node_found e \<and>
      replay [Device (devid c), Class, Cdev, ChrdevRegion (devid c) DTSLED_CNT] t = Some [DtNode]) \<or>
    (ret = 0 \<and> \<not> node_found e \<and>
      replay [Device (devid c), Class, Cdev, ChrdevRegion (devid c) DTSLED_CNT] t = Some [])"
  using assms
  by (auto simp: dtsled_env_ok_def dtsled_defs bindF_Inr split: if_splits sum.splits)

lemma dtsofled_dts_fault:
  "dtsled_env_ok e \<Longrightarrow> dtsofled_dts e c r = Inl f \<Longrightarrow>
   f = OutOfBounds \<and> node_found e \<and> (\<exists>ws. reg_prop e 40 = Inr ws)"
  by (auto simp: dtsled_defs bindF_Inl split: if_splits sum.splits prod.splits)

section \<open>Properties\<close>

text \<open>
  C40: loading the LED driver never succeeds. \<open>sizeof(regdata)\<close> is passed as a number of elements:
  either the property \<open>reg\<close> has the 40 words asked for, and the read overruns the 10-word array,
  or some call fails and init undoes the registrations. Then it returns a negative errno, keeping
  the reference to the node when it had found one; but when the node is missing it returns 0,
  which makes the loader keep a module that has nothing registered; none of its register pointers
  is set, so unloading it reads the data register through \<open>NULL\<close>.
\<close>

theorem dtsofled_init_outcomes:
  assumes "dtsled_env_ok e"
  shows "case dtsofled_init e of
      Inl f \<Rightarrow> f = OutOfBounds \<and> device_made e \<and> node_found e \<and> (\<exists>ws. reg_prop e 40 = Inr ws)
    | Inr (ret, c, t) \<Rightarrow>
        (if device_made e \<and> node_found e then ret < 0 \<and> replay [] t = Some [DtNode]
         else if device_made e then ret = 0 \<and> replay [] t = Some [] \<and> dtsofled_exit c dr = Inl NullDeref
         else ret < 0 \<and> replay [] t = Some [])"
proof (cases "device_made e")
  case True
  define c where "c = \<lparr>IMX6U_CCM_CCGR1 = None, SW_MUX_GPIO1_I003 = None, SW_PAD_GPIO1_I003 = None,
    GPIO1_DR = None, GPIO1_GDIR = None, devid = alloc_region_dev e, major = MAJOR (alloc_region_dev e),
    minor = MINOR (alloc_region_dev e)\<rparr>"
  let ?t = "[Get (ChrdevRegion (devid c) DTSLED_CNT) 0, Get Cdev 0, Get Class 0, Get (Device (devid c)) 0]"
  have init: "dtsofled_init e = bindF (dtsofled_dts e c 0) (\<lambda>(ret, c, t). Inr (ret, c, ?t @ t))"
    using True by (simp add: dtsofled_init_def device_made_def Let_def err_of_def c_def)
  have held: "replay [] (?t @ t) =
      replay [Device (devid c), Class, Cdev, ChrdevRegion (devid c) DTSLED_CNT] t" for t by simp
  have unmapped: "dtsofled_exit c dr = Inl NullDeref"
    by (simp add: dtsofled_exit_unmapped c_def)
  show ?thesis
  proof (cases "dtsofled_dts e c 0")
    case (Inl f)
    then show ?thesis using True dtsofled_dts_fault [OF assms Inl] by (simp add: init)
  next
    case (Inr r)
    obtain ret c' t where r: "r = (ret, c', t)" by (cases r)
    have "dtsofled_init e = Inr (ret, c, ?t @ t)"
      using Inr dtsofled_dts_cases(1) [OF assms, of c] by (simp add: init r)
    then show ?thesis
      using True dtsofled_dts_cases(2) [OF assms, of c] Inr held [of t] unmapped by (auto simp: r simp del: replay.simps)
  qed
next
  case False
  then show ?thesis using assms
    by (auto simp: dtsofled_init_def led_fail_cdev_def led_fail_class_def led_fail_device_def err_of_def
        Let_def device_made_def dtsled_env_ok_def split: option.split)
qed

definition demo_led_env :: dtsled_env where
  "demo_led_env = \<lparr>alloc_region_ret = 0, alloc_region_dev = MKDEV 240 0, cdev_ret = 0, class_err = None,
     device_err = None, node_found = True, status_prop = Inr ''okay'', compatible_prop = Inr ''led'',
     reg_prop = (\<lambda>n. if n \<le> 10 then Inr (replicate n 0) else Inl (- 75)),
     stack_regdata = replicate 10 0, ioremap_ok = (\<lambda>_ _. True)\<rparr>"

lemma dtsofled_init_outcomes_witness:
  "\<exists>ret c t. dtsofled_init demo_led_env = Inr (ret, c, t) \<and> ret < 0 \<and> replay [] t = Some [DtNode]"
proof -
  have "dtsled_env_ok demo_led_env"
    by (auto simp: dtsled_env_ok_def demo_led_env_def split: if_splits)
  note out = dtsofled_init_outcomes [OF this]
  have "device_made demo_led_env" "node_found demo_led_env" "reg_prop demo_led_env 40 = Inl (- 75)"
    by (simp_all add: demo_led_env_def device_made_def)
  with out show ?thesis by (cases "dtsofled_init demo_led_env") auto
qed

end
