(* ===== verification/Threads.thy ===== *)
theory Threads
  imports Kernel_Events
begin

text \<open>
  Machines of several threads. \<open>act a s\<close> is what the action \<open>a\<close> (a thread, and what it does) does in
  the state \<open>s\<close>: \<open>None\<close> while it cannot move, else the next state or a fault. \<open>reach\<close> are the states
  of all interleavings of the allowed actions, \<open>run_acts\<close> is one schedule, and the locale \<open>machine\<close> is
  the rule for invariants, interpreted by each machine. \<open>num\<close> counts the threads at a place.
\<close>

section \<open>Reachable states\<close>

inductive reach :: "('a \<Rightarrow> 's \<Rightarrow> (fault + 's) option) \<Rightarrow> ('a \<Rightarrow> bool) \<Rightarrow> 's \<Rightarrow> 's \<Rightarrow> bool" for act allowed s0 where
  reach_start: "reach act allowed s0 s0"
| reach_act: "reach act allowed s0 s \<Longrightarrow> allowed a \<Longrightarrow> act a s = Some (Inr s') \<Longrightarrow> reach act allowed s0 s'"

fun run_acts :: "('a \<Rightarrow> 's \<Rightarrow> (fault + 's) option) \<Rightarrow> 'a list \<Rightarrow> 's \<Rightarrow> 's option" where
  "run_acts act [] s = Some s"
| "run_acts act (a # as) s = (case act a s of Some (Inr s') \<Rightarrow> run_acts act as s' | _ \<Rightarrow> None)"

lemma run_acts_reach:
  "reach act allowed s0 s \<Longrightarrow> run_acts act as s = Some s' \<Longrightarrow> list_all allowed as \<Longrightarrow> reach act allowed s0 s'"
proof (induction as arbitrary: s)
  case (Cons a as)
  then show ?case by (auto split: option.splits sum.splits intro: reach_act)
qed simp

lemma run_acts_append: "run_acts act (as @ bs) s = (case run_acts act as s of None \<Rightarrow> None | Some s' \<Rightarrow> run_acts act bs s')"
  by (induction as arbitrary: s) (auto split: option.splits sum.splits)

locale machine =
  fixes act :: "'a \<Rightarrow> 's \<Rightarrow> (fault + 's) option"
    and allowed :: "'a \<Rightarrow> bool"
    and inv :: "'s \<Rightarrow> bool"
  assumes act_inv: "inv s \<Longrightarrow> allowed a \<Longrightarrow> act a s = Some (Inr s') \<Longrightarrow> inv s'"
begin

lemma reach_inv: "reach act allowed s0 s \<Longrightarrow> inv s0 \<Longrightarrow> inv s"
  by (induction rule: reach.induct) (auto intro: act_inv)

lemma fault_inv:
  assumes "reach act allowed s0 s" "inv s0" "\<And>s a f. inv s \<Longrightarrow> allowed a \<Longrightarrow> act a s \<noteq> Some (Inl f)" "allowed a"
  shows "act a s \<noteq> Some (Inl f)"
  by (rule assms(3) [OF reach_inv [OF assms(1,2)] assms(4)])

end

section \<open>Counting threads\<close>

fun num :: "nat \<Rightarrow> ('a \<Rightarrow> bool) \<Rightarrow> (nat \<Rightarrow> 'a) \<Rightarrow> nat" where
  "num 0 Q f = 0"
| "num (Suc n) Q f = num n Q f + (if Q (f n) then 1 else 0)"

lemma num_outside: "N \<le> j \<Longrightarrow> num N Q (f(j := x)) = num N Q f"
  by (induction N) auto

lemma num_update:
  "j < N \<Longrightarrow> num N Q (f(j := x)) + (if Q (f j) then 1 else 0) = num N Q f + (if Q x then 1 else 0)"
proof (induction N)
  case (Suc N)
  show ?case
  proof (cases "j = N")
    case True
    have "num N Q (f(j := x)) = num N Q f" using True by (intro num_outside) simp
    then show ?thesis using True by (simp only: num.simps fun_upd_same)
  next
    case False
    have 1: "num (Suc N) Q (f(j := x)) = num N Q (f(j := x)) + (if Q (f N) then 1 else 0)"
      using False by (simp only: num.simps fun_upd_other)
    have "j < N" using False Suc.prems by simp
    then have "num N Q (f(j := x)) + (if Q (f j) then 1 else 0) = num N Q f + (if Q x then 1 else 0)"
      by (rule Suc.IH)
    with 1 num.simps(2) [of N Q f] show ?thesis by linarith
  qed
qed simp

lemma num_pos: "j < N \<Longrightarrow> Q (f j) \<Longrightarrow> 0 < num N Q f"
  by (induction N) (auto simp: less_Suc_eq)

lemma num_two: "i < N \<Longrightarrow> j < N \<Longrightarrow> i \<noteq> j \<Longrightarrow> Q (f i) \<Longrightarrow> Q (f j) \<Longrightarrow> 1 < num N Q f"
proof (induction N)
  case (Suc N)
  then show ?case using num_pos [of i N Q f] num_pos [of j N Q f]
    by (auto simp: less_Suc_eq)
qed simp

lemma num_mono: "(\<And>x. Q x \<Longrightarrow> R x) \<Longrightarrow> num N Q f \<le> num N R f"
  by (induction N) (auto simp: add_le_mono)

lemma num_le_at: "(\<And>j. j < N \<Longrightarrow> Q (f j) \<Longrightarrow> R (g j)) \<Longrightarrow> num N Q f \<le> num N R g"
proof (induction N)
  case (Suc N)
  then have "num N Q f \<le> num N R g" by simp
  with Suc.prems [of N] show ?case by (auto intro: le_SucI)
qed simp

lemma num_all_false: "(\<And>x. \<not> Q (f x)) \<Longrightarrow> num N Q f = 0"
  by (induction N) auto

definition tok :: "('a \<Rightarrow> bool) \<Rightarrow> 'a \<Rightarrow> nat" where
  "tok Q pc = (if Q pc then 1 else 0)"

lemma num_move:
  "j < N \<Longrightarrow> num N Q (f(j := x)) + tok Q (f j) = num N Q f + tok Q x"
  using num_update [of j N Q f x] by (simp add: tok_def)

end
