(* ===== verification/Np_Nc.thy ===== *)
theory Np_Nc
  imports Threads
begin

text \<open>
  \<open>np-nc/np-nc.c\<close>: N producers and N consumers over a ring of \<open>BUF_NUM\<close> slots, with the
  semaphores \<open>s1\<close> (free slots), \<open>s2\<close> (filled slots) and \<open>mutex\<close>. One step is one statement
  of one thread, so every interleaving is a run; \<open>cflag++\<close>, which no lock guards, is a load and a
  store, and a \<open>printk\<close> is a step that reads what it prints. The semaphore operations are the kernel's: \<open>down\<close> is \<open>None\<close> while it blocks.
  \<open>produced\<close> and \<open>consumed\<close> are not in the code: they record the goods in the order they were
  put into and taken from the ring.
\<close>

definition PNUM :: nat where "PNUM = 5"
definition CNUM :: int where "CNUM = 5"
definition BUF_NUM :: nat where "BUF_NUM = 10"

record 's sem_api =
  sema_init :: "nat \<Rightarrow> 's"
  down :: "'s \<Rightarrow> 's option"
  up :: "'s \<Rightarrow> 's"
  count :: "'s \<Rightarrow> nat"

definition sem_ok :: "'s sem_api \<Rightarrow> bool" where
  "sem_ok api \<longleftrightarrow>
     (\<forall>n. count api (sema_init api n) = n) \<and>
     (\<forall>s. down api s = None \<longleftrightarrow> count api s = 0) \<and>
     (\<forall>s s'. down api s = Some s' \<longrightarrow> count api s = Suc (count api s')) \<and>
     (\<forall>s. count api (up api s) = Suc (count api s))"

datatype ppc = P_Test | P_Wait | P_DownS1 | P_DownMutex | P_Write | P_Log | P_Advance | P_UpMutex | P_UpS2 | P_Dec | P_End

datatype cpc = C_Test | C_Wait | C_DownS2 | C_DownMutex | C_Read | C_Log | C_Advance | C_UpMutex
  | C_UpS1 | C_Load | C_Store int | C_End

record 's np =
  s1 :: 's
  s2 :: 's
  mutex :: 's
  buf :: "int list"
  in_ix :: nat
  out_ix :: nat
  cflag :: int
  prods :: "nat \<Rightarrow> ppc"
  p_num :: "nat \<Rightarrow> nat"
  consrs :: "nat \<Rightarrow> cpc"
  goods :: "nat \<Rightarrow> int"
  np_log :: "kev list"
  produced :: "int list"
  consumed :: "int list"

definition np_nc_init :: "'s sem_api \<Rightarrow> int list \<Rightarrow> 's np" where
  \<comment> \<open>\<open>buf0\<close> is what the ring holds at first; every thread is at the start of its function\<close>
  "np_nc_init api buf0 =
     \<lparr>s1 = sema_init api BUF_NUM, s2 = sema_init api 0, mutex = sema_init api 1, buf = buf0,
      in_ix = 0, out_ix = 0, cflag = 0, prods = (\<lambda>_. P_Test), p_num = (\<lambda>_. PNUM),
      consrs = (\<lambda>_. C_Test), goods = (\<lambda>_. 0), np_log = [printk (''np_nc module is working..'' @ [NL])], produced = [], consumed = []\<rparr>"

definition np_nc_exit :: "'s np \<Rightarrow> 's np" where
  "np_nc_exit st = st\<lparr>np_log := np_log st @ [pr_alert (''np_nc  goodbye,kernel'' @ [NL])]\<rparr>"

definition goto_p :: "nat \<Rightarrow> ppc \<Rightarrow> 's np \<Rightarrow> 's np" where
  "goto_p j pc st = st\<lparr>prods := (prods st)(j := pc)\<rparr>"

definition goto_c :: "nat \<Rightarrow> cpc \<Rightarrow> 's np \<Rightarrow> 's np" where
  "goto_c j pc st = st\<lparr>consrs := (consrs st)(j := pc)\<rparr>"

definition goods_of :: "nat \<Rightarrow> nat \<Rightarrow> int" where
  \<comment> \<open>\<open>i * 100 + (PNUM - p_num + 1)\<close> with \<open>i = index[j] = j + 1\<close>\<close>
  "goods_of j pn = (int j + 1) * 100 + (int PNUM - int pn + 1)"

definition goto_p_log :: "nat \<Rightarrow> ppc \<Rightarrow> string \<Rightarrow> 's np \<Rightarrow> 's np" where
  "goto_p_log j pc msg st = goto_p j pc (st\<lparr>np_log := np_log st @ [printk msg]\<rparr>)"

definition goto_c_log :: "nat \<Rightarrow> cpc \<Rightarrow> string \<Rightarrow> 's np \<Rightarrow> 's np" where
  "goto_c_log j pc msg st = goto_c j pc (st\<lparr>np_log := np_log st @ [printk msg]\<rparr>)"

definition who :: "string \<Rightarrow> nat \<Rightarrow> nat \<Rightarrow> string" where
  "who role j c = CHR ''['' # role @ SP # dec (int j + 1) @ CHR '','' # dec (int c) @ '']:''"

definition productor_thread :: "'s sem_api \<Rightarrow> nat \<Rightarrow> 's np \<Rightarrow> 's np option" where
  \<comment> \<open>the next statement of producer \<open>j\<close>\<close>
  "productor_thread api j st =
     (case prods st j of
        P_Test \<Rightarrow> Some (goto_p j (if p_num st j \<noteq> 0 then P_Wait else P_End) st)
      | P_Wait \<Rightarrow>
          Some (if count api (s1 st) \<le> 0
                then goto_p_log j P_DownS1
                       (who ''producer'' j (count api (s1 st)) @ ''I will be waiting for producting..'' @ [NL]) st
                else goto_p j P_DownS1 st)
      | P_DownS1 \<Rightarrow> map_option (\<lambda>s. goto_p j P_DownMutex (st\<lparr>s1 := s\<rparr>)) (down api (s1 st))
      | P_DownMutex \<Rightarrow> map_option (\<lambda>s. goto_p j P_Write (st\<lparr>mutex := s\<rparr>)) (down api (mutex st))
      | P_Write \<Rightarrow>
          let g = goods_of j (p_num st j) in
          Some (goto_p j P_Log (st\<lparr>buf := (buf st)[in_ix st := g], produced := produced st @ [g]\<rparr>))
      | P_Log \<Rightarrow>
          Some (goto_p_log j P_Advance
            (who ''producer'' j (count api (s1 st)) @ ''I producted a goods '' @ [CHR 0x22] @ dec (buf st ! in_ix st) @
             [CHR 0x22] @ '' to buf['' @ dec (int (in_ix st)) @ '']..'' @ [NL]) st)
      | P_Advance \<Rightarrow> Some (goto_p j P_UpMutex (st\<lparr>in_ix := (in_ix st + 1) mod BUF_NUM\<rparr>))
      | P_UpMutex \<Rightarrow> Some (goto_p j P_UpS2 (st\<lparr>mutex := up api (mutex st)\<rparr>))
      | P_UpS2 \<Rightarrow> Some (goto_p j P_Dec (st\<lparr>s2 := up api (s2 st)\<rparr>))
      | P_Dec \<Rightarrow> Some (goto_p j P_Test (st\<lparr>p_num := (p_num st)(j := p_num st j - 1)\<rparr>))
      | P_End \<Rightarrow> None)"

definition consumer_thread :: "'s sem_api \<Rightarrow> nat \<Rightarrow> 's np \<Rightarrow> 's np option" where
  \<comment> \<open>the next statement of consumer \<open>j\<close>\<close>
  "consumer_thread api j st =
     (case consrs st j of
        C_Test \<Rightarrow> Some (goto_c j (if cflag st \<noteq> CNUM then C_Wait else C_End) st)
      | C_Wait \<Rightarrow>
          Some (if count api (s2 st) \<le> 0
                then goto_c_log j C_DownS2
                       (who ''consumer'' j (count api (s2 st)) @ ''I will be waiting for goods..'' @ [NL]) st
                else goto_c j C_DownS2 st)
      | C_DownS2 \<Rightarrow> map_option (\<lambda>s. goto_c j C_DownMutex (st\<lparr>s2 := s\<rparr>)) (down api (s2 st))
      | C_DownMutex \<Rightarrow> map_option (\<lambda>s. goto_c j C_Read (st\<lparr>mutex := s\<rparr>)) (down api (mutex st))
      | C_Read \<Rightarrow>
          let g = buf st ! out_ix st in
          Some (goto_c j C_Log (st\<lparr>goods := (goods st)(j := g), consumed := consumed st @ [g]\<rparr>))
      | C_Log \<Rightarrow>
          Some (goto_c_log j C_Advance
            (who ''consumer'' j (count api (s2 st)) @ ''I consumed a goods '' @ [CHR 0x22] @ dec (goods st j) @
             [CHR 0x22] @ '' from buf['' @ dec (int (out_ix st mod BUF_NUM)) @ '']..'' @ [NL]) st)
      | C_Advance \<Rightarrow> Some (goto_c j C_UpMutex (st\<lparr>out_ix := (out_ix st + 1) mod BUF_NUM\<rparr>))
      | C_UpMutex \<Rightarrow> Some (goto_c j C_UpS1 (st\<lparr>mutex := up api (mutex st)\<rparr>))
      | C_UpS1 \<Rightarrow> Some (goto_c j C_Load (st\<lparr>s1 := up api (s1 st)\<rparr>))
      | C_Load \<Rightarrow> Some (goto_c j (C_Store (cflag st)) st)
      | C_Store v \<Rightarrow> Some (goto_c j C_Test (st\<lparr>cflag := v + 1\<rparr>))
      | C_End \<Rightarrow> None)"

inductive np_step :: "'s sem_api \<Rightarrow> nat \<Rightarrow> 's np \<Rightarrow> 's np \<Rightarrow> bool" for api N where
  producer: "j < N \<Longrightarrow> productor_thread api j st = Some st' \<Longrightarrow> np_step api N st st'"
| consumer: "j < N \<Longrightarrow> consumer_thread api j st = Some st' \<Longrightarrow> np_step api N st st'"

inductive np_reach :: "'s sem_api \<Rightarrow> nat \<Rightarrow> int list \<Rightarrow> 's np \<Rightarrow> bool" for api N buf0 where
  start: "np_reach api N buf0 (np_nc_init api buf0)"
| step: "np_reach api N buf0 st \<Longrightarrow> np_step api N st st' \<Longrightarrow> np_reach api N buf0 st'"

inductive_cases np_stepE: "np_step api N st st'"

section \<open>The invariant\<close>

text \<open>
  Where a thread holds a unit of a semaphore: \<open>owes_s2\<close>, \<open>owes_s1\<close> after the write (read)
  and before the \<open>up\<close>; \<open>has_s1\<close>, \<open>has_s2\<close> after the \<open>down\<close> and before the write (read).
\<close>

definition has_s1 :: "ppc \<Rightarrow> bool" where "has_s1 pc \<longleftrightarrow> pc \<in> {P_DownMutex, P_Write}"
definition owes_s2 :: "ppc \<Rightarrow> bool" where "owes_s2 pc \<longleftrightarrow> pc \<in> {P_Log, P_Advance, P_UpMutex, P_UpS2}"
definition p_crit :: "ppc \<Rightarrow> bool" where "p_crit pc \<longleftrightarrow> pc \<in> {P_Write, P_Log, P_Advance, P_UpMutex}"
definition has_s2 :: "cpc \<Rightarrow> bool" where "has_s2 pc \<longleftrightarrow> pc \<in> {C_DownMutex, C_Read}"
definition owes_s1 :: "cpc \<Rightarrow> bool" where "owes_s1 pc \<longleftrightarrow> pc \<in> {C_Log, C_Advance, C_UpMutex, C_UpS1}"
definition c_crit :: "cpc \<Rightarrow> bool" where "c_crit pc \<longleftrightarrow> pc \<in> {C_Read, C_Log, C_Advance, C_UpMutex}"

lemmas pc_defs = has_s1_def owes_s2_def p_crit_def has_s2_def owes_s1_def c_crit_def

definition counts_inv :: "'s sem_api \<Rightarrow> nat \<Rightarrow> 's np \<Rightarrow> bool" where
  "counts_inv api N st \<longleftrightarrow>
     count api (mutex st) + num N p_crit (prods st) + num N c_crit (consrs st) = 1 \<and>
     count api (s2 st) + num N owes_s2 (prods st) + num N has_s2 (consrs st) + length (consumed st)
       = length (produced st) \<and>
     count api (s1 st) + num N has_s1 (prods st) + num N owes_s1 (consrs st) + length (produced st)
       = BUF_NUM + length (consumed st)"

definition p_adv :: "ppc \<Rightarrow> bool" where "p_adv pc \<longleftrightarrow> pc = P_Log \<or> pc = P_Advance"
definition c_adv :: "cpc \<Rightarrow> bool" where "c_adv pc \<longleftrightarrow> pc = C_Log \<or> pc = C_Advance"

definition ring_inv :: "nat \<Rightarrow> 's np \<Rightarrow> bool" where
  "ring_inv N st \<longleftrightarrow>
     length (buf st) = BUF_NUM \<and>
     (\<exists>w. in_ix st = w mod BUF_NUM \<and> w + num N p_adv (prods st) = length (produced st)) \<and>
     (\<exists>r. out_ix st = r mod BUF_NUM \<and> r + num N c_adv (consrs st) = length (consumed st)) \<and>
     consumed st = take (length (consumed st)) (produced st) \<and>
     (\<forall>i. length (consumed st) \<le> i \<and> i < length (produced st) \<longrightarrow>
        buf st ! (i mod BUF_NUM) = produced st ! i)"

lemma sem_facts:
  assumes "sem_ok api"
  shows "count api (sema_init api n) = n" "count api (up api s) = Suc (count api s)"
    "down api s = Some s' \<Longrightarrow> count api s = Suc (count api s')" "down api s = None \<longleftrightarrow> count api s = 0"
  using assms by (auto simp: sem_ok_def)

lemma counts_inv_init: "sem_ok api \<Longrightarrow> counts_inv api N (np_nc_init api buf0)"
  by (simp add: counts_inv_def np_nc_init_def sem_facts pc_defs num_all_false)

lemma ring_inv_init: "length buf0 = BUF_NUM \<Longrightarrow> ring_inv N (np_nc_init api buf0)"
  by (simp add: ring_inv_def np_nc_init_def num_all_false p_adv_def c_adv_def)

lemma counts_invD:
  assumes "counts_inv api N st"
  shows "count api (mutex st) + num N p_crit (prods st) + num N c_crit (consrs st) = 1"
    "count api (s2 st) + num N owes_s2 (prods st) + num N has_s2 (consrs st) + length (consumed st)
       = length (produced st)"
    "count api (s1 st) + num N has_s1 (prods st) + num N owes_s1 (consrs st) + length (produced st)
       = BUF_NUM + length (consumed st)"
  using assms by (simp_all add: counts_inv_def)

lemmas thread_simps = productor_thread_def consumer_thread_def goto_p_def goto_c_def goto_p_log_def goto_c_log_def Let_def

lemma producer_goto:
  "productor_thread api j st = Some st' \<Longrightarrow>
   prods st' = (prods st)(j := prods st' j) \<and> consrs st' = consrs st"
  by (auto simp: thread_simps split: ppc.splits)

lemma consumer_goto:
  "consumer_thread api j st = Some st' \<Longrightarrow>
   consrs st' = (consrs st)(j := consrs st' j) \<and> prods st' = prods st"
  by (auto simp: thread_simps split: cpc.splits)

lemma producer_tokens:
  assumes ok: "sem_ok api" and st': "productor_thread api j st = Some st'"
  shows "count api (mutex st') + tok p_crit (prods st' j) = count api (mutex st) + tok p_crit (prods st j) \<and>
    count api (s2 st') + tok owes_s2 (prods st' j) + length (produced st)
       = count api (s2 st) + tok owes_s2 (prods st j) + length (produced st') \<and>
    count api (s1 st') + tok has_s1 (prods st' j) + length (produced st')
       = count api (s1 st) + tok has_s1 (prods st j) + length (produced st)"
  by (cases "prods st j")
    (use st' in \<open>auto simp: thread_simps tok_def pc_defs sem_facts(2) [OF ok] sem_facts(3) [OF ok]
       split: if_splits\<close>)

lemma consumer_tokens:
  assumes ok: "sem_ok api" and st': "consumer_thread api j st = Some st'"
  shows "count api (mutex st') + tok c_crit (consrs st' j) = count api (mutex st) + tok c_crit (consrs st j) \<and>
    count api (s2 st') + tok has_s2 (consrs st' j) + length (consumed st')
       = count api (s2 st) + tok has_s2 (consrs st j) + length (consumed st) \<and>
    count api (s1 st') + tok owes_s1 (consrs st' j) + length (consumed st)
       = count api (s1 st) + tok owes_s1 (consrs st j) + length (consumed st')"
  by (cases "consrs st j")
    (use st' in \<open>auto simp: thread_simps tok_def pc_defs sem_facts(2) [OF ok] sem_facts(3) [OF ok]
       split: if_splits\<close>)

lemma producer_frame: "productor_thread api j st = Some st' \<Longrightarrow> consrs st' = consrs st \<and> consumed st' = consumed st"
  by (auto simp: thread_simps split: ppc.splits)

lemma consumer_frame: "consumer_thread api j st = Some st' \<Longrightarrow> prods st' = prods st \<and> produced st' = produced st"
  by (auto simp: thread_simps split: cpc.splits)

lemma producer_tok:
  assumes "j < N" "productor_thread api j st = Some st'"
  shows "num N Q (prods st') + tok Q (prods st j) = num N Q (prods st) + tok Q (prods st' j)"
  using producer_goto [OF assms(2)] num_update [OF assms(1), of Q "prods st" "prods st' j"]
  by (simp add: tok_def)

lemma consumer_tok:
  assumes "j < N" "consumer_thread api j st = Some st'"
  shows "num N Q (consrs st') + tok Q (consrs st j) = num N Q (consrs st) + tok Q (consrs st' j)"
  using consumer_goto [OF assms(2)] num_update [OF assms(1), of Q "consrs st" "consrs st' j"]
  by (simp add: tok_def)

lemma producer_counts:
  assumes ok: "sem_ok api" and inv: "counts_inv api N st" and j: "j < N"
    and st': "productor_thread api j st = Some st'"
  shows "counts_inv api N st'"
  using producer_tokens [OF ok st'] counts_invD [OF inv] producer_tok [OF j st', of p_crit]
    producer_tok [OF j st', of owes_s2] producer_tok [OF j st', of has_s1]
  unfolding counts_inv_def producer_frame [OF st', THEN conjunct1] producer_frame [OF st', THEN conjunct2]
  by (intro conjI) linarith+

lemma consumer_counts:
  assumes ok: "sem_ok api" and inv: "counts_inv api N st" and j: "j < N"
    and st': "consumer_thread api j st = Some st'"
  shows "counts_inv api N st'"
  using consumer_tokens [OF ok st'] counts_invD [OF inv] consumer_tok [OF j st', of c_crit]
    consumer_tok [OF j st', of owes_s1] consumer_tok [OF j st', of has_s2]
  unfolding counts_inv_def consumer_frame [OF st', THEN conjunct1] consumer_frame [OF st', THEN conjunct2]
  by (intro conjI) linarith+

section \<open>The ring is a queue\<close>

lemma num_excl:
  "j < N \<Longrightarrow> Q (f j) \<Longrightarrow> \<not> R (f j) \<Longrightarrow> (\<And>x. R x \<Longrightarrow> Q x) \<Longrightarrow> num N R f < num N Q f"
proof (induction N)
  case (Suc N)
  have "num N R f \<le> num N Q f" by (rule num_mono) (rule Suc.prems(4))
  then show ?case using Suc by (cases "j = N") auto
qed simp

abbreviation adv_p :: "'s np \<Rightarrow> nat \<Rightarrow> nat" where
  "adv_p st N \<equiv> num N p_adv (prods st)"

abbreviation adv_c :: "'s np \<Rightarrow> nat \<Rightarrow> nat" where
  "adv_c st N \<equiv> num N c_adv (consrs st)"

lemma writing_room:
  assumes "counts_inv api N st" "j < N" "prods st j = P_Write"
  shows "adv_p st N = 0" "length (produced st) < BUF_NUM + length (consumed st)"
proof -
  have "adv_p st N < num N p_crit (prods st)"
    using assms by (intro num_excl [of j]) (auto simp: p_crit_def p_adv_def)
  then show "adv_p st N = 0" using counts_invD(1) [OF assms(1)] by linarith
  have "0 < num N has_s1 (prods st)" using assms by (intro num_pos [of j]) (auto simp: has_s1_def)
  then show "length (produced st) < BUF_NUM + length (consumed st)"
    using counts_invD(3) [OF assms(1)] by linarith
qed

lemma reading_goods:
  assumes "counts_inv api N st" "j < N" "consrs st j = C_Read"
  shows "adv_c st N = 0" "length (consumed st) < length (produced st)"
proof -
  have "adv_c st N < num N c_crit (consrs st)"
    using assms by (intro num_excl [of j]) (auto simp: c_crit_def c_adv_def)
  then show "adv_c st N = 0" using counts_invD(1) [OF assms(1)] by linarith
  have "0 < num N has_s2 (consrs st)" using assms by (intro num_pos [of j]) (auto simp: has_s2_def)
  then show "length (consumed st) < length (produced st)"
    using counts_invD(2) [OF assms(1)] by linarith
qed

lemma ring_slots:
  \<comment> \<open>two positions less than \<open>BUF_NUM\<close> apart are different slots\<close>
  fixes i k :: nat
  assumes "i < k" "k < i + BUF_NUM"
  shows "i mod BUF_NUM \<noteq> k mod BUF_NUM"
proof
  assume "i mod BUF_NUM = k mod BUF_NUM"
  then have "BUF_NUM dvd k - i" using assms(1) by (metis mod_eq_dvd_iff_nat less_imp_le)
  then show False using assms by (auto dest: dvd_imp_le)
qed

lemma ring_inv_write:
  assumes inv: "ring_inv N st" and c: "counts_inv api N st" and j: "j < N"
    and pc: "prods st j = P_Write" and st': "productor_thread api j st = Some st'"
  shows "ring_inv N st'"
proof -
  let ?p = "length (produced st)" and ?c = "length (consumed st)"
  note room = writing_room [OF c j pc]
  obtain w where w: "in_ix st = w mod BUF_NUM" "w + adv_p st N = ?p" using inv by (auto simp: ring_inv_def)
  have win: "in_ix st = ?p mod BUF_NUM" using w room(1) by simp
  have cl: "consumed st = take ?c (produced st)" using inv by (simp add: ring_inv_def)
  then have le: "?c \<le> ?p" by (metis length_take min.cobounded1)
  have adv: "adv_p st' N = Suc (adv_p st N)"
    using producer_tok [OF j st', of p_adv] st' pc by (auto simp: thread_simps tok_def p_adv_def)
  let ?g = "goods_of j (p_num st j)"
  have new: "buf st' = (buf st)[?p mod BUF_NUM := ?g]" "produced st' = produced st @ [?g]"
    "consumed st' = consumed st" "in_ix st' = in_ix st" "out_ix st' = out_ix st" "consrs st' = consrs st"
    using st' pc by (auto simp: thread_simps win)
  have slots: "buf st' ! (i mod BUF_NUM) = produced st' ! i" if "?c \<le> i" "i < length (produced st')" for i
  proof (cases "i = ?p")
    case True
    then show ?thesis using inv by (simp add: new ring_inv_def BUF_NUM_def)
  next
    case False
    then have i: "i < ?p" using that by (simp add: new)
    have "i mod BUF_NUM \<noteq> ?p mod BUF_NUM" using i that(1) room(2) by (intro ring_slots) auto
    then show ?thesis using inv i that(1) by (simp add: new ring_inv_def nth_append)
  qed
  have "in_ix st' = w mod BUF_NUM \<and> w + adv_p st' N = length (produced st')"
    using w by (simp add: new adv)
  then show ?thesis using inv slots cl le unfolding ring_inv_def by (auto simp: new(2-6)) (simp add: new(1))
qed

lemma ring_inv_produce:
  assumes inv: "ring_inv N st" and c: "counts_inv api N st" and j: "j < N"
    and st': "productor_thread api j st = Some st'"
  shows "ring_inv N st'"
proof -
  have adv: "adv_p st' N + tok p_adv (prods st j)
      = adv_p st N + tok p_adv (prods st' j)"
    by (rule producer_tok [OF j st'])
  consider "prods st j = P_Write" | "prods st j = P_Advance"
    | "prods st j \<noteq> P_Write" "prods st j \<noteq> P_Advance" by blast
  then show ?thesis
  proof cases
    case 1
    then show ?thesis using ring_inv_write [OF inv c j _ st'] by blast
  next
    case 2
    obtain w where w: "in_ix st = w mod BUF_NUM" "w + adv_p st N = length (produced st)"
      using inv by (auto simp: ring_inv_def)
    have "in_ix st' = Suc w mod BUF_NUM \<and> Suc w + adv_p st' N = length (produced st')"
      and same: "buf st' = buf st" "produced st' = produced st" "consumed st' = consumed st"
        "out_ix st' = out_ix st" "consrs st' = consrs st"
      using adv w st' 2 by (auto simp: thread_simps tok_def p_adv_def mod_Suc_eq)
    then show ?thesis using inv unfolding ring_inv_def same by blast
  next
    case 3
    then have "p_adv (prods st' j) = p_adv (prods st j)"
      and same: "buf st' = buf st" "produced st' = produced st" "consumed st' = consumed st"
        "in_ix st' = in_ix st" "out_ix st' = out_ix st" "consrs st' = consrs st"
      using st' by (auto simp: thread_simps p_adv_def split: ppc.splits if_splits)
    then have "adv_p st' N = adv_p st N" using adv 3 by (simp add: tok_def)
    then show ?thesis using inv by (simp add: ring_inv_def same)
  qed
qed

lemma ring_inv_read:
  assumes inv: "ring_inv N st" and c: "counts_inv api N st" and j: "j < N"
    and pc: "consrs st j = C_Read" and st': "consumer_thread api j st = Some st'"
  shows "ring_inv N st'"
proof -
  let ?c = "length (consumed st)"
  note goods = reading_goods [OF c j pc]
  obtain r where r: "out_ix st = r mod BUF_NUM" "r + adv_c st N = ?c" using inv by (auto simp: ring_inv_def)
  have "out_ix st = ?c mod BUF_NUM" using r goods(1) by simp
  then have item: "buf st ! out_ix st = produced st ! ?c" using inv goods(2) by (simp add: ring_inv_def)
  have adv: "adv_c st' N = Suc (adv_c st N)"
    using consumer_tok [OF j st', of c_adv] st' pc by (auto simp: thread_simps tok_def c_adv_def)
  have new: "buf st' = buf st" "produced st' = produced st" "in_ix st' = in_ix st" "prods st' = prods st"
    "consumed st' = consumed st @ [produced st ! ?c]" "out_ix st' = out_ix st"
    using st' pc item by (auto simp: thread_simps)
  have len: "length (consumed st') = Suc ?c" by (simp add: new)
  have "consumed st' = take (Suc ?c) (produced st)"
    using inv goods(2) by (simp add: new ring_inv_def take_Suc_conv_app_nth)
  then have fifo: "consumed st' = take (length (consumed st')) (produced st)" unfolding len .
  have "out_ix st' = r mod BUF_NUM \<and> r + adv_c st' N = length (consumed st')"
    using r by (simp add: new(6) len adv)
  moreover have "\<forall>i. length (consumed st') \<le> i \<and> i < length (produced st) \<longrightarrow>
      buf st ! (i mod BUF_NUM) = produced st ! i"
    using inv by (simp add: ring_inv_def len)
  ultimately show ?thesis using inv fifo unfolding ring_inv_def new(1-4) by blast
qed

lemma ring_inv_consume:
  assumes inv: "ring_inv N st" and c: "counts_inv api N st" and j: "j < N"
    and st': "consumer_thread api j st = Some st'"
  shows "ring_inv N st'"
proof -
  have adv: "adv_c st' N + tok c_adv (consrs st j)
      = adv_c st N + tok c_adv (consrs st' j)"
    by (rule consumer_tok [OF j st'])
  consider "consrs st j = C_Read" | "consrs st j = C_Advance"
    | "consrs st j \<noteq> C_Read" "consrs st j \<noteq> C_Advance" by blast
  then show ?thesis
  proof cases
    case 1
    then show ?thesis using ring_inv_read [OF inv c j _ st'] by blast
  next
    case 2
    obtain r where r: "out_ix st = r mod BUF_NUM" "r + adv_c st N = length (consumed st)"
      using inv by (auto simp: ring_inv_def)
    have "out_ix st' = Suc r mod BUF_NUM \<and> Suc r + adv_c st' N = length (consumed st')"
      and same: "buf st' = buf st" "produced st' = produced st" "consumed st' = consumed st"
        "in_ix st' = in_ix st" "prods st' = prods st"
      using adv r st' 2 by (auto simp: thread_simps tok_def c_adv_def mod_Suc_eq)
    then show ?thesis using inv unfolding ring_inv_def same by blast
  next
    case 3
    then have "c_adv (consrs st' j) = c_adv (consrs st j)"
      and same: "buf st' = buf st" "produced st' = produced st" "consumed st' = consumed st"
        "in_ix st' = in_ix st" "out_ix st' = out_ix st" "prods st' = prods st"
      using st' by (auto simp: thread_simps c_adv_def split: cpc.splits if_splits)
    then have "adv_c st' N = adv_c st N" using adv 3 by (simp add: tok_def)
    then show ?thesis using inv by (simp add: ring_inv_def same)
  qed
qed

section \<open>Every run\<close>

lemma np_reach_inv:
  assumes "np_reach api N buf0 st" "sem_ok api" "length buf0 = BUF_NUM"
  shows "counts_inv api N st \<and> ring_inv N st"
  using assms
proof (induction rule: np_reach.induct)
  case start
  then show ?case by (simp add: counts_inv_init ring_inv_init)
next
  case (step st st')
  then have inv: "counts_inv api N st" "ring_inv N st" by auto
  from step.hyps(2) show ?case
    by (rule np_stepE)
      (use inv step.prems in \<open>auto intro: producer_counts consumer_counts ring_inv_produce ring_inv_consume\<close>)
qed

section \<open>Running a schedule\<close>

text \<open>
  A schedule is a list of threads (\<open>True\<close>: a producer), each of which takes its next step;
  \<open>nat_sem\<close> is the counting semaphore that \<open>sem_ok\<close> describes.
\<close>

definition nat_sem :: "nat sem_api" where
  "nat_sem = \<lparr>sema_init = (\<lambda>n. n), down = (\<lambda>n. if n = 0 then None else Some (n - 1)), up = Suc, count = (\<lambda>n. n)\<rparr>"

fun np_run :: "'s sem_api \<Rightarrow> (bool \<times> nat) list \<Rightarrow> 's np \<Rightarrow> 's np option" where
  "np_run api [] st = Some st"
| "np_run api ((p, j) # sch) st =
     (case (if p then productor_thread api j st else consumer_thread api j st) of
        None \<Rightarrow> None | Some st' \<Rightarrow> np_run api sch st')"

lemma nat_sem_ok: "sem_ok nat_sem"
  by (auto simp: sem_ok_def nat_sem_def)

lemma np_run_append:
  "np_run api (a @ b) st = (case np_run api a st of None \<Rightarrow> None | Some st' \<Rightarrow> np_run api b st')"
  by (induction api a st rule: np_run.induct) (auto split: option.split)

lemma np_run_reach:
  "np_run api sch st = Some st' \<Longrightarrow> np_reach api N buf0 st \<Longrightarrow> (\<And>p j. (p, j) \<in> set sch \<Longrightarrow> j < N) \<Longrightarrow>
   np_reach api N buf0 st'"
proof (induction api sch st rule: np_run.induct)
  case (2 api p j sch st)
  then obtain st1 where st1: "(if p then productor_thread api j st else consumer_thread api j st) = Some st1"
    "np_run api sch st1 = Some st'"
    by (auto split: option.splits)
  have "j < N" using 2(4) [of p j] by simp
  with st1(1) have "np_step api N st st1"
    by (cases p) (auto intro: np_step.intros)
  with 2(3) have "np_reach api N buf0 st1" by (rule np_reach.step)
  with 2(1) [OF st1] 2(4) show ?case by auto
qed simp

definition overshoot :: "(bool \<times> nat) list" where
  "overshoot = replicate 51 (True, 0) @ replicate 51 (True, 1) @
     concat (replicate 4 (replicate 11 (False, 0))) @
     [(False, 0), (False, 1)] @ replicate 10 (False, 0) @ replicate 10 (False, 1) @
     concat (replicate 4 (replicate 11 (False, 1))) @ [(False, 0), (False, 0), (False, 1), (False, 1)]"

lemma overshoot_run:
  "map_option (\<lambda>st. (cflag st, s2 st, mutex st, consrs st 0, consrs st 1, prods st 0, prods st 1, length (consumed st)))
    (np_run nat_sem overshoot (np_nc_init nat_sem (replicate 10 0))) =
    Some (10, 0, 1, C_DownS2, C_DownS2, P_End, P_End, 10)"
  by (code_simp)

section \<open>One producer and one consumer\<close>

fun p_inv :: "ppc \<Rightarrow> nat \<Rightarrow> nat \<Rightarrow> bool" where
  "p_inv P_Test pn n = (n + pn = PNUM)"
| "p_inv P_End pn n = (pn = 0 \<and> n = PNUM)"
| "p_inv pc pn n = (pn \<noteq> 0 \<and> n + pn = (if pc \<in> {P_Wait, P_DownS1, P_DownMutex, P_Write} then PNUM else Suc PNUM))"

fun c_inv :: "cpc \<Rightarrow> int \<Rightarrow> nat \<Rightarrow> bool" where
  "c_inv C_Test cf n = (int n = cf)"
| "c_inv C_End cf n = (cf = CNUM \<and> int n = cf)"
| "c_inv (C_Store v) cf n = (v = cf \<and> cf \<noteq> CNUM \<and> int n = cf + 1)"
| "c_inv pc cf n = (cf \<noteq> CNUM \<and> int n = (if pc \<in> {C_Wait, C_DownS2, C_DownMutex, C_Read} then cf else cf + 1))"

definition single_inv :: "'s np \<Rightarrow> bool" where
  "single_inv st \<longleftrightarrow>
     p_inv (prods st 0) (p_num st 0) (length (produced st)) \<and>
     c_inv (consrs st 0) (cflag st) (length (consumed st))"

lemma single_inv_init: "single_inv (np_nc_init api buf0)"
  by (simp add: single_inv_def np_nc_init_def)

lemma producer_keeps_cflag: "productor_thread api j st = Some st' \<Longrightarrow> cflag st' = cflag st"
  by (auto simp: thread_simps split: ppc.splits)

lemma consumer_keeps_p_num: "consumer_thread api j st = Some st' \<Longrightarrow> p_num st' = p_num st"
  by (auto simp: thread_simps split: cpc.splits)

lemma p_inv_produce:
  assumes "productor_thread api j st = Some st'" "p_inv (prods st j) (p_num st j) (length (produced st))"
  shows "p_inv (prods st' j) (p_num st' j) (length (produced st'))"
  by (cases "prods st j") (use assms in \<open>auto simp: thread_simps\<close>)

lemma c_inv_consume:
  assumes "consumer_thread api j st = Some st'" "c_inv (consrs st j) (cflag st) (length (consumed st))"
  shows "c_inv (consrs st' j) (cflag st') (length (consumed st'))"
  by (cases "consrs st j") (use assms in \<open>auto simp: thread_simps\<close>)

lemma single_inv_produce: "productor_thread api 0 st = Some st' \<Longrightarrow> single_inv st \<Longrightarrow> single_inv st'"
  unfolding single_inv_def
  by (metis p_inv_produce producer_frame producer_keeps_cflag)

lemma single_inv_consume: "consumer_thread api 0 st = Some st' \<Longrightarrow> single_inv st \<Longrightarrow> single_inv st'"
  unfolding single_inv_def
  by (metis c_inv_consume consumer_frame consumer_keeps_p_num)

lemma single_inv_reach: "np_reach api 1 buf0 st \<Longrightarrow> single_inv st"
  by (induction rule: np_reach.induct)
    (auto simp: single_inv_init elim!: np_stepE intro: single_inv_produce single_inv_consume)

text \<open>Where a thread that cannot move stands.\<close>

lemma producer_stuck:
  "sem_ok api \<Longrightarrow> productor_thread api j st = None \<longleftrightarrow>
     prods st j = P_End \<or> prods st j = P_DownS1 \<and> count api (s1 st) = 0 \<or>
     prods st j = P_DownMutex \<and> count api (mutex st) = 0"
  by (cases "prods st j") (auto simp: thread_simps sem_facts(4))

lemma consumer_stuck:
  "sem_ok api \<Longrightarrow> consumer_thread api j st = None \<longleftrightarrow>
     consrs st j = C_End \<or> consrs st j = C_DownS2 \<and> count api (s2 st) = 0 \<or>
     consrs st j = C_DownMutex \<and> count api (mutex st) = 0"
  by (cases "consrs st j") (auto simp: thread_simps sem_facts(4))

lemma single_no_deadlock:
  assumes ok: "sem_ok api" and r: "np_reach api 1 buf0 st" and len: "length buf0 = BUF_NUM"
    and stuck: "productor_thread api 0 st = None" "consumer_thread api 0 st = None"
  shows "prods st 0 = P_End \<and> consrs st 0 = C_End \<and> length (consumed st) = PNUM"
proof -
  note c = counts_invD [OF conjunct1 [OF np_reach_inv [OF r ok len]]]
  have one: "num 1 Q f = (if Q (f 0) then 1 else 0)" for Q :: "'x \<Rightarrow> bool" and f by simp
  note inv = single_inv_reach [OF r]
  consider "prods st 0 = P_End" | "prods st 0 = P_DownS1" | "prods st 0 = P_DownMutex"
    using stuck(1) producer_stuck [OF ok] by blast
  then show ?thesis
    using inv c stuck consumer_stuck [OF ok] producer_stuck [OF ok]
    by cases (auto simp: one pc_defs single_inv_def PNUM_def CNUM_def BUF_NUM_def)
qed

lemma run_from_init:
  "np_run api sch (np_nc_init api buf0) = Some st \<Longrightarrow> (\<And>p j. (p, j) \<in> set sch \<Longrightarrow> j < N) \<Longrightarrow>
   np_reach api N buf0 st"
  by (rule np_run_reach [OF _ np_reach.start])

text \<open>How many statements a producer and a consumer still have before them.\<close>

fun p_left :: "ppc \<Rightarrow> nat \<Rightarrow> nat" where
  "p_left P_Test pn = 10 * pn + 1"
| "p_left P_Wait pn = 10 * pn"
| "p_left P_DownS1 pn = 10 * pn - 1"
| "p_left P_DownMutex pn = 10 * pn - 2"
| "p_left P_Write pn = 10 * pn - 3"
| "p_left P_Log pn = 10 * pn - 4"
| "p_left P_Advance pn = 10 * pn - 5"
| "p_left P_UpMutex pn = 10 * pn - 6"
| "p_left P_UpS2 pn = 10 * pn - 7"
| "p_left P_Dec pn = 10 * pn - 8"
| "p_left P_End pn = 0"

fun c_left :: "cpc \<Rightarrow> nat \<Rightarrow> nat" where
  \<comment> \<open>for the number of goods that the test of \<open>cflag\<close> still lets it take\<close>
  "c_left C_Test k = 11 * k + 1"
| "c_left C_Wait k = 11 * k"
| "c_left C_DownS2 k = 11 * k - 1"
| "c_left C_DownMutex k = 11 * k - 2"
| "c_left C_Read k = 11 * k - 3"
| "c_left C_Log k = 11 * k - 4"
| "c_left C_Advance k = 11 * k - 5"
| "c_left C_UpMutex k = 11 * k - 6"
| "c_left C_UpS1 k = 11 * k - 7"
| "c_left C_Load k = 11 * k - 8"
| "c_left (C_Store v) k = 11 * k - 9"
| "c_left C_End k = 0"

definition steps_left :: "'s np \<Rightarrow> nat" where
  "steps_left st = p_left (prods st 0) (p_num st 0) + c_left (consrs st 0) (nat (CNUM - cflag st))"

lemma producer_left:
  assumes "productor_thread api 0 st = Some st'" "p_inv (prods st 0) (p_num st 0) n"
  shows "p_left (prods st 0) (p_num st 0) = Suc (p_left (prods st' 0) (p_num st' 0))"
  by (cases "prods st 0") (use assms in \<open>auto simp: thread_simps\<close>)

lemma consumer_left:
  assumes "consumer_thread api 0 st = Some st'" "c_inv (consrs st 0) (cflag st) n" "n \<le> PNUM"
  shows "c_left (consrs st 0) (nat (CNUM - cflag st)) = Suc (c_left (consrs st' 0) (nat (CNUM - cflag st')))"
  by (cases "consrs st 0") (use assms in \<open>auto simp: thread_simps CNUM_def PNUM_def\<close>)

lemma produced_bound: "p_inv pc pn n \<Longrightarrow> n \<le> PNUM"
  by (cases pc) auto

lemma consumed_bound:
  assumes "sem_ok api" "np_reach api 1 buf0 st" "length buf0 = BUF_NUM"
  shows "length (consumed st) \<le> PNUM"
proof -
  have "length (produced st) \<le> PNUM"
    using single_inv_reach [OF assms(2)] produced_bound by (auto simp: single_inv_def)
  then show ?thesis using counts_invD(2) [OF conjunct1 [OF np_reach_inv [OF assms(2,1,3)]]] by linarith
qed

lemma step_left:
  assumes ok: "sem_ok api" and r: "np_reach api 1 buf0 st" and len: "length buf0 = BUF_NUM" and st': "np_step api 1 st st'"
  shows "steps_left st = Suc (steps_left st')"
proof -
  have inv: "p_inv (prods st 0) (p_num st 0) (length (produced st))" "c_inv (consrs st 0) (cflag st) (length (consumed st))"
    using single_inv_reach [OF r] by (simp_all add: single_inv_def)
  note c_less = consumer_left [OF _ inv(2) consumed_bound [OF ok r len]]
  from st' show ?thesis
  proof (rule np_stepE)
    fix j assume "j < 1" "productor_thread api j st = Some st'"
    then have p: "productor_thread api 0 st = Some st'" by simp
    from producer_left [OF p inv(1)] producer_goto [OF p] producer_keeps_cflag [OF p] show ?thesis
      by (simp add: steps_left_def)
  next
    fix j assume "j < 1" "consumer_thread api j st = Some st'"
    then have c: "consumer_thread api 0 st = Some st'" by simp
    from c_less [OF c] consumer_goto [OF c] consumer_keeps_p_num [OF c] show ?thesis
      by (simp add: steps_left_def)
  qed
qed

lemma runs_left:
  assumes ok: "sem_ok api" and len: "length buf0 = BUF_NUM"
  shows "(np_step api 1 ^^ n) (np_nc_init api buf0) st \<Longrightarrow> np_reach api 1 buf0 st \<and> steps_left st + n = 107"
proof (induction n arbitrary: st)
  case 0
  then show ?case using np_reach.start [of api 1 buf0]
    by (auto simp: steps_left_def np_nc_init_def PNUM_def CNUM_def)
next
  case (Suc n)
  then obtain u where "np_reach api 1 buf0 u" "steps_left u + n = 107" "np_step api 1 u st" by auto
  then show ?case using step_left [OF ok _ len] np_reach.step by fastforce
qed

lemma nothing_left:
  assumes "single_inv st" "length (consumed st) \<le> PNUM" "steps_left st = 0"
  shows "prods st 0 = P_End \<and> consrs st 0 = C_End \<and> length (consumed st) = PNUM"
proof -
  have "prods st 0 = P_End" using assms by (cases "prods st 0") (auto simp: steps_left_def single_inv_def)
  moreover have "consrs st 0 = C_End"
  proof (cases "consrs st 0")
    case C_End
    then show ?thesis .
  qed (use assms in \<open>auto simp: steps_left_def single_inv_def CNUM_def PNUM_def\<close>)
  ultimately show ?thesis using assms(1) by (simp add: single_inv_def CNUM_def PNUM_def)
qed

section \<open>Properties\<close>

text \<open>
  C4: mutual exclusion. In every reachable state of N producers and N consumers at most one
  thread is between \<open>down(&mutex)\<close> and \<open>up(&mutex)\<close>.
\<close>

theorem np_mutual_exclusion:
  assumes "np_reach api N buf0 st" "sem_ok api" "length buf0 = BUF_NUM"
  shows "(\<forall>i j. i < N \<and> j < N \<and> i \<noteq> j \<longrightarrow> \<not> (p_crit (prods st i) \<and> p_crit (prods st j))) \<and>
    (\<forall>i j. i < N \<and> j < N \<and> i \<noteq> j \<longrightarrow> \<not> (c_crit (consrs st i) \<and> c_crit (consrs st j))) \<and>
    (\<forall>i j. i < N \<and> j < N \<longrightarrow> \<not> (p_crit (prods st i) \<and> c_crit (consrs st j)))"
proof -
  have one: "num N p_crit (prods st) + num N c_crit (consrs st) \<le> 1"
    using counts_invD(1) [OF conjunct1 [OF np_reach_inv [OF assms]]] by linarith
  show ?thesis
  proof (intro conjI allI impI notI)
    fix i j assume "i < N \<and> j < N \<and> i \<noteq> j" "p_crit (prods st i) \<and> p_crit (prods st j)"
    then show False using num_two [of i N j p_crit "prods st"] one by auto
  next
    fix i j assume "i < N \<and> j < N \<and> i \<noteq> j" "c_crit (consrs st i) \<and> c_crit (consrs st j)"
    then show False using num_two [of i N j c_crit "consrs st"] one by auto
  next
    fix i j assume "i < N \<and> j < N" "p_crit (prods st i) \<and> c_crit (consrs st j)"
    then show False using num_pos [of i N p_crit "prods st"] num_pos [of j N c_crit "consrs st"] one by auto
  qed
qed

lemma run_two_writers:
  "\<exists>st. np_run nat_sem [(True, 0), (True, 0), (True, 0), (True, 0), (True, 1), (True, 1), (True, 1)] (np_nc_init nat_sem (replicate 10 0)) = Some st \<and>
     prods st 0 = P_Write \<and> prods st 1 = P_DownMutex"
  by (simp add: thread_simps np_nc_init_def nat_sem_def PNUM_def BUF_NUM_def)

lemma np_mutual_exclusion_witness:
  "\<exists>st. np_reach nat_sem 2 (replicate 10 0) st \<and> p_crit (prods st 0) \<and> \<not> p_crit (prods st 1)"
proof -
  obtain st where st: "np_run nat_sem [(True, 0), (True, 0), (True, 0), (True, 0), (True, 1), (True, 1), (True, 1)] (np_nc_init nat_sem (replicate 10 0)) = Some st"
    "prods st 0 = P_Write" using run_two_writers by blast
  have r: "np_reach nat_sem 2 (replicate 10 0) st" using st(1) by (rule run_from_init) auto
  have "p_crit (prods st 0)" using st(2) by (simp add: p_crit_def)
  moreover from this have "\<not> p_crit (prods st 1)"
    using spec [OF spec [OF conjunct1 [OF np_mutual_exclusion [OF r nat_sem_ok]]], of 0 1] by (simp add: BUF_NUM_def)
  ultimately show ?thesis using r by blast
qed

text \<open>
  C3: the ring is a bounded FIFO queue. In every reachable state the goods consumed are exactly
  the first goods produced, in the order they were produced, none lost and none taken twice, and
  at most \<open>BUF_NUM\<close> goods are in the ring.
\<close>

theorem np_fifo:
  assumes "np_reach api N buf0 st" "sem_ok api" "length buf0 = BUF_NUM"
  shows "consumed st = take (length (consumed st)) (produced st) \<and>
    length (consumed st) \<le> length (produced st) \<and>
    length (produced st) \<le> length (consumed st) + BUF_NUM"
proof -
  note inv = np_reach_inv [OF assms]
  then have "consumed st = take (length (consumed st)) (produced st)" by (simp add: ring_inv_def)
  moreover have "length (consumed st) \<le> length (produced st)"
    "length (produced st) \<le> length (consumed st) + BUF_NUM"
    using counts_invD(2,3) [OF conjunct1 [OF inv]] by linarith+
  ultimately show ?thesis by blast
qed

lemma overshoot_reach:
  "\<exists>st. np_reach nat_sem 2 (replicate 10 0) st \<and>
     (cflag st, s2 st, mutex st, consrs st 0, consrs st 1, prods st 0, prods st 1, length (consumed st)) =
     (10, 0, 1, C_DownS2, C_DownS2, P_End, P_End, 10)"
proof -
  obtain st where st: "np_run nat_sem overshoot (np_nc_init nat_sem (replicate 10 0)) = Some st"
    "(cflag st, s2 st, mutex st, consrs st 0, consrs st 1, prods st 0, prods st 1, length (consumed st)) =
     (10, 0, 1, C_DownS2, C_DownS2, P_End, P_End, 10)"
    using overshoot_run by (auto simp: map_option_eq_Some)
  have "np_reach nat_sem 2 (replicate 10 0) st"
    using st(1) by (rule run_from_init) (auto simp: overshoot_def)
  with st(2) show ?thesis by blast
qed

lemma np_fifo_witness:
  "\<exists>st. np_reach nat_sem 2 (replicate 10 0) st \<and> length (produced st) \<ge> 10 \<and>
     consumed st = take 10 (produced st)"
proof -
  obtain st where st: "np_reach nat_sem 2 (replicate 10 0) st" "length (consumed st) = 10"
    using overshoot_reach by auto
  show ?thesis using np_fifo [OF st(1) nat_sem_ok] st by (auto simp: BUF_NUM_def)
qed

text \<open>
  C24: one producer and one consumer always finish. Every run with N = 1, in whatever order the
  scheduler lets the two threads move, is over after exactly 107 statements (51 of the producer, 56
  of the consumer, where the wait in a \<open>down\<close> is no statement): before that some thread can move, and
  after that both have returned and all \<open>PNUM\<close> goods were consumed.
\<close>

theorem np_single_finishes:
  assumes "sem_ok api" "length buf0 = BUF_NUM" "(np_step api 1 ^^ n) (np_nc_init api buf0) st"
  shows "n \<le> 107 \<and> ((\<exists>st'. np_step api 1 st st') \<longleftrightarrow> n < 107) \<and>
    (n = 107 \<longrightarrow> prods st 0 = P_End \<and> consrs st 0 = C_End \<and> length (consumed st) = PNUM)"
proof -
  have r: "np_reach api 1 buf0 st" and left: "steps_left st + n = 107"
    using runs_left [OF assms] by simp_all
  note inv = single_inv_reach [OF r]
  have "0 < steps_left st" if "np_step api 1 st st'" for st'
    using step_left [OF assms(1) r assms(2) that] by simp
  moreover have "steps_left st = 0" if stuck: "\<And>st'. \<not> np_step api 1 st st'"
  proof -
    have "productor_thread api 0 st = None" "consumer_thread api 0 st = None"
      using stuck np_step.producer [of 0 1 api st] np_step.consumer [of 0 1 api st]
      by (meson less_one option.exhaust)+
    from single_no_deadlock [OF assms(1) r assms(2) this] show ?thesis by (simp add: steps_left_def)
  qed
  ultimately show ?thesis using left nothing_left [OF inv consumed_bound [OF assms(1) r assms(2)]] by fastforce
qed

lemma np_run_steps:
  "np_run api sch st = Some st' \<Longrightarrow> (\<And>p j. (p, j) \<in> set sch \<Longrightarrow> j < N) \<Longrightarrow> (np_step api N ^^ length sch) st st'"
proof (induction api sch st rule: np_run.induct)
  case (2 api p j sch st)
  then obtain st1 where st1: "(if p then productor_thread api j st else consumer_thread api j st) = Some st1"
    "np_run api sch st1 = Some st'"
    by (auto split: option.splits)
  have "j < N" using 2(3) [of p j] by simp
  with st1(1) have "np_step api N st st1" by (cases p) (auto intro: np_step.intros)
  moreover have "(np_step api N ^^ length sch) st1 st'"
  proof (rule 2(1) [OF st1])
    fix p j assume "(p, j) \<in> set sch"
    then show "j < N" by (intro 2(3) [of p j]) simp
  qed
  ultimately show ?case unfolding list.size(4) add_Suc_right add_0_right by (rule relpowp_Suc_I2)
qed simp

lemma single_run:
  "map_option (\<lambda>st. (prods st 0, consrs st 0))
    (np_run nat_sem (replicate 51 (True, 0) @ replicate 56 (False, 0)) (np_nc_init nat_sem (replicate 10 0))) =
    Some (P_End, C_End)"
  by code_simp

lemma np_single_finishes_witness:
  "\<exists>st. (np_step nat_sem 1 ^^ 107) (np_nc_init nat_sem (replicate 10 0)) st \<and> prods st 0 = P_End \<and>
     consrs st 0 = C_End \<and> length (consumed st) = 5"
proof -
  let ?sch = "replicate 51 (True, 0 :: nat) @ replicate 56 (False, 0)"
  obtain st where st: "np_run nat_sem ?sch (np_nc_init nat_sem (replicate 10 0)) = Some st"
    using single_run by (auto simp: map_option_eq_Some)
  have "(np_step nat_sem 1 ^^ length ?sch) (np_nc_init nat_sem (replicate 10 0)) st"
    using st by (rule np_run_steps) auto
  then have steps: "(np_step nat_sem 1 ^^ 107) (np_nc_init nat_sem (replicate 10 0)) st" by simp
  have "length (replicate 10 (0 :: int)) = BUF_NUM" by (simp add: BUF_NUM_def)
  from np_single_finishes [OF nat_sem_ok this steps] steps show ?thesis by (auto simp: PNUM_def)
qed

text \<open>
  C25: with two producers and two consumers the run can hang. \<open>cflag\<close> counts the goods consumed
  by all consumers together and is tested only for equality with \<open>CNUM\<close>: two consumers that pass
  the test at 4 take it beyond 5, and both wait for goods for ever after the producers have
  returned.
\<close>

theorem np_two_consumers_hang:
  "\<exists>st. np_reach nat_sem 2 (replicate 10 0) st \<and> (\<forall>st'. \<not> np_step nat_sem 2 st st') \<and>
     prods st 0 = P_End \<and> prods st 1 = P_End \<and>
     CNUM < cflag st \<and> consrs st 0 = C_DownS2 \<and> consrs st 1 = C_DownS2"
proof -
  obtain st where st: "np_reach nat_sem 2 (replicate 10 0) st"
    "(cflag st, s2 st, mutex st, consrs st 0, consrs st 1, prods st 0, prods st 1, length (consumed st)) =
     (10, 0, 1, C_DownS2, C_DownS2, P_End, P_End, 10)"
    using overshoot_reach by blast
  have "\<not> np_step nat_sem 2 st st'" for st'
    using st(2) by (auto simp: thread_simps nat_sem_def less_2_cases_iff elim!: np_stepE)
  then show ?thesis using st by (auto simp: CNUM_def)
qed

end
