(* ===== verification/Network.thy ===== *)
theory Network
  imports Driver_Lifecycle Prelude
begin

text \<open>
  \<open>network/mynetwork.c\<close>: the skeleton of a PCI network driver. \<open>probe\<close> allocates, fills in and
  registers a network device; \<open>remove\<close> looks it up in the driver data of the PCI device, which
  nothing in the module sets. A \<open>net_device\<close> is a number; pointers may be NULL.
\<close>

datatype net_op = Op_open | Op_stop | Op_start_xmit

record ether_dev =
  nd_open :: "net_op option"
  nd_stop :: "net_op option"
  nd_hard_start_xmit :: "net_op option"
  nd_irq :: int
  priv_netdev :: "nat option"  \<comment> \<open>\<open>my_dev->netdev\<close>\<close>

record pci_dev =
  pci_irq :: int
  drvdata :: "nat option"      \<comment> \<open>what \<open>pci_get_drvdata\<close> gives: NULL until it is set\<close>

record probe_env =
  alloc_etherdev_ret :: "nat option"
  register_netdev_ret :: int
  pci_enable_device_ret :: int

definition my_net_open :: "int \<times> kev list" where
  "my_net_open = (0, [pr_info (''My Network Device Opened'' @ [NL])])"

definition my_net_stop :: "int \<times> kev list" where
  "my_net_stop = (0, [pr_info (''My Network Device Closed'' @ [NL])])"

definition my_net_start_xmit :: "int \<times> kev list" where
  \<comment> \<open>\<open>NETDEV_TX_OK\<close> is 0\<close>
  "my_net_start_xmit = (0, [pr_info (''Sending Packet'' @ [NL]), Put Skb])"

definition my_net_interrupt :: "int \<times> kev list" where
  \<comment> \<open>\<open>IRQ_HANDLED\<close> is 1\<close>
  "my_net_interrupt = (1, [pr_info (''Interrupt Received'' @ [NL])])"

definition fill_netdev :: "nat \<Rightarrow> pci_dev \<Rightarrow> ether_dev" where
  "fill_netdev netdev pdev =
     \<lparr>nd_open = Some Op_open, nd_stop = Some Op_stop, nd_hard_start_xmit = Some Op_start_xmit,
      nd_irq = pci_irq pdev, priv_netdev = Some netdev\<rparr>"

definition my_net_probe :: "probe_env \<Rightarrow> pci_dev \<Rightarrow> int \<times> (nat \<times> ether_dev) option \<times> pci_dev \<times> kev list" where
  \<comment> \<open>the result, the device left allocated, the PCI device, the trace\<close>
  "my_net_probe e pdev =
     (let t0 = [pr_info (''My Network Device Probed'' @ [NL])] in
      case alloc_etherdev_ret e of
        None \<Rightarrow> (- ENOMEM, None, pdev, t0 @ [Get EtherDev (- ENOMEM)])
      | Some netdev \<Rightarrow>
        let d = fill_netdev netdev pdev; err = register_netdev_ret e;
            t1 = t0 @ [Get EtherDev 0, Get NetReg (if err = 0 then 0 else - 1)] in
        if err \<noteq> 0 then (err, None, pdev, t1 @ [Put EtherDev])
        else
        let err = pci_enable_device_ret e; t2 = t1 @ [Get PciEnable (if err = 0 then 0 else - 1)] in
        if err \<noteq> 0 then (err, None, pdev, t2 @ [Put NetReg, Put EtherDev])
        else (0, Some (netdev, d), pdev, t2 @ [pr_info (''My Network Device Initialized'' @ [NL])]))"

definition my_net_remove :: "pci_dev \<Rightarrow> fault + kev list" where
  "my_net_remove pdev =
     (case drvdata pdev of
        None \<Rightarrow> Inl NullDeref
      | Some netdev \<Rightarrow>
          Inr [pr_info (''My Network Device Removed'' @ [NL]), Put NetReg, Put EtherDev, Put PciEnable])"

definition my_net_init :: "int \<Rightarrow> int \<times> unit \<times> kev list" where
  "my_net_init ret = (ret, (), [pr_info (''My Network Driver Loaded'' @ [NL]), Get PciDriver ret])"

definition my_net_exit :: "unit \<Rightarrow> kev list" where
  "my_net_exit s = [pr_info (''My Network Driver Unloaded'' @ [NL]), Put PciDriver]"

section \<open>Lemmas\<close>

lemmas probe_defs = my_net_probe_def fill_netdev_def Let_def

interpretation net_drv: driver my_net_init my_net_exit "\<lambda>ret. ret \<le> 0"
  by unfold_locales (auto simp: my_net_init_def my_net_exit_def balanced_def)

text \<open>
  C37: \<open>my_net_probe\<close> returns the first error of its three calls (\<open>-ENOMEM\<close> when there is no device, then
  what \<open>register_netdev\<close>, then what \<open>pci_enable_device\<close> returned) and then holds nothing, or 0 and then
  holds the device it filled in, its registration and the enabled PCI device. It never sets the
  driver data, so \<open>my_net_remove\<close> on the device a probe left works on a NULL \<open>net_device\<close>.
\<close>

theorem net_probe_remove:
  assumes "my_net_probe e pdev = (ret, d, pdev', t)" "drvdata pdev = None"
  shows "ret = (if alloc_etherdev_ret e = None then - ENOMEM
      else if register_netdev_ret e \<noteq> 0 then register_netdev_ret e else pci_enable_device_ret e) \<and>
    lifo [] t = Some (if ret = 0 then [PciEnable, NetReg, EtherDev] else []) \<and>
    d = (if ret = 0 then map_option (\<lambda>n. (n, fill_netdev n pdev)) (alloc_etherdev_ret e) else None) \<and>
    my_net_remove pdev' = Inl NullDeref"
  using assms
  by (auto simp: my_net_probe_def Let_def my_net_remove_def split: option.splits if_splits)

lemma net_probe_remove_witness:
  "\<exists>d pdev' t. my_net_probe \<lparr>alloc_etherdev_ret = Some 3, register_netdev_ret = 0, pci_enable_device_ret = 0\<rparr>
      \<lparr>pci_irq = 11, drvdata = None\<rparr> = (0, d, pdev', t) \<and> my_net_remove pdev' = Inl NullDeref"
proof -
  let ?e = "\<lparr>alloc_etherdev_ret = Some 3, register_netdev_ret = 0, pci_enable_device_ret = 0\<rparr> :: probe_env"
  obtain ret d pdev' t where p: "my_net_probe ?e \<lparr>pci_irq = 11, drvdata = None\<rparr> = (ret, d, pdev', t)"
    by (cases "my_net_probe ?e \<lparr>pci_irq = 11, drvdata = None\<rparr>")
  with net_probe_remove [OF p] show ?thesis by simp
qed

end
