(* ===== verification/Dtsof.thy ===== *)
theory Dtsof
  imports Driver_Lifecycle "HOL-Library.Word"
begin

text \<open>
  \<open>dtsof/dtsof.c\<close>: a module whose init reads properties of the device tree node \<open>/backlight\<close>. The
  tree and the memory allocator are arguments of the model. \<open>elemsize\<close> is a \<open>u32\<close>, so a negative
  count of elements is a large number in it and the test for \<open>elemsize < 0\<close> is never true.
\<close>

record dtsof_env =
  bl_nd_found :: bool
  compatible_value :: "string option"
  status_read :: "int \<times> string"
  default_brightness :: "int \<times> 32 word"
  levels_count :: int                      \<comment> \<open>what counting the elements returns\<close>
  levels_kmalloc :: "nat \<Rightarrow> bool"           \<comment> \<open>whether there is memory for so many bytes\<close>
  levels_read :: "nat \<Rightarrow> int \<times> 32 word list"  \<comment> \<open>reading so many elements\<close>

definition level_lines :: "32 word list \<Rightarrow> nat \<Rightarrow> kev list" where
  "level_lines brival elemsize =
     map (\<lambda>i. pr_alert (''dtsof: brightness-levels['' @ dec (int i) @ '']: '' @ dec (uint (brival ! i)) @ [NL]))
       [0..<elemsize]"

definition dtsof_levels :: "dtsof_env \<Rightarrow> int \<times> kev list" where
  \<comment> \<open>from step 4 on\<close>
  "dtsof_levels e =
     (let elemsize = word_of_int (levels_count e) :: 32 word in
      if uint elemsize < 0 then (- EINVAL, [])
      else
      let t1 = [pr_alert (''dtsof: brightness-levels size: '' @ dec (sint elemsize) @ [NL])] in
      if \<not> levels_kmalloc e (unat elemsize * 4) then
        (- ENOMEM, t1 @ [Get Kmem (- ENOMEM), pr_alert (''dtsof: kmalloc failed!'' @ [NL])])
      else
      (case levels_read e (unat elemsize) of (ret, brival) \<Rightarrow>
         (0, t1 @ [Get Kmem 0] @ (if ret \<noteq> 0 then [] else level_lines brival (unat elemsize)) @ [Put Kmem])))"

definition dtsof_init :: "dtsof_env \<Rightarrow> int \<times> unit \<times> kev list" where
  "dtsof_init e =
     (if \<not> bl_nd_found e then
        (- EINVAL, (), [Get DtNode (- ENODEV), pr_alert (''dtsof: can'' @ [CHR 0x27] @ ''t find backlight node!'' @ [NL])])
      else
      let t1 = [Get DtNode 0, pr_alert (''dtsof: find backlight node!'' @ [NL])] in
      (case compatible_value e of
         None \<Rightarrow> (- EINVAL, (), t1 @ [pr_alert (''dtsof: can'' @ [CHR 0x27] @ ''t find compatible property!'' @ [NL])])
       | Some v \<Rightarrow>
         let t2 = t1 @ [pr_alert (''dtsof: find compatible property!'' @ [NL]), pr_alert (''dtsof: '' @ cstr v @ [NL])] in
         (case status_read e of (ret, str) \<Rightarrow>
          if ret \<noteq> 0 then
            (ret, (), t2 @ [pr_alert (''dtsof: can'' @ [CHR 0x27] @ ''t find status property!'' @ [NL])])
          else
          let t3 = t2 @ [pr_alert (''status: '' @ str @ [NL])] in
          (case default_brightness e of (ret, def_value) \<Rightarrow>
           if ret \<noteq> 0 then (ret, (), t3)
           else
           let t4 = t3 @ [pr_alert (''default-brightness_level: '' @ dec (uint def_value) @ [NL])] in
           (case dtsof_levels e of (ret, t5) \<Rightarrow> (ret, (), t4 @ t5))))))"

definition dtsof_exit :: "unit \<Rightarrow> kev list" where
  "dtsof_exit s = [pr_alert (''dtsof exit ok!'' @ [NL])]"

section \<open>Lemmas\<close>

lemma balanced_level_lines [simp]: "balanced (level_lines ws n)"
  by (simp add: level_lines_def)

lemma dtsof_levels_balanced: "dtsof_levels e = (ret, t) \<Longrightarrow> balanced t"
proof -
  have "balanced (Get Kmem 0 # level_lines ws n @ [Put Kmem])" for ws n
    using balanced_bracket [of "level_lines ws n" "[]" 0 Kmem] by simp
  moreover have "balanced [Get Kmem 0, Put Kmem]" by (simp add: balanced_def)
  ultimately show "dtsof_levels e = (ret, t) \<Longrightarrow> balanced t"
    by (auto simp: dtsof_levels_def Let_def split: prod.splits if_splits)
qed

lemma dtsof_levels_ret:
  "dtsof_levels e = (ret, t) \<Longrightarrow>
   ret = (if levels_kmalloc e (unat (word_of_int (levels_count e) :: 32 word) * 4) then 0 else - ENOMEM)"
  by (auto simp: dtsof_levels_def Let_def split: prod.splits if_splits)

text \<open>
  C38: the memory \<open>dtsof_init\<close> allocates is freed on every path, and the reference to the node, when
  it was found, never is. The result is the first error among the node, the compatible and status
  properties, the default brightness and the allocation; an error of reading the array, or a
  negative count of its elements, is not reported.
\<close>

theorem dtsof_init_result:
  assumes "dtsof_init e = (ret, s, t)"
  shows "lifo [] t = Some (if bl_nd_found e then [DtNode] else []) \<and>
    ret = (if \<not> bl_nd_found e \<or> compatible_value e = None then - EINVAL
           else if fst (status_read e) \<noteq> 0 then fst (status_read e)
           else if fst (default_brightness e) \<noteq> 0 then fst (default_brightness e)
           else if \<not> levels_kmalloc e (unat (word_of_int (levels_count e) :: 32 word) * 4) then - ENOMEM
           else 0)"
proof -
  obtain r u where l: "dtsof_levels e = (r, u)" by (cases "dtsof_levels e")
  have "lifo h u = Some h" for h by (rule balanced_lifo [OF dtsof_levels_balanced [OF l]])
  then show ?thesis using assms dtsof_levels_ret [OF l]
    by (auto simp: dtsof_init_def Let_def l lifo_append split: option.splits prod.splits if_splits)
qed

lemma dtsof_init_result_witness:
  "\<exists>t. dtsof_init \<lparr>bl_nd_found = True, compatible_value = Some ''pwm'', status_read = (0, ''okay''),
      default_brightness = (0, 6), levels_count = - 22, levels_kmalloc = (\<lambda>n. True),
      levels_read = (\<lambda>n. (- 22, []))\<rparr> = (0, (), t) \<and> lifo [] t = Some [DtNode]"
proof -
  let ?e = "\<lparr>bl_nd_found = True, compatible_value = Some ''pwm'', status_read = (0, ''okay''),
      default_brightness = (0, 6), levels_count = - 22, levels_kmalloc = (\<lambda>n. True),
      levels_read = (\<lambda>n. (- 22, []))\<rparr> :: dtsof_env"
  obtain ret t where i: "dtsof_init ?e = (ret, (), t)" by (cases "dtsof_init ?e") auto
  from dtsof_init_result [OF i] i show ?thesis by simp
qed

end
