(* ===== verification/Dbg_Msg.thy ===== *)
theory Dbg_Msg
  imports Kernel_Events "HOL-Library.Word"
begin

text \<open>
  \<open>common/dbgmsg.c\<close>: a hex dump of a message in lines of 16 bytes. The loop prints and clears its
  line buffer at every index divisible by 16 and formats the byte only at the others.
\<close>

record dbg =
  ucBuf :: "char list"
  dwCur :: nat
  dbg_log :: "kev list"

definition put_hex :: "8 word \<Rightarrow> dbg \<Rightarrow> fault + dbg" where
  \<comment> \<open>\<open>snprintf(ucBuf + dwCur, 3, "%02x", byte)\<close> and \<open>dwCur += dwNum\<close>\<close>
  "put_hex b s =
     (if dwCur s + 3 \<le> length (ucBuf s)
      then Inr (s\<lparr>ucBuf := take (dwCur s) (ucBuf s) @ hex2 (unat b) @ NUL # drop (dwCur s + 3) (ucBuf s),
                  dwCur := dwCur s + 2\<rparr>)
      else Inl OutOfBounds)"

fun dbg_loop :: "nat \<Rightarrow> 8 word list \<Rightarrow> dbg \<Rightarrow> fault + dbg" where
  \<comment> \<open>\<open>dwLp\<close> and the bytes from \<open>pMsg + dwLp\<close> on\<close>
  "dbg_loop dwLp [] s = Inr s"
| "dbg_loop dwLp (b # bs) s =
     (if dwLp mod 16 = 0
      then dbg_loop (dwLp + 1) bs
             \<lparr>ucBuf = replicate 64 NUL, dwCur = 0, dbg_log = dbg_log s @ [printk (SP # cstr (ucBuf s) @ [NL])]\<rparr>
      else bindF (put_hex b s) (dbg_loop (dwLp + 1) bs))"

definition DbgPrintMsg :: "8 word list \<Rightarrow> fault + (int \<times> kev list)" where
  \<comment> \<open>the \<open>dwLen\<close> bytes of the message\<close>
  "DbgPrintMsg msg =
     bindF (dbg_loop 0 msg \<lparr>ucBuf = replicate 64 NUL, dwCur = 0,
              dbg_log = [printk (''--------------------- begin'' @ [NL])]\<rparr>) (\<lambda>s.
       Inr (0, dbg_log s @ [printk [NL], printk (''--------------------- end'' @ [NL])]))"

section \<open>What is printed\<close>

definition hexs :: "8 word list \<Rightarrow> string" where
  "hexs bs = concat (map (\<lambda>b. hex2 (unat b)) bs)"

text \<open>
  The lines: at every index divisible by 16 what the block before it left in the buffer, which is
  the block without its first byte. The last block is never printed.
\<close>

function dump_lines :: "8 word list \<Rightarrow> 8 word list \<Rightarrow> 8 word list list" where
  "dump_lines prev [] = []"
| "dump_lines prev (b # bs) = prev # dump_lines (take 15 bs) (drop 15 bs)"
  by pat_completeness auto
termination by (relation "measure (\<lambda>(prev, bs). length bs)") auto

lemma hexs_Nil [simp]: "hexs [] = []" and hexs_Cons [simp]: "hexs (b # bs) = hex2 (unat b) @ hexs bs"
  by (simp_all add: hexs_def)

lemma hexs_append [simp]: "hexs (as @ bs) = hexs as @ hexs bs"
  by (simp add: hexs_def)

lemma length_hexs [simp]: "length (hexs bs) = 2 * length bs"
  by (induction bs) (simp_all add: hex2_def)

lemma hex_digit_not_NUL: "n < 16 \<Longrightarrow> hex_digit n \<noteq> NUL"
proof -
  assume "n < 16"
  then have "(of_char (hex_digit n) :: nat) \<noteq> 0" by (simp add: hex_digit_def digit_def)
  then show "hex_digit n \<noteq> NUL" by auto
qed

lemma hexs_not_NUL: "NUL \<notin> set (hexs bs)"
  by (induction bs) (auto simp: hex2_def hex_digit_not_NUL [THEN not_sym])

text \<open>The line buffer after the bytes \<open>bs\<close> of one block.\<close>

definition line_ok :: "8 word list \<Rightarrow> dbg \<Rightarrow> bool" where
  "line_ok bs s \<longleftrightarrow> length (ucBuf s) = 64 \<and> dwCur s = 2 * length bs \<and>
     (\<exists>r. ucBuf s = hexs bs @ NUL # r)"

lemma line_ok_cstr: "line_ok bs s \<Longrightarrow> cstr (ucBuf s) = hexs bs"
  by (auto simp: line_ok_def cstr_id hexs_not_NUL)

lemma put_hex_line:
  assumes "line_ok bs s" "length bs < 15"
  shows "\<exists>s'. put_hex b s = Inr s' \<and> line_ok (bs @ [b]) s' \<and> dbg_log s' = dbg_log s"
proof -
  obtain r where r: "ucBuf s = hexs bs @ NUL # r" using assms by (auto simp: line_ok_def)
  then show ?thesis using assms by (auto simp: put_hex_def line_ok_def hex2_def)
qed

lemma dbg_loop_line:
  assumes "line_ok bs s" "length bs + length ms \<le> 15" "dwLp mod 16 = Suc (length bs)"
  shows "\<exists>s'. dbg_loop dwLp (ms @ rest) s = dbg_loop (dwLp + length ms) rest s' \<and>
    line_ok (bs @ ms) s' \<and> dbg_log s' = dbg_log s"
  using assms
proof (induction ms arbitrary: bs s dwLp)
  case Nil
  then show ?case by auto
next
  case (Cons m ms)
  obtain s1 where s1: "put_hex m s = Inr s1" "line_ok (bs @ [m]) s1" "dbg_log s1 = dbg_log s"
    using put_hex_line [of bs s m] Cons.prems by auto
  have "ms = [] \<or> (dwLp + 1) mod 16 = Suc (length (bs @ [m]))"
    using Cons.prems(2,3) by (cases ms) (auto simp: mod_Suc)
  then show ?case
  proof
    assume "ms = []"
    then show ?thesis using s1 Cons.prems(3) by auto
  next
    assume "(dwLp + 1) mod 16 = Suc (length (bs @ [m]))"
    from Cons.IH [OF s1(2) _ this] show ?thesis using s1 Cons.prems(2,3) by auto
  qed
qed

lemma dbg_loop_blocks:
  assumes "line_ok prev s" "dwLp mod 16 = 0"
  shows "\<exists>s'. dbg_loop dwLp msg s = Inr s' \<and>
    dbg_log s' = dbg_log s @ map (\<lambda>l. printk (SP # hexs l @ [NL])) (dump_lines prev msg)"
  using assms
proof (induction prev msg arbitrary: s dwLp rule: dump_lines.induct)
  case (1 prev)
  then show ?case by simp
next
  case (2 prev b bs)
  let ?t = "\<lparr>ucBuf = replicate 64 NUL, dwCur = 0, dbg_log = dbg_log s @ [printk (SP # cstr (ucBuf s) @ [NL])]\<rparr>"
  have "replicate 64 NUL = NUL # replicate 63 NUL" by (simp add: numeral_eq_Suc)
  then have t: "line_ok [] ?t" by (simp add: line_ok_def)
  have first: "dbg_loop dwLp (b # bs) s = dbg_loop (dwLp + 1) (take 15 bs @ drop 15 bs) ?t"
    using 2(3) by simp
  have "(dwLp + 1) mod 16 = Suc (length ([] :: 8 word list))" using 2(3) by (simp add: mod_Suc)
  from dbg_loop_line [OF t _ this, of "take 15 bs" "drop 15 bs"] obtain s1 where
    s1: "dbg_loop (dwLp + 1) (take 15 bs @ drop 15 bs) ?t = dbg_loop (dwLp + 1 + length (take 15 bs)) (drop 15 bs) s1"
      "line_ok (take 15 bs) s1" "dbg_log s1 = dbg_log ?t" by auto
  show ?case
  proof (cases "drop 15 bs")
    case Nil
    then show ?thesis using first s1 line_ok_cstr [OF 2(2)] by simp
  next
    case (Cons c cs)
    then have "15 < length bs" by (metis drop_eq_Nil leI list.distinct(1))
    then have "(dwLp + 1 + length (take 15 bs)) mod 16 = 0" using 2(3) by (simp add: mod_Suc)
    from 2(1) [OF s1(2) this] show ?thesis using first s1 line_ok_cstr [OF 2(2)] by simp
  qed
qed

lemma DbgPrintMsg_eq:
  "DbgPrintMsg msg = Inr (0, printk (''--------------------- begin'' @ [NL]) #
     map (\<lambda>l. printk (SP # hexs l @ [NL])) (dump_lines [] msg) @
     [printk [NL], printk (''--------------------- end'' @ [NL])])"
proof -
  let ?s = "\<lparr>ucBuf = replicate 64 NUL, dwCur = 0, dbg_log = [printk (''--------------------- begin'' @ [NL])]\<rparr>"
  have "replicate 64 NUL = NUL # replicate 63 NUL" by (simp add: numeral_eq_Suc)
  then have "line_ok [] ?s" by (simp add: line_ok_def)
  from dbg_loop_blocks [OF this, of 0 msg] show ?thesis by (auto simp: DbgPrintMsg_def)
qed

text \<open>
  C39: \<open>DbgPrintMsg\<close> never overruns its line buffer, but it does not print the whole message: each
  line lacks the first byte of its block of 16, and the last block is not printed at all.
\<close>

theorem DbgPrintMsg_lines:
  "DbgPrintMsg msg = Inr (0, printk (''--------------------- begin'' @ [NL]) #
     map (\<lambda>l. printk (SP # hexs l @ [NL])) (dump_lines [] msg) @
     [printk [NL], printk (''--------------------- end'' @ [NL])])"
  by (rule DbgPrintMsg_eq)

end
