(* ===== verification/Chr_App.thy ===== *)
theory Chr_App
  imports New_Chrdev Chrdev_Base
begin

text \<open>
  The user programs \<open>chrdevbase/chrdevbaseApp.c\<close> and \<open>newchrdevbase/newchrdevbaseApp.c\<close> (the same
  text): open a device, read 100 bytes from it or write a string to it, close it. The device is a
  record of system calls over its state \<open>'s\<close>; the program run on the two drivers is the
  composition of the components.
\<close>

record 's file_sys =
  sys_open :: "string \<Rightarrow> int"
  sys_read :: "nat \<Rightarrow> 's \<Rightarrow> int \<times> char list"
    \<comment> \<open>the result and the bytes put at the start of the buffer\<close>
  sys_write :: "string \<Rightarrow> 's \<Rightarrow> fault + (int \<times> 's)"
  sys_close :: int

definition atoi :: "string \<Rightarrow> int" where
  "atoi s0 =
     (let s = skip_spaces s0;
          plus = (s \<noteq> [] \<and> hd s = CHR ''+'');
          t = (if plus then tl s else s) in
      if plus \<and> (t = [] \<or> \<not> isdigit (hd t)) then 0
      else case scan_d t of None \<Rightarrow> 0 | Some (v, _) \<Rightarrow> wrap32 v)"

abbreviation CRNL :: string where "CRNL \<equiv> [CHR 0x0D, NL]"

definition app_close :: "'s file_sys \<Rightarrow> string \<Rightarrow> string list" where
  "app_close sys filename = (if sys_close sys < 0 then [''Close file '' @ filename @ '' failed'' @ CRNL] else [])"

definition app_main :: "'s file_sys \<Rightarrow> char list \<Rightarrow> string list \<Rightarrow> 's \<Rightarrow> fault + (int \<times> string list \<times> 's)" where
  \<comment> \<open>the device, what the uninitialised \<open>readbuf[100]\<close> holds, the arguments, the device's state;
    gives the exit status, what is printed, and the state\<close>
  "app_main sys stack argv s =
     (if length argv \<noteq> 4 then Inr (- 1, [''Invalid parameter'' @ CRNL], s)
      else
      let filename = argv ! 1; pWritebuf = argv ! 3 in
      if sys_open sys filename < 0 then Inr (- 1, [''Can'' @ [CHR 0x27] @ ''t open file '' @ filename @ CRNL], s)
      else if atoi (argv ! 2) = 1 then
        (case sys_read sys 100 s of (ret, bs) \<Rightarrow>
           if ret < 0 then Inr (- 1, [''Read file '' @ filename @ '' failed'' @ CRNL], s)
           else bindF (str_arg (bs @ drop (length bs) stack)) (\<lambda>str.
             Inr (0, (''Read file '' @ filename @ '' success, data is '' @ str @ CRNL) # app_close sys filename, s)))
      else if atoi (argv ! 2) = 2 then
        bindF (sys_write sys pWritebuf s) (\<lambda>(ret, s').
          if ret < 0 then Inr (- 1, [''Write file '' @ filename @ '' failed'' @ CRNL], s')
          else Inr (0, (''Write file '' @ filename @ '' success'' @ CRNL) # app_close sys filename, s'))
      else Inr (0, (''Invalid parameter'' @ CRNL) # app_close sys filename, s))"

definition newchr_app_main :: "'s file_sys \<Rightarrow> char list \<Rightarrow> string list \<Rightarrow> 's \<Rightarrow> fault + (int \<times> string list \<times> 's)" where
  "newchr_app_main = app_main"

section \<open>The program on the drivers\<close>

text \<open>The copies between user and kernel memory are complete here.\<close>

definition full_copy :: "string \<Rightarrow> ucopy" where
  "full_copy d = \<lparr>not_copied = 0, moved = d\<rparr>"

definition newchr_sys :: "char list file_sys" where
  "newchr_sys =
     \<lparr>sys_open = (\<lambda>_. fst newchardevbase_open),
      sys_read = (\<lambda>n s. case newchardevbase_read n 0 s of Inr (ret, bs, _) \<Rightarrow> (ret, bs) | Inl _ \<Rightarrow> (- 1, [])),
      sys_write = (\<lambda>d s. bindF (newchardevbase_write (full_copy d) (length d) s) (\<lambda>(ret, s', _). Inr (ret, s'))),
      sys_close = fst newchardevbase_release\<rparr>"

definition chrdev_sys :: "chrdevbase file_sys" where
  "chrdev_sys =
     \<lparr>sys_open = (\<lambda>_. fst chrdevbase_open),
      sys_read = (\<lambda>n s. case chrdevbase_read n 0 s of Inr (ret, bs, _) \<Rightarrow> (ret, bs) | Inl _ \<Rightarrow> (- 1, [])),
      sys_write = (\<lambda>d s. bindF (chrdevbase_write (full_copy d) (length d) s) (\<lambda>(ret, s', _). Inr (ret, s'))),
      sys_close = fst chrdevbase_release\<rparr>"

section \<open>Lemmas\<close>

lemma atoi_dec: "is_int32 v \<Longrightarrow> atoi (dec v) = v"
proof -
  assume v: "is_int32 v"
  have "hd (dec v) \<in> set (dec v)" by simp
  moreover have "CHR ''+'' \<notin> set (dec_nat n)" for n
    using dec_nat_digits [of "CHR ''+''" n] by (auto simp: isdigit_def)
  then have "CHR ''+'' \<notin> set (dec v)" by (simp add: dec_def)
  ultimately have "hd (dec v) \<noteq> CHR ''+''" by metis
  moreover have "skip_spaces (dec v) = dec v" using skip_spaces_dec [of v "[]"] by simp
  ultimately show ?thesis
    using scan_d_dec [of "[]" v] v by (simp add: atoi_def is_int32_def wrap32_id)
qed

lemma from_user_full:
  "length d \<le> length b \<Longrightarrow> from_user b (full_copy d) (length d) = Inr (d @ drop (length d) b)"
  by (simp add: from_user_def full_copy_def)

lemma cstr_append: "NUL \<notin> set w \<Longrightarrow> cstr (w @ b) = w @ cstr b"
  by (induction w) auto

lemma app_args: "atoi (dec 2) = 2" "atoi (dec 1) = 1"
  by (simp_all add: atoi_dec is_int32_def)

text \<open>
  The interface between the program and a device that keeps 100 bytes: a write puts its bytes over the
  start of them, a read gives all of them.
\<close>

locale kept_bytes =
  fixes sys :: "'s file_sys" and bytes :: "'s \<Rightarrow> char list"
  assumes opens: "sys_open sys f = 0" and closes: "sys_close sys = 0"
    and writes: "length d \<le> length (bytes s) \<Longrightarrow>
      \<exists>s'. sys_write sys d s = Inr (0, s') \<and> bytes s' = d @ drop (length d) (bytes s)"
    and reads: "sys_read sys n s = (0, bytes s)"
begin

lemma app_read:
  assumes "length (bytes s) = 100" "length stack = 100"
  shows "app_main sys stack [prog, f, dec 1, x] s =
    (if NUL \<in> set (bytes s) then Inr (0, [''Read file '' @ f @ '' success, data is '' @ cstr (bytes s) @ CRNL], s)
     else Inl OutOfBounds)"
  using assms by (simp add: app_main_def app_args opens closes reads app_close_def str_arg_def Let_def)

lemma app_write:
  assumes "length w \<le> length (bytes s)"
  shows "\<exists>s'. app_main sys stack [prog, f, dec 2, w] s = Inr (0, [''Write file '' @ f @ '' success'' @ CRNL], s') \<and>
    bytes s' = w @ drop (length w) (bytes s)"
  using writes [OF assms] by (auto simp: app_main_def app_args opens closes app_close_def Let_def)

lemma write_then_read:
  assumes "length (bytes s) = 100" "NUL \<notin> set w" "length w \<le> 100" "length stack = 100"
  shows "\<exists>s'. app_main sys stack [prog, f, dec 2, w] s = Inr (0, [''Write file '' @ f @ '' success'' @ CRNL], s') \<and>
    app_main sys stack [prog, f, dec 1, x] s' =
      (if NUL \<in> set (drop (length w) (bytes s))
       then Inr (0, [''Read file '' @ f @ '' success, data is '' @ w @ cstr (drop (length w) (bytes s)) @ CRNL], s')
       else Inl OutOfBounds)"
proof -
  have len: "length w \<le> length (bytes s)" using assms(1,3) by simp
  obtain s' where s': "app_main sys stack [prog, f, dec 2, w] s = Inr (0, [''Write file '' @ f @ '' success'' @ CRNL], s')"
    "bytes s' = w @ drop (length w) (bytes s)"
    using app_write [OF len, of stack prog f] by blast
  then have "length (bytes s') = 100" using assms(1,3) by simp
  from app_read [OF this assms(4)] s' assms(2) show ?thesis by (auto simp: cstr_append)
qed

end

interpretation newchr_kept: kept_bytes newchr_sys "\<lambda>s. s"
  by unfold_locales
    (simp_all add: newchr_sys_def newchardevbase_open_def newchardevbase_release_def newchardevbase_write_def
      newchardevbase_read_def from_user_full)

interpretation chrdev_kept: kept_bytes chrdev_sys samebuf
  by unfold_locales
    (simp_all add: chrdev_sys_def chrdevbase_open_def chrdevbase_release_def chrdevbase_write_def
      chrdevbase_read_def from_user_full)

text \<open>
  C35: writing a string of at most 100 characters with the program and reading it back, on either
  driver: the read prints the string followed by whatever the device still holds behind it up to
  the first NUL, since the program writes no terminator and the driver keeps the old bytes; when the
  device holds no NUL behind the string, as after a string of 100 characters, printing the buffer
  reads past its end.
\<close>

theorem app_write_then_read:
  assumes "length s = 100" "samebuf c = s" "NUL \<notin> set w" "length w \<le> 100" "length stack = 100"
  shows "(\<exists>out s'. newchr_app_main newchr_sys stack [prog, f, dec 2, w] s = Inr (0, out, s') \<and>
      newchr_app_main newchr_sys stack [prog, f, dec 1, x] s' =
        (if NUL \<in> set (drop (length w) s)
         then Inr (0, [''Read file '' @ f @ '' success, data is '' @ w @ cstr (drop (length w) s) @ CRNL], s')
         else Inl OutOfBounds)) \<and>
    (\<exists>out c'. app_main chrdev_sys stack [prog, f, dec 2, w] c = Inr (0, out, c') \<and>
      app_main chrdev_sys stack [prog, f, dec 1, x] c' =
        (if NUL \<in> set (drop (length w) s)
         then Inr (0, [''Read file '' @ f @ '' success, data is '' @ w @ cstr (drop (length w) s) @ CRNL], c')
         else Inl OutOfBounds))"
proof -
  have "length (samebuf c) = 100" using assms(1,2) by simp
  from newchr_kept.write_then_read [OF assms(1,3-5)] chrdev_kept.write_then_read [OF this assms(3-5)] show ?thesis
    unfolding newchr_app_main_def assms(2) by blast
qed

lemma app_write_then_read_witness:
  "\<exists>out s'. newchr_app_main newchr_sys (replicate 100 NUL) [''app'', ''/dev/x'', dec 2, ''ab''] (''hello'' @ replicate 95 NUL)
      = Inr (0, out, s') \<and>
    newchr_app_main newchr_sys (replicate 100 NUL) [''app'', ''/dev/x'', dec 1, ''x''] s' =
      Inr (0, [''Read file /dev/x success, data is abllo'' @ CRNL], s')"
proof -
  let ?s = "''hello'' @ replicate 95 NUL"
  have 1: "length ?s = 100" "samebuf (chrdevbase_static\<lparr>samebuf := ?s\<rparr>) = ?s" "NUL \<notin> set ''ab''"
    "length ''ab'' \<le> 100" "length (replicate 100 NUL) = 100" by simp_all
  have 2: "cstr (drop (length ''ab'') ?s) = ''llo''" "NUL \<in> set (drop (length ''ab'') ?s)" by (simp_all add: cstr_def)
  from app_write_then_read [OF 1, of "''app''" "''/dev/x''" "''x''"] 2(2) show ?thesis
    unfolding 2(1) by simp
qed

text \<open>
  The usage comment of the program gives a file name and 1, without a further argument, as the way
  to read; such a call is refused.
\<close>

lemma app_usage: "app_main sys stack [prog, f, dec 1] s = Inr (- 1, [''Invalid parameter'' @ CRNL], s)"
  by (simp add: app_main_def)

end
