(* ===== verification/Ioctl_App.thy ===== *)
theory Ioctl_App
  imports Ioctl_Dev Chr_App
begin

text \<open>
  \<open>ioctl_device/my_device_test.c\<close>: set a value, get it back, show it ten times. The device is what
  its \<open>ioctl\<close> does with a command and the program's variable \<open>value\<close>, whose address every call
  passes; \<open>my_device_ioctl\<close> is the driver of \<open>Ioctl_Dev\<close> behind it.
\<close>

type_synonym 's ioctl_call = "nat \<Rightarrow> 32 word \<Rightarrow> 's \<Rightarrow> int \<times> 32 word \<times> 's"

fun show_loop :: "'s ioctl_call \<Rightarrow> nat \<Rightarrow> 32 word \<Rightarrow> 's \<Rightarrow> bool \<times> 's" where
  \<comment> \<open>the \<open>for\<close> loop; whether it came to its end\<close>
  "show_loop ioctl 0 val s = (True, s)"
| "show_loop ioctl (Suc n) val s =
     (case ioctl IOCTL_SHOW_VALUE val s of (ret, val', s') \<Rightarrow>
        if ret < 0 then (False, s') else show_loop ioctl n val' s')"

definition test_main :: "int \<Rightarrow> 's ioctl_call \<Rightarrow> string list \<Rightarrow> 's \<Rightarrow> int \<times> string list \<times> 's" where
  \<comment> \<open>the descriptor \<open>open\<close> gives, the device, the arguments, the device's state; gives the exit status
    (\<open>EXIT_FAILURE\<close> is 1), what is printed (for \<open>perror\<close> its prefix) and the state\<close>
  "test_main fd ioctl argv s =
     (if length argv \<noteq> 2 then (1, [''Usage: '' @ argv ! 0 @ '' <value>'' @ [NL]], s)
      else if fd < 0 then (1, [''Failed to open the device''], s)
      else
      (case ioctl IOCTL_SET_VALUE (word_of_int (atoi (argv ! 1))) s of (ret, val, s1) \<Rightarrow>
       if ret < 0 then (1, [''IOCTL SET failed''], s1)
       else
       (case ioctl IOCTL_GET_VALUE val s1 of (ret, val, s2) \<Rightarrow>
        if ret < 0 then (1, [''IOCTL GET failed''], s2)
        else
        let out = [''Value retrieved from the device: '' @ dec (sint val) @ [NL]] in
        (case show_loop ioctl 10 val s2 of (done_all, s3) \<Rightarrow>
         if \<not> done_all then (1, out @ [''IOCTL GET failed''], s3) else (0, out, s3)))))"

definition my_device_ioctl :: "(32 word \<times> kev list) ioctl_call" where
  "my_device_ioctl cmd val s =
     (case my_ioctl cmd \<lparr>user_int = Some val, user_writable = True\<rparr> (fst s) of (ret, stored, put, t) \<Rightarrow>
        (ret, (case put of None \<Rightarrow> val | Some w \<Rightarrow> w), (stored, snd s @ t)))"

section \<open>Lemmas\<close>

lemma my_device_ioctl_calls [simp]:
  "my_device_ioctl IOCTL_SET_VALUE val (x, t) = (0, val, (val, t))"
  "my_device_ioctl IOCTL_GET_VALUE val (x, t) = (0, x, (x, t))"
  "my_device_ioctl IOCTL_SHOW_VALUE val (x, t) = (0, val, (x, t @ [printk (''value is:'' @ dec (uint x) @ [NL])]))"
  by (simp_all add: my_device_ioctl_def my_ioctl_def ioctl_numbers)

lemma show_loop_device:
  "show_loop my_device_ioctl n val (x, t) =
     (True, (x, t @ replicate n (printk (''value is:'' @ dec (uint x) @ [NL]))))"
  by (induction n arbitrary: t) (simp_all add: replicate_append_same [symmetric])

lemma sint_int32: "is_int32 v \<Longrightarrow> sint (word_of_int v :: 32 word) = v"
  by (simp add: is_int32_def int_word_sint)

text \<open>
  Run on the driver with a number that fits in an \<open>int\<close>, the program succeeds and prints that
  number, whatever the driver held before; the driver then holds it and has logged it ten times,
  as an unsigned number.
\<close>

theorem ioctl_test_prints:
  assumes "is_int32 v" "0 \<le> fd"
  shows "test_main fd my_device_ioctl [prog, dec v] (x, t) =
    (0, [''Value retrieved from the device: '' @ dec v @ [NL]],
     (word_of_int v, t @ replicate 10 (printk (''value is:'' @ dec (v mod 2 ^ 32) @ [NL]))))"
  using assms by (simp add: test_main_def atoi_dec sint_int32 show_loop_device uint_word_of_int)

lemma ioctl_test_prints_witness:
  "fst (snd (test_main 3 my_device_ioctl [''my_device_test'', dec (- 7)] (0, []))) =
    [''Value retrieved from the device: '' @ dec (- 7) @ [NL]]"
proof -
  have "is_int32 (- 7)" by (simp add: is_int32_def)
  from ioctl_test_prints [OF this, of 3 "''my_device_test''" 0 "[]"] show ?thesis by simp
qed

end
