(* ===== verification/Mmap_Cat.thy ===== *)
theory Mmap_Cat
  imports Chr_App
begin

unbundle bit_operations_syntax

text \<open>
  \<open>mmap/main.c\<close>: print a part of a file through a mapping. \<open>off_t\<close> is HOL's \<open>int\<close>; \<open>size_t\<close> is a
  64-bit word, and the comparisons that mix the two are done, as in C, in the word. The file system
  calls are arguments of the model.
\<close>

record mmap_env =
  open_ret :: int
  fstat_ret :: int
  st_size :: int
  page_size :: int
  mmap_ret :: "64 word \<Rightarrow> int \<Rightarrow> char list option"
    \<comment> \<open>length and offset; the bytes of the mapping, or \<open>MAP_FAILED\<close>\<close>
  write_ret :: "64 word \<Rightarrow> int"

definition EXIT_SUCCESS :: int where "EXIT_SUCCESS = 0"
definition EXIT_FAILURE :: int where "EXIT_FAILURE = 1"

definition handle_error :: "string \<Rightarrow> int \<times> string \<times> char list" where
  \<comment> \<open>exit status, what went to \<open>stderr\<close> (for \<open>perror\<close> the prefix), what went to \<open>stdout\<close>\<close>
  "handle_error msg = (EXIT_FAILURE, msg, [])"

definition map_offset :: "mmap_env \<Rightarrow> int \<Rightarrow> int" where
  "map_offset e offset = offset AND NOT (page_size e - 1)"

definition show_length :: "mmap_env \<Rightarrow> int \<Rightarrow> int option \<Rightarrow> 64 word" where
  \<comment> \<open>\<open>length\<close>, for the value of the third argument if there is one\<close>
  "show_length e offset arg =
     (case arg of
        Some n \<Rightarrow>
          let len = word_of_int n in
          if word_of_int offset + len > word_of_int (st_size e) then word_of_int (st_size e - offset) else len
      | None \<Rightarrow> word_of_int (st_size e - offset))"

definition mmap_show :: "mmap_env \<Rightarrow> int \<Rightarrow> 64 word \<Rightarrow> int \<times> string \<times> char list" where
  \<comment> \<open>from \<open>mmap\<close> on\<close>
  "mmap_show e offset len =
     (case mmap_ret e (len + word_of_int offset - word_of_int (map_offset e offset)) (map_offset e offset) of
        None \<Rightarrow> handle_error ''mmap''
      | Some addr \<Rightarrow>
          let s = write_ret e len;
              out = take (nat s) (drop (nat (offset - map_offset e offset)) addr) in
          if word_of_int s \<noteq> len then
            (if s = - 1 then handle_error ''write'' else (EXIT_FAILURE, ''partial write'', out))
          else (EXIT_SUCCESS, [], out))"

definition mmap_main :: "mmap_env \<Rightarrow> string list \<Rightarrow> int \<times> string \<times> char list" where
  "mmap_main e argv =
     (if length argv < 3 \<or> length argv > 4 then
        (EXIT_FAILURE, argv ! 0 @ '' file offset [length]'' @ [NL], [])
      else if open_ret e = - 1 then handle_error ''open''
      else if fstat_ret e = - 1 then handle_error ''fstat''
      else
      let offset = atoi (argv ! 2) in
      if offset \<ge> st_size e then (EXIT_FAILURE, ''offset is past end of file'' @ [NL], [])
      else mmap_show e offset
        (show_length e offset (if length argv = 4 then Some (atoi (argv ! 3)) else None)))"

section \<open>Lemmas\<close>

lemma and_not_mask_int: "(a :: int) AND NOT (mask n) = a - a mod 2 ^ n"
proof -
  have "a AND NOT (mask n) = push_bit n (drop_bit n a)"
    by (rule bit_eqI) (auto simp: bit_simps)
  also have "\<dots> = a div 2 ^ n * 2 ^ n" by (simp add: push_bit_eq_mult drop_bit_eq_div)
  also have "\<dots> = a - a mod 2 ^ n" by (simp add: minus_mod_eq_div_mult)
  finally show ?thesis .
qed

lemma map_offset_eq: "page_size e = 2 ^ k \<Longrightarrow> map_offset e a = a - a mod 2 ^ k"
  using and_not_mask_int [of a k] by (simp add: map_offset_def mask_eq_exp_minus_1)

lemma unat_small: "0 \<le> i \<Longrightarrow> i < 2 ^ 63 \<Longrightarrow> unat (word_of_int i :: 64 word) = nat i"
  by (simp add: unat_eq_nat_uint uint_word_of_int_eq take_bit_int_eq_self)

lemma show_length_eq:
  assumes "0 \<le> offset" "offset < st_size e" "st_size e < 2 ^ 62"
    and "\<And>n. arg = Some n \<Longrightarrow> 0 \<le> n \<and> n < 2 ^ 62"
  shows "show_length e offset arg = word_of_int
    (case arg of None \<Rightarrow> st_size e - offset | Some n \<Rightarrow> min n (st_size e - offset))"
proof (cases arg)
  case (Some n)
  have "word_of_int offset + word_of_int n = (word_of_int (offset + n) :: 64 word)" by simp
  then have "(word_of_int offset + word_of_int n > (word_of_int (st_size e) :: 64 word)) \<longleftrightarrow> offset + n > st_size e"
    using assms Some unat_small [of "offset + n"] unat_small [of "st_size e"]
    by (simp only: word_less_nat_alt) auto
  then show ?thesis using Some by (simp add: show_length_def Let_def min_def)
qed (simp add: show_length_def)

text \<open>
  The environment of a good run: the calls succeed, the page size is a power of two, the file has
  less than 2^62 bytes, a mapping that is not empty at an aligned offset holds the bytes of the file from there on,
  and a write of mapped bytes is complete up to the most that one \<open>write\<close> transfers.
\<close>

definition MAX_WRITE :: int where
  \<comment> \<open>\<open>write(2)\<close> on Linux: at most 0x7ffff000 bytes\<close>
  "MAX_WRITE = 0x7ffff000"

definition mmap_env_ok :: "nat \<Rightarrow> char list \<Rightarrow> mmap_env \<Rightarrow> bool" where
  "mmap_env_ok k content e \<longleftrightarrow>
     open_ret e \<noteq> - 1 \<and> fstat_ret e \<noteq> - 1 \<and> page_size e = 2 ^ k \<and>
     st_size e = int (length content) \<and> st_size e < 2 ^ 62 \<and>
     (\<forall>n off. 0 < unat n \<and> 0 \<le> off \<and> off mod 2 ^ k = 0 \<and> off + int (unat n) \<le> st_size e \<longrightarrow>
        (\<exists>pad. mmap_ret e n off = Some (drop (nat off) content @ pad))) \<and>
     (\<forall>n. write_ret e n = min (int (unat n)) MAX_WRITE)"

lemma shown_part:
  fixes off pa :: int and n :: nat
  assumes "0 \<le> pa" "pa \<le> off" "nat off + n \<le> length content"
  shows "take n (drop (nat (off - pa)) (drop (nat pa) content @ pad)) = take n (drop (nat off) content)"
proof -
  have "nat (off - pa) + nat pa = nat off" using assms by simp
  then have "drop (nat (off - pa)) (drop (nat pa) content @ pad) = drop (nat off) content @ drop (nat (off - pa) - (length content - nat pa)) pad"
    by (simp add: add.commute)
  then show ?thesis using assms by simp
qed

lemma map_offset_bounds:
  assumes "page_size e = 2 ^ k" "0 \<le> offset"
  shows "0 \<le> map_offset e offset" "map_offset e offset \<le> offset" "map_offset e offset mod 2 ^ k = 0"
    "offset < map_offset e offset + 2 ^ k"
proof -
  define r where "r = offset mod 2 ^ k"
  have r: "0 \<le> r" "r < 2 ^ k" "r \<le> offset"
    unfolding r_def using assms(2) by (simp_all add: zmod_le_nonneg_dividend)
  have eq: "map_offset e offset = offset - r"
    unfolding r_def by (rule map_offset_eq [OF assms(1)])
  have "(offset - r) mod 2 ^ k = 0" by (simp add: r_def mod_eq_0_iff_dvd)
  then show "0 \<le> map_offset e offset" "map_offset e offset \<le> offset" "map_offset e offset mod 2 ^ k = 0"
    "offset < map_offset e offset + 2 ^ k"
    using r eq by simp_all
qed

lemma mmap_bytes:
  "\<lbrakk>mmap_env_ok k content e; 0 < unat w; 0 \<le> pa; pa mod 2 ^ k = 0; pa + int (unat w) \<le> st_size e\<rbrakk>
    \<Longrightarrow> \<exists>pad. mmap_ret e w pa = Some (drop (nat pa) content @ pad)"
  by (simp only: mmap_env_ok_def)

definition shown :: "char list \<Rightarrow> int \<times> string \<times> char list" where
  \<comment> \<open>what the program does with the bytes it is to show\<close>
  "shown bs = (if int (length bs) \<le> MAX_WRITE then (0, [], bs) else (1, ''partial write'', take (nat MAX_WRITE) bs))"

lemma mmap_show_run:
  assumes ok: "mmap_env_ok k content e" and off: "0 \<le> offset" and m: "0 < m" "offset + m \<le> st_size e"
  shows "mmap_show e offset (word_of_int m) = shown (take (nat m) (drop (nat offset) content))"
proof -
  let ?pa = "map_offset e offset" and ?w = "word_of_int (m + offset - map_offset e offset) :: 64 word"
  have sz: "page_size e = 2 ^ k" "st_size e < 2 ^ 62" "st_size e = int (length content)"
    using ok by (simp_all add: mmap_env_ok_def)
  note pa = map_offset_bounds [OF sz(1) off]
  have w: "word_of_int m + word_of_int offset - word_of_int ?pa = ?w" by simp
  have u: "unat ?w = nat (m + offset - ?pa)"
    using sz m pa by (intro unat_small) auto
  then have "0 < unat ?w" "?pa + int (unat ?w) \<le> st_size e" using m pa by simp_all
  from mmap_bytes [OF ok this(1) pa(1,3) this(2)] obtain pad where addr: "mmap_ret e ?w ?pa = Some (drop (nat ?pa) content @ pad)" ..
  have um: "unat (word_of_int m :: 64 word) = nat m"
    using sz off m by (intro unat_small) auto
  then have wr: "write_ret e (word_of_int m) = min m MAX_WRITE"
    using ok m(1) by (simp add: mmap_env_ok_def del: unat_eq_nat_uint of_nat_unat int_nat_eq)
  have len: "nat offset + nat m \<le> length content"
    using sz off m by simp
  let ?bs = "drop (nat (offset - ?pa)) (drop (nat ?pa) content @ pad)"
  have part: "take j ?bs = take j (take (nat m) (drop (nat offset) content))" if "j \<le> nat m" for j
    using shown_part [OF pa(1,2), of j content pad] len that by (simp add: min_absorb1)
  have blen: "int (length (take (nat m) (drop (nat offset) content))) = m" using len m(1) by simp
  show ?thesis
  proof (cases "m \<le> MAX_WRITE")
    case True
    then show ?thesis
      unfolding mmap_show_def w addr using part [of "nat m"] blen by (simp add: wr shown_def EXIT_SUCCESS_def)
  next
    case False
    then have small: "unat (word_of_int MAX_WRITE :: 64 word) = nat MAX_WRITE" "0 \<le> MAX_WRITE"
      by (simp_all add: MAX_WRITE_def)
    then have ne: "word_of_int MAX_WRITE \<noteq> (word_of_int m :: 64 word)" using um False by auto
    have "min m MAX_WRITE = MAX_WRITE" using False by simp
    then show ?thesis
      unfolding mmap_show_def w addr
      using part [of "nat MAX_WRITE"] blen False ne small(2) by (simp add: wr shown_def EXIT_FAILURE_def MAX_WRITE_def)
  qed
qed

text \<open>
  C36: with an offset inside the file and a positive length, or none, when the calls succeed and
  the file has less than 2^62 bytes, the program asks for a mapping at the last page boundary at or
  before the offset and prints exactly the bytes of the file from the offset on, as many as asked for
  and there are, provided that these are not more than the 0x7ffff000 bytes that one \<open>write\<close>
  transfers; otherwise it prints the first 0x7ffff000 of them, says \<open>partial write\<close> and fails.
\<close>

theorem mmap_prints_part:
  assumes "mmap_env_ok k content e" "0 \<le> offset" "offset < st_size e" "is_int32 offset"
    and "is_int32 n" "0 < n"
  shows "mmap_main e [prog, f, dec offset, dec n] = shown (take (nat n) (drop (nat offset) content)) \<and>
    mmap_main e [prog, f, dec offset] = shown (drop (nat offset) content) \<and>
    map_offset e offset mod 2 ^ k = 0 \<and> map_offset e offset \<le> offset \<and> offset < map_offset e offset + 2 ^ k"
proof -
  have sz: "st_size e < 2 ^ 62" "st_size e = int (length content)" "open_ret e \<noteq> - 1" "fstat_ret e \<noteq> - 1"
      "page_size e = 2 ^ k"
    using assms(1) by (simp_all add: mmap_env_ok_def)
  let ?m = "min n (st_size e - offset)" and ?r = "st_size e - offset"
  have nlen: "n < 2 ^ 62" using assms(5) by (simp add: is_int32_def)
  have m: "0 < ?m" "offset + ?m \<le> st_size e" "0 < ?r" "offset + ?r \<le> st_size e"
    using assms(3,6) by auto
  have all: "take (nat ?m) (drop (nat offset) content) = take (nat n) (drop (nat offset) content)"
    "take (nat ?r) (drop (nat offset) content) = drop (nat offset) content"
    using sz(2) assms(2,3,6) by (auto simp: min_def nat_diff_distrib)
  have len: "show_length e offset (Some n) = word_of_int ?m" "show_length e offset None = word_of_int ?r"
    using show_length_eq [OF assms(2,3) sz(1), of "Some n"] show_length_eq [OF assms(2,3) sz(1), of None]
      assms(6) nlen by simp_all
  have "mmap_main e [prog, f, dec offset, dec n] = mmap_show e offset (word_of_int ?m)"
    "mmap_main e [prog, f, dec offset] = mmap_show e offset (word_of_int ?r)"
    using sz(3,4) assms(3) by (simp_all add: mmap_main_def atoi_dec assms(4,5) del: word_of_int_minus wi_hom_sub flip: len) (simp add: len)
  then have "mmap_main e [prog, f, dec offset, dec n] = shown (take (nat n) (drop (nat offset) content))"
    "mmap_main e [prog, f, dec offset] = shown (drop (nat offset) content)"
    using mmap_show_run [OF assms(1,2) m(1,2)] mmap_show_run [OF assms(1,2) m(3,4)] all
    by (simp_all only:)
  then show ?thesis using map_offset_bounds [OF sz(5) assms(2)] by simp
qed

definition hello_env :: mmap_env where
  "hello_env = \<lparr>open_ret = 3, fstat_ret = 0, st_size = 11, page_size = 4096,
     mmap_ret = \<lambda>n off. Some (drop (nat off) ''hello_world''), write_ret = \<lambda>n. min (int (unat n)) 0x7ffff000\<rparr>"

lemma hello_env_ok: "mmap_env_ok 12 ''hello_world'' hello_env"
  by (simp add: mmap_env_ok_def hello_env_def MAX_WRITE_def)

lemma mmap_prints_part_witness:
  "mmap_main hello_env [''main'', ''file'', dec 6, dec 3] = (0, [], ''wor'') \<and>
    mmap_main hello_env [''main'', ''file'', dec 6] = (0, [], ''world'')"
proof -
  have "6 < st_size hello_env" "is_int32 6" "is_int32 3" by (simp_all add: hello_env_def is_int32_def)
  then show ?thesis
    using mmap_prints_part [OF hello_env_ok, of 6 3 "''main''" "''file''"] by (simp add: shown_def MAX_WRITE_def)
qed

text \<open>A length that is negative is not cut: in the word its sum with the offset may be small.\<close>

lemma negative_length_not_cut:
  "show_length hello_env 6 (Some (- 1)) = - 1"
  by (simp add: show_length_def hello_env_def)

end
