(* ===== verification/Audit_Log.thy ===== *)
theory Audit_Log
  imports Kernel_Events "HOL-Library.Word"
begin

text \<open>
  \<open>auditexample\<close>: a record of system calls. \<open>module/audit.c\<close> keeps up to 100 records, counted by
  \<open>current_pos\<close>, and hands all of them to a reader that waits until 80 are there; the kernel
  side, \<open>forKenerl/audit.c\<close>, calls it through two function pointers. \<open>pending\<close> is the abstract
  state, the records not yet read, oldest first.
\<close>

definition COMM_SIZE :: nat where "COMM_SIZE = 16"
definition AUDIT_BUF_SIZE :: nat where "AUDIT_BUF_SIZE = 100"

record syscall_buf =
  serial_no :: "32 word"
  ts_sec :: "32 word"
  ts_micro :: "32 word"
  syscall_no :: "32 word"
  status :: "32 word"
  pid_no :: int
  uid :: "32 word"
  euid :: "32 word"
  device :: int
  comm_buf :: "8 word list"

definition sizeof_syscall_buf :: nat where "sizeof_syscall_buf = 9 * 4 + COMM_SIZE"

record audit =
  audit_buf :: "syscall_buf list"
  current_pos :: nat
  serial :: "32 word"
  wakeups :: nat  \<comment> \<open>calls of \<open>wake_up_interruptible\<close>\<close>

record caller =
  \<comment> \<open>what \<open>mod_syscall_audit\<close> reads of \<open>current\<close> and of the clock\<close>
  now_sec :: "32 word"
  now_usec :: "32 word"
  cur_pid :: int
  cur_uid :: "32 word"
  cur_euid :: "32 word"
  cur_tty :: "int option"
  cur_comm :: "8 word list"

definition audit_record :: "caller \<Rightarrow> int \<Rightarrow> int \<Rightarrow> 32 word \<Rightarrow> syscall_buf" where
  "audit_record c nr return_status n =
     \<lparr>serial_no = n, ts_sec = now_sec c, ts_micro = now_usec c, syscall_no = word_of_int nr,
      status = word_of_int return_status, pid_no = cur_pid c, uid = cur_uid c, euid = cur_euid c,
      device = (case cur_tty c of None \<Rightarrow> - 1 | Some d \<Rightarrow> d), comm_buf = take COMM_SIZE (cur_comm c)\<rparr>"

definition mod_syscall_audit :: "caller \<Rightarrow> int \<Rightarrow> int \<Rightarrow> audit \<Rightarrow> fault + audit" where
  "mod_syscall_audit c nr return_status a =
     (if current_pos a < AUDIT_BUF_SIZE then
        if current_pos a < length (audit_buf a) then
          let a1 = a\<lparr>audit_buf := (audit_buf a)[current_pos a := audit_record c nr return_status (serial a)],
                     serial := serial a + 1, current_pos := current_pos a + 1\<rparr> in
          Inr (if current_pos a1 = AUDIT_BUF_SIZE * 8 div 10 then a1\<lparr>wakeups := wakeups a1 + 1\<rparr> else a1)
        else Inl OutOfBounds
      else Inr a)"

definition mod_sys_audit :: "nat \<Rightarrow> nat \<Rightarrow> bool \<Rightarrow> nat \<Rightarrow> audit \<Rightarrow> (fault + (int \<times> syscall_buf list \<times> audit)) option" where
  \<comment> \<open>\<open>type\<close>, \<open>us_buf_size\<close>, whether a signal ends the wait, and the number of bytes that
    \<open>__copy_to_user\<close> could not copy, its result, which the code ignores; \<open>None\<close> while it waits. Gives
    the result, the records that are whole in the user's buffer (what follows them there is zero, from
    \<open>__clear_user\<close>, but for the rest of a record copied in part), and the state; the buffer has
    \<open>us_buf_size\<close> bytes, and a copy beyond it is a fault\<close>
  "mod_sys_audit ty us_buf_size signalled uncopied a =
     (if ty \<noteq> 0 then Some (Inr (0, [], a))
      else if \<not> (current_pos a \<ge> AUDIT_BUF_SIZE * 8 div 10 \<or> signalled) then None
      else if us_buf_size < current_pos a * sizeof_syscall_buf then Some (Inl OutOfBounds)
      else Some (Inr (int (current_pos a),
        take ((current_pos a * sizeof_syscall_buf - uncopied) div sizeof_syscall_buf) (take (current_pos a) (audit_buf a)),
        a\<lparr>current_pos := 0\<rparr>)))"

section \<open>The hooks\<close>

record audit_hooks =
  my_audit :: bool     \<comment> \<open>whether the pointer is set (to \<open>mod_syscall_audit\<close>)\<close>
  my_sysaudit :: bool

definition audit_hooks_static :: audit_hooks where
  "audit_hooks_static = \<lparr>my_audit = False, my_sysaudit = False\<rparr>"

definition audit_init :: "audit_hooks \<Rightarrow> int \<times> audit_hooks \<times> kev list" where
  "audit_init h = (0, h\<lparr>my_sysaudit := True, my_audit := True\<rparr>, [printk (''Starting System Call Auditing'' @ [NL])])"

definition audit_exit :: "audit_hooks \<Rightarrow> audit_hooks \<times> kev list" where
  "audit_exit h = (h\<lparr>my_audit := False, my_sysaudit := False\<rparr>, [printk (''Exiting System Call Auditing'' @ [NL])])"

definition syscall_audit :: "audit_hooks \<Rightarrow> caller \<Rightarrow> int \<Rightarrow> int \<Rightarrow> audit \<Rightarrow> fault + audit" where
  "syscall_audit h c nr return_status a = (if my_audit h then mod_syscall_audit c nr return_status a else Inr a)"

definition sys_audit :: "audit_hooks \<Rightarrow> nat \<Rightarrow> nat \<Rightarrow> bool \<Rightarrow> nat \<Rightarrow> audit \<Rightarrow> (fault + (syscall_buf list \<times> audit)) option" where
  \<comment> \<open>the C function ends without a \<open>return\<close>, so its caller gets no result\<close>
  "sys_audit h ty us_buf_size signalled uncopied a =
     (if my_sysaudit h
      then map_option (\<lambda>r. bindF r (\<lambda>(n, out, a'). Inr (out, a'))) (mod_sys_audit ty us_buf_size signalled uncopied a)
      else Some (Inr ([], a)))"

section \<open>Runs\<close>

datatype audit_op = Syscall caller int int | Drain nat bool

text \<open>
  A run of system calls and of reads, with all the records the reads delivered. A read that would
  wait is not taken; the buffers of the readers are memory that can be written.
\<close>

fun audit_run :: "audit_op list \<Rightarrow> audit \<Rightarrow> fault + (syscall_buf list \<times> audit)" where
  "audit_run [] a = Inr ([], a)"
| "audit_run (Syscall c nr st # ops) a = bindF (mod_syscall_audit c nr st a) (audit_run ops)"
| "audit_run (Drain sz sig # ops) a =
     (case mod_sys_audit 0 sz sig 0 a of
        None \<Rightarrow> audit_run ops a
      | Some r \<Rightarrow> bindF r (\<lambda>(n, out, a'). bindF (audit_run ops a') (\<lambda>(rest, a''). Inr (out @ rest, a''))))"

definition audit_static :: audit where
  "audit_static = \<lparr>audit_buf = replicate 100 (audit_record \<lparr>now_sec = 0, now_usec = 0, cur_pid = 0, cur_uid = 0,
      cur_euid = 0, cur_tty = Some 0, cur_comm = replicate 16 0\<rparr> 0 0 0), current_pos = 0, serial = 0, wakeups = 0\<rparr>"

definition pending :: "audit \<Rightarrow> syscall_buf list" where
  "pending a = take (current_pos a) (audit_buf a)"

definition audit_ok :: "audit \<Rightarrow> bool" where
  "audit_ok a \<longleftrightarrow> length (audit_buf a) = AUDIT_BUF_SIZE \<and> current_pos a \<le> AUDIT_BUF_SIZE"

lemma audit_ok_static: "audit_ok audit_static"
  by (simp add: audit_ok_def audit_static_def AUDIT_BUF_SIZE_def)

lemma length_pending: "audit_ok a \<Longrightarrow> length (pending a) = current_pos a"
  by (simp add: audit_ok_def pending_def)

lemma take_Suc_update: "p < length xs \<Longrightarrow> take (Suc p) (xs[p := x]) = take p xs @ [x]"
  by (simp add: take_Suc_conv_app_nth take_update_cancel)

lemma mod_syscall_audit_eq:
  assumes "audit_ok a"
  shows "\<exists>a'. mod_syscall_audit c nr st a = Inr a' \<and> audit_ok a' \<and>
    (if current_pos a < AUDIT_BUF_SIZE
     then pending a' = pending a @ [audit_record c nr st (serial a)] \<and> serial a' = serial a + 1
     else a' = a)"
proof (cases "current_pos a < AUDIT_BUF_SIZE")
  case True
  let ?r = "audit_record c nr st (serial a)"
  let ?a1 = "a\<lparr>audit_buf := (audit_buf a)[current_pos a := ?r], serial := serial a + 1, current_pos := Suc (current_pos a)\<rparr>"
  have "pending ?a1 = pending a @ [?r]" "audit_ok ?a1"
    using True assms by (simp_all add: pending_def audit_ok_def take_Suc_update)
  moreover have "pending (?a1\<lparr>wakeups := w\<rparr>) = pending ?a1" "audit_ok (?a1\<lparr>wakeups := w\<rparr>) = audit_ok ?a1" for w
    by (simp_all add: pending_def audit_ok_def)
  moreover have "mod_syscall_audit c nr st a = Inr ?a1 \<or>
      mod_syscall_audit c nr st a = Inr (?a1\<lparr>wakeups := wakeups a + 1\<rparr>)"
    using True assms by (simp add: mod_syscall_audit_def Let_def audit_ok_def)
  moreover have "serial ?a1 = serial a + 1" "serial (?a1\<lparr>wakeups := wakeups a + 1\<rparr>) = serial a + 1" by simp_all
  ultimately show ?thesis using True by metis
next
  case False
  then show ?thesis using assms by (simp add: mod_syscall_audit_def)
qed

fun serials :: "32 word \<Rightarrow> nat \<Rightarrow> 32 word list" where
  "serials n 0 = []"
| "serials n (Suc k) = n # serials (n + 1) k"

fun calls :: "audit_op list \<Rightarrow> syscall_buf list" where
  \<comment> \<open>the records of all system calls of a run, with the serial number left at 0\<close>
  "calls [] = []"
| "calls (Syscall c nr st # ops) = audit_record c nr st 0 # calls ops"
| "calls (Drain sz sig # ops) = calls ops"

lemma mod_sys_audit_eq:
  assumes "audit_ok a" "5200 \<le> sz"
  shows "mod_sys_audit 0 sz sig uncopied a =
    (if 80 \<le> current_pos a \<or> sig
     then Some (Inr (int (current_pos a), take ((52 * current_pos a - uncopied) div 52) (pending a), a\<lparr>current_pos := 0\<rparr>))
     else None)"
  using assms
  by (auto simp: mod_sys_audit_def audit_ok_def pending_def AUDIT_BUF_SIZE_def sizeof_syscall_buf_def COMM_SIZE_def
      mult.commute)

lemma mod_sys_audit_whole:
  assumes "audit_ok a" "5200 \<le> sz"
  shows "mod_sys_audit 0 sz sig 0 a =
    (if 80 \<le> current_pos a \<or> sig then Some (Inr (int (current_pos a), pending a, a\<lparr>current_pos := 0\<rparr>)) else None)"
  using assms by (simp add: mod_sys_audit_eq length_pending)

lemma record_serial: "(audit_record c nr st n)\<lparr>serial_no := 0\<rparr> = audit_record c nr st 0"
  "serial_no (audit_record c nr st n) = n"
  by (simp_all add: audit_record_def)

text \<open>What a run delivers and leaves, against the records \<open>rs\<close> it accepted.\<close>

definition stream_ok :: "audit_op list \<Rightarrow> audit \<Rightarrow> syscall_buf list \<Rightarrow> audit \<Rightarrow> syscall_buf list \<Rightarrow> bool" where
  "stream_ok ops a out a' rs \<longleftrightarrow>
     out @ pending a' = pending a @ rs \<and> map serial_no rs = serials (serial a) (length rs) \<and>
     subseq (map (\<lambda>r. r\<lparr>serial_no := 0\<rparr>) rs) (calls ops)"

lemma stream_ok_drop: "stream_ok ops a out a' rs \<Longrightarrow> stream_ok (Syscall c nr st # ops) a out a' rs"
  by (auto simp: stream_ok_def)

lemma stream_ok_accept:
  assumes "stream_ok ops a1 out a' rs" "pending a1 = pending a @ [audit_record c nr st (serial a)]"
    "serial a1 = serial a + 1"
  shows "stream_ok (Syscall c nr st # ops) a out a' (audit_record c nr st (serial a) # rs)"
  using assms by (auto simp: stream_ok_def record_serial)

lemma stream_ok_drain:
  assumes "stream_ok ops (a\<lparr>current_pos := 0\<rparr>) out a' rs"
  shows "stream_ok (Drain sz sig # ops) a (pending a @ out) a' rs"
  using assms by (auto simp: stream_ok_def pending_def)

lemma audit_run_stream:
  assumes "audit_ok a" "\<forall>sz sig. Drain sz sig \<in> set ops \<longrightarrow> 5200 \<le> sz"
  shows "\<exists>out a' rs. audit_run ops a = Inr (out, a') \<and> audit_ok a' \<and> stream_ok ops a out a' rs"
  using assms
proof (induction ops arbitrary: a)
  case Nil
  then show ?case by (auto simp: stream_ok_def intro: exI [of _ "[]"])
next
  case (Cons op ops)
  show ?case
  proof (cases op)
    case (Syscall c nr st)
    obtain a1 where a1: "mod_syscall_audit c nr st a = Inr a1" "audit_ok a1"
      "if current_pos a < AUDIT_BUF_SIZE
       then pending a1 = pending a @ [audit_record c nr st (serial a)] \<and> serial a1 = serial a + 1 else a1 = a"
      using mod_syscall_audit_eq [OF Cons.prems(1), of c nr st] by blast
    obtain out a' rs where r: "audit_run ops a1 = Inr (out, a')" "audit_ok a'" "stream_ok ops a1 out a' rs"
      using Cons.IH [OF a1(2)] Cons.prems(2) by (meson list.set_intros(2))
    have "\<exists>rs. stream_ok (Syscall c nr st # ops) a out a' rs"
      using a1(3) stream_ok_drop stream_ok_accept r(3) by (metis (full_types))
    then show ?thesis using r(1,2) a1(1) Syscall by auto
  next
    case (Drain sz sig)
    then have sz: "5200 \<le> sz" using Cons.prems(2) by simp
    have "audit_ok (a\<lparr>current_pos := 0\<rparr>)" using Cons.prems(1) by (simp add: audit_ok_def)
    with Cons.IH [OF this] Cons.IH [OF Cons.prems(1)] Cons.prems(2)
    obtain o1 a1 rs1 o2 a2 rs2 where
      "audit_run ops (a\<lparr>current_pos := 0\<rparr>) = Inr (o1, a1)" "audit_ok a1" "stream_ok ops (a\<lparr>current_pos := 0\<rparr>) o1 a1 rs1"
      "audit_run ops a = Inr (o2, a2)" "audit_ok a2" "stream_ok ops a o2 a2 rs2" by (meson list.set_intros(2))
    then show ?thesis using Drain mod_sys_audit_whole [OF Cons.prems(1) sz, of sig] stream_ok_drain [of ops a o1 a1 rs1]
      by (cases "80 \<le> current_pos a \<or> sig") (auto simp: stream_ok_def)
  qed
qed

text \<open>
  The audit stream. In any run of system calls and reads with a buffer of at least 100 records,
  no access is out of bounds, and what the reads delivered followed by what is still pending is a
  subsequence of the calls made, in their order, each once, with consecutive serial numbers: only
  calls that met a full buffer are lost.
\<close>

theorem audit_stream:
  assumes "\<forall>sz sig. Drain sz sig \<in> set ops \<longrightarrow> 5200 \<le> sz"
  shows "\<exists>out a'. audit_run ops audit_static = Inr (out, a') \<and>
    map serial_no (out @ pending a') = serials 0 (length (out @ pending a')) \<and>
    subseq (map (\<lambda>r. r\<lparr>serial_no := 0\<rparr>) (out @ pending a')) (calls ops)"
proof -
  obtain out a' rs where r: "audit_run ops audit_static = Inr (out, a')" "stream_ok ops audit_static out a' rs"
    using audit_run_stream [OF audit_ok_static assms] by blast
  have "pending audit_static = []" "serial audit_static = 0" by (simp_all add: pending_def audit_static_def)
  with r(2) have "out @ pending a' = rs" "map serial_no rs = serials 0 (length rs)"
    "subseq (map (\<lambda>r. r\<lparr>serial_no := 0\<rparr>) rs) (calls ops)" by (simp_all add: stream_ok_def)
  with r(1) show ?thesis by (intro exI [of _ out] exI [of _ a']) simp
qed

definition demo_caller :: caller where
  "demo_caller = \<lparr>now_sec = 1, now_usec = 2, cur_pid = 7, cur_uid = 0, cur_euid = 0, cur_tty = None,
     cur_comm = replicate 16 97\<rparr>"

lemma audit_stream_witness:
  "\<exists>out a'. audit_run [Syscall demo_caller 5 0, Drain 5200 True] audit_static = Inr (out, a') \<and>
     subseq (map (\<lambda>r. r\<lparr>serial_no := 0\<rparr>) (out @ pending a')) [audit_record demo_caller 5 0 0]"
  using audit_stream [of "[Syscall demo_caller 5 0, Drain 5200 True]"] by auto

text \<open>
  C12: the abstract state of the module is the queue of pending records, of length at most 100. A
  system call appends its record when the queue is not full and changes nothing otherwise; it
  wakes the reader exactly when the queue reaches 80 records; a read with a buffer for at least 100
  records (5200 bytes) waits while there are fewer and no signal came, then takes the whole queue and
  returns its length. The reader has all of the records when all of them could be copied; the code
  does not look at what \<open>__copy_to_user\<close> returns, and when bytes are left uncopied the records that are
  not whole in the reader's buffer are taken out of the queue all the same.
\<close>

theorem audit_refines_queue:
  assumes "audit_ok a" "5200 \<le> sz"
  shows "(\<exists>a'. mod_syscall_audit c nr st a = Inr a' \<and> audit_ok a' \<and>
      pending a' = (if length (pending a) < 100 then pending a @ [audit_record c nr st (serial a)] else pending a) \<and>
      wakeups a' = wakeups a + (if length (pending a) = 79 then 1 else 0)) \<and>
    (case mod_sys_audit 0 sz sig uncopied a of
       None \<Rightarrow> length (pending a) < 80 \<and> \<not> sig
     | Some r \<Rightarrow> (80 \<le> length (pending a) \<or> sig) \<and>
         (\<exists>out a'. r = Inr (int (length (pending a)), out, a') \<and>
           out = take ((52 * length (pending a) - uncopied) div 52) (pending a) \<and>
           (uncopied = 0 \<longrightarrow> out = pending a) \<and> audit_ok a' \<and> pending a' = []))"
proof (rule conjI)
  obtain a' where a': "mod_syscall_audit c nr st a = Inr a'" "audit_ok a'"
    "if current_pos a < AUDIT_BUF_SIZE
     then pending a' = pending a @ [audit_record c nr st (serial a)] \<and> serial a' = serial a + 1 else a' = a"
    using mod_syscall_audit_eq [OF assms(1), of c nr st] by blast
  have "wakeups a' = wakeups a + (if current_pos a = 79 then 1 else 0)"
    using a'(1) by (auto simp: mod_syscall_audit_def Let_def AUDIT_BUF_SIZE_def split: if_splits)
  with a' show "\<exists>a'. mod_syscall_audit c nr st a = Inr a' \<and> audit_ok a' \<and>
      pending a' = (if length (pending a) < 100 then pending a @ [audit_record c nr st (serial a)] else pending a) \<and>
      wakeups a' = wakeups a + (if length (pending a) = 79 then 1 else 0)"
    by (auto simp: length_pending [OF assms(1)] AUDIT_BUF_SIZE_def)
next
  have "audit_ok (a\<lparr>current_pos := 0\<rparr>)" "pending (a\<lparr>current_pos := 0\<rparr>) = []"
    using assms(1) by (simp_all add: audit_ok_def pending_def)
  then show "case mod_sys_audit 0 sz sig uncopied a of
       None \<Rightarrow> length (pending a) < 80 \<and> \<not> sig
     | Some r \<Rightarrow> (80 \<le> length (pending a) \<or> sig) \<and>
         (\<exists>out a'. r = Inr (int (length (pending a)), out, a') \<and>
           out = take ((52 * length (pending a) - uncopied) div 52) (pending a) \<and>
           (uncopied = 0 \<longrightarrow> out = pending a) \<and> audit_ok a' \<and> pending a' = [])"
    by (auto simp: mod_sys_audit_eq [OF assms] length_pending [OF assms(1)])
qed

lemma audit_refines_queue_witness:
  "\<exists>a'. mod_syscall_audit demo_caller 5 0 audit_static = Inr a' \<and> length (pending a') = 1"
  using audit_refines_queue [OF audit_ok_static order_refl, of demo_caller 5 0 False 0]
  by (auto simp: length_pending [OF audit_ok_static]) (auto simp: audit_static_def pending_def)

end
