(* ===== verification/Audit_Daemon.thy ===== *)
theory Audit_Daemon
  imports Audit_Log
begin

text \<open>
  \<open>auditexample/daemon/auditd.c\<close>: a program that asks the kernel for the pending records again and
  again and prints them. A turn of its endless loop is \<open>audit_turn\<close>; \<open>daemon_run\<close> interleaves turns with
  the system calls of other programs, which the module of \<open>Audit_Log\<close> records while it is loaded.
  The daemon calls \<open>sys_audit\<close>, which ends without a \<open>return\<close>: the \<open>num\<close> of a turn is whatever the register
  of the result holds, an argument here. The buffer of the daemon is writable memory, so the kernel
  clears all of it and copies all of the records into it.
\<close>

definition AUDITD_BUF_SIZE :: nat where
  \<comment> \<open>\<open>AUDIT_BUF_SIZE\<close> of the daemon, in bytes\<close>
  "AUDITD_BUF_SIZE = 100 * sizeof_syscall_buf"

definition comm_text :: "8 word list \<Rightarrow> string" where
  "comm_text bs = map (\<lambda>b. char_of (unat b)) bs"

definition line_d :: "string \<Rightarrow> int \<Rightarrow> string" where
  "line_d s i = s @ dec i @ [NL]"

definition show_record :: "syscall_buf \<Rightarrow> fault + string list" where
  \<comment> \<open>\<open>comm\<close> is printed with \<open>%s\<close>: without a terminator the read leaves the array\<close>
  "show_record r =
     (if 0 \<notin> set (comm_buf r) then Inl OutOfBounds
      else Inr [''-----------------------------------------------'' @ [NL],
        line_d ''serial: '' (sint (serial_no r)), line_d ''ts_sec: '' (sint (ts_sec r)),
        line_d ''ts_micro: '' (sint (ts_micro r)), line_d ''syscall: '' (sint (syscall_no r)),
        line_d ''status: '' (sint (status r)), line_d ''pid: '' (pid_no r), line_d ''uid: '' (sint (uid r)),
        line_d ''euid: '' (sint (euid r)), line_d ''device: '' (device r),
        ''comm: '' @ cstr (comm_text (comm_buf r)) @ [NL]])"

fun print_records :: "int \<Rightarrow> int \<Rightarrow> syscall_buf list \<Rightarrow> fault + string list" where
  \<comment> \<open>the \<open>for\<close> loop from \<open>i\<close> on, over what the buffer holds from there\<close>
  "print_records i num [] = (if i < num then Inl OutOfBounds else Inr [])"
| "print_records i num (r # rs) =
     (if i < num then bindF (show_record r) (\<lambda>ls. bindF (print_records (i + 1) num rs) (\<lambda>ms. Inr (ls @ ms)))
      else Inr [])"

definition zero_record :: syscall_buf where
  \<comment> \<open>52 bytes that \<open>__clear_user\<close> left at zero\<close>
  "zero_record = \<lparr>serial_no = 0, ts_sec = 0, ts_micro = 0, syscall_no = 0, status = 0, pid_no = 0, uid = 0, euid = 0,
     device = 0, comm_buf = replicate COMM_SIZE 0\<rparr>"

definition col_buf :: "syscall_buf list \<Rightarrow> syscall_buf list" where
  \<comment> \<open>the daemon's buffer after the kernel has cleared it and copied records to it\<close>
  "col_buf recs = recs @ replicate (AUDITD_BUF_SIZE div sizeof_syscall_buf - length recs) zero_record"

definition audit_loaded :: audit_hooks where
  \<comment> \<open>the hooks once the module is loaded\<close>
  "audit_loaded = fst (snd (audit_init audit_hooks_static))"

definition audit_turn :: "bool \<Rightarrow> int \<Rightarrow> audit \<Rightarrow> (fault + (string list \<times> audit)) option" where
  \<comment> \<open>whether a signal ends the wait, and \<open>num\<close>; \<open>None\<close> while the call waits\<close>
  "audit_turn signalled num a =
     map_option (\<lambda>r. bindF r (\<lambda>(recs, a'). bindF (print_records 0 num (col_buf recs)) (\<lambda>ls. Inr (ls, a'))))
       (sys_audit audit_loaded 0 AUDITD_BUF_SIZE signalled 0 a)"

datatype daemon_op = By_call caller int int | Turn bool int

fun daemon_run :: "daemon_op list \<Rightarrow> audit \<Rightarrow> fault + (string list \<times> audit)" where
  "daemon_run [] a = Inr ([], a)"
| "daemon_run (By_call c nr st # ops) a = bindF (syscall_audit audit_loaded c nr st a) (daemon_run ops)"
| "daemon_run (Turn sig num # ops) a =
     (case audit_turn sig num a of
        None \<Rightarrow> daemon_run ops a
      | Some r \<Rightarrow> bindF r (\<lambda>(ls, a'). bindF (daemon_run ops a') (\<lambda>(ms, a''). Inr (ls @ ms, a''))))"

section \<open>Lemmas\<close>

definition lines_of :: "syscall_buf \<Rightarrow> string list" where
  "lines_of r = (case show_record r of Inl _ \<Rightarrow> [] | Inr ls \<Rightarrow> ls)"

definition named :: "caller \<Rightarrow> bool" where
  \<comment> \<open>the kernel keeps a terminator in the 16 bytes of a task's \<open>comm\<close>\<close>
  "named c \<longleftrightarrow> 0 \<in> set (take COMM_SIZE (cur_comm c))"

definition printable_record :: "syscall_buf \<Rightarrow> bool" where
  "printable_record r \<longleftrightarrow> 0 \<in> set (comm_buf r)"

lemma show_record_ok: "printable_record r \<Longrightarrow> show_record r = Inr (lines_of r)"
  by (simp add: printable_record_def show_record_def lines_of_def)

lemma print_records_prefix:
  "\<forall>r \<in> set rs. printable_record r \<Longrightarrow> num \<le> i + int (length rs) \<Longrightarrow>
    print_records i num rs = Inr (concat (map lines_of (take (nat (num - i)) rs)))"
proof (induction rs arbitrary: i)
  case (Cons r rs)
  show ?case
  proof (cases "i < num")
    case True
    then have "nat (num - i) = Suc (nat (num - (i + 1)))" by simp
    then show ?thesis using Cons.IH [of "i + 1"] Cons.prems True by (simp add: show_record_ok)
  qed simp
qed simp

lemma print_records_beyond:
  "\<forall>r \<in> set rs. printable_record r \<Longrightarrow> i + int (length rs) < num \<Longrightarrow> print_records i num rs = Inl OutOfBounds"
proof (induction rs arbitrary: i)
  case (Cons r rs)
  then show ?case using Cons.IH [of "i + 1"] by (simp add: show_record_ok)
qed simp

lemma AUDITD_BUF_SIZE_eq: "AUDITD_BUF_SIZE = 5200"
  by (simp add: AUDITD_BUF_SIZE_def sizeof_syscall_buf_def COMM_SIZE_def)

lemma col_buf_eq: "col_buf recs = recs @ replicate (100 - length recs) zero_record"
  by (simp add: col_buf_def AUDITD_BUF_SIZE_eq sizeof_syscall_buf_def COMM_SIZE_def)

lemma col_buf_printable:
  "\<forall>r \<in> set recs. printable_record r \<Longrightarrow> \<forall>r \<in> set (col_buf recs). printable_record r"
  by (auto simp: col_buf_eq printable_record_def zero_record_def COMM_SIZE_def)

definition printed :: "int \<Rightarrow> syscall_buf list \<Rightarrow> string list" where
  \<comment> \<open>what a turn prints that found \<open>num\<close> and was given these records\<close>
  "printed num recs = concat (map lines_of (take (nat num) (col_buf recs)))"

lemma printed_exact: "length recs = nat num \<Longrightarrow> printed num recs = concat (map lines_of recs)"
  by (simp add: printed_def col_buf_eq)

text \<open>The state of the module, as the turns need it.\<close>

definition log_ok :: "audit \<Rightarrow> bool" where
  "log_ok a \<longleftrightarrow> audit_ok a \<and> (\<forall>r \<in> set (pending a). printable_record r)"

lemma log_ok_static: "log_ok audit_static"
  using audit_ok_static by (simp add: log_ok_def) (simp add: pending_def audit_static_def)

lemma log_ok_drained: "log_ok a \<Longrightarrow> log_ok (a\<lparr>current_pos := 0\<rparr>)"
  by (simp add: log_ok_def audit_ok_def pending_def)

lemma audit_turn_eq:
  assumes "log_ok a"
  shows "audit_turn sig num a =
    (if 80 \<le> current_pos a \<or> sig
     then Some (if num \<le> 100 then Inr (printed num (pending a), a\<lparr>current_pos := 0\<rparr>) else Inl OutOfBounds)
     else None)"
proof -
  let ?b = "col_buf (pending a)"
  have ok: "audit_ok a" and pr: "\<forall>r \<in> set ?b. printable_record r"
    using assms col_buf_printable by (auto simp: log_ok_def)
  have "length (pending a) \<le> 100" using ok length_pending [OF ok] by (simp add: audit_ok_def AUDIT_BUF_SIZE_def)
  then have "length ?b = 100" by (simp add: col_buf_eq)
  then have "print_records 0 num ?b = (if num \<le> 100 then Inr (printed num (pending a)) else Inl OutOfBounds)"
    using print_records_prefix [OF pr, of num 0] print_records_beyond [OF pr, of 0 num] by (simp add: printed_def)
  then show ?thesis
    by (simp add: audit_turn_def sys_audit_def audit_loaded_def audit_init_def AUDITD_BUF_SIZE_eq
        mod_sys_audit_whole [OF ok])
qed

lemma log_ok_call:
  assumes "log_ok a" "named c"
  obtains a' where "mod_syscall_audit c nr st a = Inr a'" "log_ok a'"
    "if current_pos a < AUDIT_BUF_SIZE
     then pending a' = pending a @ [audit_record c nr st (serial a)] \<and> serial a' = serial a + 1 else a' = a"
proof -
  have "printable_record (audit_record c nr st n)" for n
    using assms(2) by (simp add: printable_record_def named_def audit_record_def)
  then show thesis
    using mod_syscall_audit_eq [of a c nr st] assms(1) that by (auto simp: log_ok_def split: if_splits)
qed

lemma loaded_call: "syscall_audit audit_loaded c nr st a = mod_syscall_audit c nr st a"
  by (simp add: syscall_audit_def audit_loaded_def audit_init_def)

fun audit_op_of :: "daemon_op \<Rightarrow> audit_op" where
  "audit_op_of (By_call c nr st) = Syscall c nr st"
| "audit_op_of (Turn sig num) = Drain 5200 sig"

fun nums :: "daemon_op list \<Rightarrow> int list" where
  \<comment> \<open>the results the turns of a run find\<close>
  "nums [] = []"
| "nums (By_call c nr st # ops) = nums ops"
| "nums (Turn sig num # ops) = num # nums ops"

fun accepted :: "daemon_op list \<Rightarrow> nat \<Rightarrow> 32 word \<Rightarrow> syscall_buf list" where
  \<comment> \<open>the records of the calls that do not meet a full buffer, when there are \<open>n\<close> records at first
    and the next serial number is \<open>i\<close>\<close>
  "accepted [] n i = []"
| "accepted (By_call c nr st # ops) n i =
     (if n < 100 then audit_record c nr st i # accepted ops (n + 1) (i + 1) else accepted ops n i)"
| "accepted (Turn sig num # ops) n i = accepted ops (if 80 \<le> n \<or> sig then 0 else n) i"

text \<open>The turns that did not wait: what each found as its result, and the records it was given.\<close>

definition run_ok :: "daemon_op list \<Rightarrow> audit \<Rightarrow> (int \<times> syscall_buf list) list \<Rightarrow> audit \<Rightarrow> bool" where
  "run_ok ops a turns a' \<longleftrightarrow>
     daemon_run ops a = Inr (concat (map (\<lambda>(num, recs). printed num recs) turns), a') \<and> log_ok a' \<and>
     subseq (map fst turns) (nums ops) \<and>
     concat (map snd turns) @ pending a' = pending a @ accepted ops (current_pos a) (serial a) \<and>
     (\<exists>rs. stream_ok (map audit_op_of ops) a (concat (map snd turns)) a' rs)"

lemma daemon_run_ok:
  assumes "log_ok a" "\<forall>c nr st. By_call c nr st \<in> set ops \<longrightarrow> named c" "\<forall>num \<in> set (nums ops). num \<le> 100"
  shows "\<exists>turns a'. run_ok ops a turns a'"
  using assms
proof (induction ops arbitrary: a)
  case Nil
  have "run_ok [] a [] a" using Nil by (auto simp: run_ok_def stream_ok_def)
  then show ?case by blast
next
  case (Cons op ops)
  have named: "\<forall>c nr st. By_call c nr st \<in> set ops \<longrightarrow> named c" using Cons.prems(2) by simp
  show ?case
  proof (cases op)
    case (By_call c nr st)
    have nums: "\<forall>num \<in> set (nums ops). num \<le> 100" and nm: "named c" using Cons.prems(2,3) By_call by auto
    obtain a1 where a1: "mod_syscall_audit c nr st a = Inr a1" "log_ok a1"
      "if current_pos a < AUDIT_BUF_SIZE
       then pending a1 = pending a @ [audit_record c nr st (serial a)] \<and> serial a1 = serial a + 1 else a1 = a"
      by (rule log_ok_call [OF Cons.prems(1) nm])
    obtain turns a' where r: "run_ok ops a1 turns a'" using Cons.IH [OF a1(2) named nums] by blast
    then obtain rs where "stream_ok (map audit_op_of ops) a1 (concat (map snd turns)) a' rs" by (auto simp: run_ok_def)
    then have "\<exists>rs. stream_ok (Syscall c nr st # map audit_op_of ops) a (concat (map snd turns)) a' rs"
      using a1(3) stream_ok_drop stream_ok_accept by (metis (full_types))
    moreover have "pending a1 @ accepted ops (current_pos a1) (serial a1) = pending a @ accepted (op # ops) (current_pos a) (serial a)"
      using a1(2,3) Cons.prems(1) length_pending [of a] length_pending [of a1]
      by (cases "current_pos a < 100") (auto simp: By_call log_ok_def AUDIT_BUF_SIZE_def)
    ultimately have "run_ok (op # ops) a turns a'" using r a1(1) By_call by (simp add: run_ok_def loaded_call)
    then show ?thesis by blast
  next
    case (Turn sig num)
    have nums: "\<forall>num \<in> set (nums ops). num \<le> 100" and num: "num \<le> 100" using Cons.prems(3) Turn by simp_all
    show ?thesis
    proof (cases "80 \<le> current_pos a \<or> sig")
      case True
      obtain turns a' where r: "run_ok ops (a\<lparr>current_pos := 0\<rparr>) turns a'"
        using Cons.IH [OF log_ok_drained [OF Cons.prems(1)] named nums] by blast
      then obtain rs where "stream_ok (map audit_op_of ops) (a\<lparr>current_pos := 0\<rparr>) (concat (map snd turns)) a' rs"
        by (auto simp: run_ok_def)
      then have "\<exists>rs. stream_ok (Drain 5200 sig # map audit_op_of ops) a (pending a @ concat (map snd turns)) a' rs"
        by (blast intro: stream_ok_drain)
      moreover have "pending (a\<lparr>current_pos := 0\<rparr>) = []" by (simp add: pending_def)
      ultimately have "run_ok (op # ops) a ((num, pending a) # turns) a'"
        using r Turn True num by (simp add: run_ok_def audit_turn_eq [OF Cons.prems(1)])
      then show ?thesis by blast
    next
      case False
      obtain turns a' where r: "run_ok ops a turns a'" using Cons.IH [OF Cons.prems(1) named nums] by blast
      then have "run_ok (op # ops) a turns a'"
        using Turn False by (auto simp: run_ok_def audit_turn_eq [OF Cons.prems(1)] stream_ok_def)
      then show ?thesis by blast
    qed
  qed
qed

text \<open>
  C11: the audit daemon beside the recording module, in any interleaving of its turns with system calls
  of tasks with a terminated name. The daemon takes the number of records from the result of
  \<open>sys_audit\<close>, which returns none, so the theorem is about any numbers found there that are at most 100
  (a larger one makes the turn read behind the buffer): no access is out of bounds; a turn prints so many
  records of its buffer, those it was given and after them records of zeroes; what the turns were given
  and then what is still pending are the records of exactly the calls that did not meet a full
  buffer of 100, in order and each once, with consecutive serial numbers; and when every turn finds
  the number of records it was given, the daemon prints exactly these records.
\<close>

theorem daemon_prints_stream:
  assumes "\<forall>c nr st. By_call c nr st \<in> set ops \<longrightarrow> named c" "\<forall>num \<in> set (nums ops). num \<le> 100"
  shows "\<exists>turns a'.
    daemon_run ops audit_static = Inr (concat (map (\<lambda>(num, recs). printed num recs) turns), a') \<and>
    subseq (map fst turns) (nums ops) \<and>
    (let out = concat (map snd turns) in
      out @ pending a' = accepted ops 0 0 \<and>
      map serial_no (out @ pending a') = serials 0 (length (out @ pending a')) \<and>
      subseq (map (\<lambda>r. r\<lparr>serial_no := 0\<rparr>) (out @ pending a')) (calls (map audit_op_of ops)) \<and>
      length (pending a') \<le> 100 \<and>
      ((\<forall>(num, recs) \<in> set turns. num = int (length recs)) \<longrightarrow>
        daemon_run ops audit_static = Inr (concat (map lines_of out), a')))"
proof -
  obtain turns a' where r: "run_ok ops audit_static turns a'"
    using daemon_run_ok [OF log_ok_static assms] by blast
  have start: "pending audit_static = []" "serial audit_static = 0" "current_pos audit_static = 0" by (simp_all add: pending_def audit_static_def)
  have ok: "audit_ok a'" using r by (simp add: run_ok_def log_ok_def)
  have "length (pending a') \<le> 100" using ok length_pending [OF ok] by (simp add: audit_ok_def AUDIT_BUF_SIZE_def)
  moreover have "concat (map (\<lambda>(num, recs). printed num recs) turns) = concat (map lines_of (concat (map snd turns)))"
    if "\<forall>(num, recs) \<in> set turns. num = int (length recs)"
    using that by (induction turns) (auto simp: printed_exact)
  ultimately show ?thesis
    using r start by (intro exI [of _ turns] exI [of _ a']) (auto simp: run_ok_def stream_ok_def Let_def)
qed

definition daemon_caller :: caller where
  "daemon_caller = \<lparr>now_sec = 1, now_usec = 2, cur_pid = 7, cur_uid = 0, cur_euid = 0, cur_tty = None,
     cur_comm = 97 # replicate 15 0\<rparr>"

lemma daemon_prints_stream_witness:
  "\<exists>turns a'. daemon_run [By_call daemon_caller 5 0, Turn True 1] audit_static =
       Inr (concat (map (\<lambda>(num, recs). printed num recs) turns), a') \<and> subseq (map fst turns) [1]"
proof -
  let ?ops = "[By_call daemon_caller 5 0, Turn True 1]"
  have "named daemon_caller" by (simp add: named_def daemon_caller_def COMM_SIZE_def)
  then have "\<forall>c nr st. By_call c nr st \<in> set ?ops \<longrightarrow> named c" "\<forall>num \<in> set (nums ?ops). num \<le> 100" by auto
  from daemon_prints_stream [OF this] show ?thesis by (auto simp: Let_def)
qed

end
