(* ===== verification/Probe_Stmt.thy ===== *)
theory Probe_Stmt
  imports Kernel_Events
begin

text \<open>
  Statements of the modules that call kernel functions one after the other and log what they get. A
  statement changes a state that has at least a log, or faults; a state record of a component
  extends \<open>logged\<close> by the objects the component reaches.
\<close>

record logged =
  p_log :: "kev list"

type_synonym 's stmt = "'s \<Rightarrow> fault + 's"
type_synonym ('s, 'a) expr = "'s \<Rightarrow> fault + 'a"

fun run_seq :: "'s stmt list \<Rightarrow> 's stmt" where
  "run_seq [] k = Inr k"
| "run_seq (c # cs) k = bindF (c k) (run_seq cs)"

definition finish :: "'s stmt \<Rightarrow> 's \<Rightarrow> fault + (int \<times> 's)" where
  \<comment> \<open>\<open>return 0\<close>\<close>
  "finish c k = bindF (c k) (\<lambda>k'. Inr (0, k'))"

definition put_log :: "kev list \<Rightarrow> 'a logged_scheme stmt" where
  "put_log l k = Inr (k\<lparr>p_log := p_log k @ l\<rparr>)"

definition say :: "string \<Rightarrow> 'a logged_scheme stmt" where
  \<comment> \<open>\<open>printk\<close> of a text and a newline\<close>
  "say s = put_log [printk (s @ [NL])]"

definition say_d :: "string \<Rightarrow> ('a logged_scheme, int) expr \<Rightarrow> 'a logged_scheme stmt" where
  \<comment> \<open>a log line that ends in one \<open>%d\<close>\<close>
  "say_d s e k = bindF (e k) (\<lambda>v. say (s @ dec v) k)"

definition val :: "int \<Rightarrow> ('s, int) expr" where "val v k = Inr v"

lemma run_seq_append: "run_seq (as @ bs) k = bindF (run_seq as k) (run_seq bs)"
  by (induction as k rule: run_seq.induct) (simp_all add: bindF_def split: sum.splits)

lemma val_simp [simp]: "val v k = Inr v"
  by (simp add: val_def)

end
