(* ===== verification/Pid_Probes.thy ===== *)
theory Pid_Probes
  imports Probe_Stmt
begin

text \<open>
  The modules that try out one function of the kernel's pid interface each: \<open>find_get_pid\<close>,
  \<open>find_vpid\<close>, \<open>get_pid\<close>, \<open>put_pid\<close>, \<open>pid_nr\<close>, \<open>pid_vnr\<close>, \<open>pid_task\<close>, \<open>ns_of_pid\<close>, \<open>find_pid_ns\<close>,
  \<open>__task_pid_nr_ns\<close>, \<open>task_tgid_nr_ns\<close>, \<open>task_active_pid_ns\<close>, \<open>get_task_mm\<close>, \<open>mmput\<close> and
  \<open>print_pid\<close>. Their init functions log fields of counted objects, which are in a store: an object
  whose count fell to 0 is gone, and reading it is a fault. The kernel functions are arguments.
\<close>

section \<open>Objects\<close>

record pid_obj =
  pid_count :: int
  pid_level :: nat
  pid_numbers :: "(int \<times> nat) list"   \<comment> \<open>\<open>nr\<close> and \<open>ns\<close>\<close>

record mm_obj =
  o_mm_users :: int
  o_mm_count :: int
  o_owner :: "nat option"

record ptask =
  t_pid :: int
  t_tgid :: int
  t_state :: int
  t_comm :: string

record pid_ns =
  ns_level :: int
  ns_hide_pid :: int

record pkern = logged +
  p_current :: nat
  p_tasks :: "nat \<Rightarrow> ptask"
  p_pids :: "nat \<Rightarrow> pid_obj option"
  p_mms :: "nat \<Rightarrow> mm_obj option"
  p_nss :: "nat \<Rightarrow> pid_ns"

text \<open>Pointers to counted objects and to tasks may be NULL: \<open>None\<close>.\<close>

record pid_api =
  a_find_get_pid :: "int \<Rightarrow> pkern \<Rightarrow> nat option \<times> pkern"
  a_find_vpid :: "int \<Rightarrow> pkern \<Rightarrow> nat option"
  a_find_pid_ns :: "int \<Rightarrow> nat \<Rightarrow> pkern \<Rightarrow> nat option"
  a_get_pid :: "nat option \<Rightarrow> pkern \<Rightarrow> nat option \<times> pkern"
  a_put_pid :: "nat option \<Rightarrow> pkern \<Rightarrow> pkern"
  a_pid_nr :: "nat option \<Rightarrow> pkern \<Rightarrow> int"
  a_pid_vnr :: "nat option \<Rightarrow> pkern \<Rightarrow> int"
  a_pid_task :: "nat option \<Rightarrow> pkern \<Rightarrow> nat option"
  a_ns_of_pid :: "nat option \<Rightarrow> pkern \<Rightarrow> nat option"
  a_task_active_pid_ns :: "nat \<Rightarrow> pkern \<Rightarrow> nat option"
  a_task_pid_nr_ns :: "nat \<Rightarrow> nat \<Rightarrow> pkern \<Rightarrow> int"
  a_task_tgid_nr_ns :: "nat \<Rightarrow> nat \<Rightarrow> pkern \<Rightarrow> int"
  a_get_task_mm :: "nat \<Rightarrow> pkern \<Rightarrow> nat option \<times> pkern"
  a_mmput :: "nat \<Rightarrow> pkern \<Rightarrow> pkern"
  a_module_refcount :: int   \<comment> \<open>of \<open>THIS_MODULE\<close>\<close>

section \<open>Reading objects\<close>

type_synonym prog = "pkern stmt"

definition pid_at :: "nat option \<Rightarrow> (pkern, pid_obj) expr" where
  "pid_at q k = (case q of None \<Rightarrow> Inl NullDeref | Some p \<Rightarrow>
     (case p_pids k p of None \<Rightarrow> Inl UseAfterFree | Some obj \<Rightarrow> Inr obj))"

definition mm_at :: "nat option \<Rightarrow> (pkern, mm_obj) expr" where
  "mm_at q k = (case q of None \<Rightarrow> Inl NullDeref | Some m \<Rightarrow>
     (case p_mms k m of None \<Rightarrow> Inl UseAfterFree | Some obj \<Rightarrow> Inr obj))"

definition task_at :: "nat option \<Rightarrow> (pkern, ptask) expr" where
  "task_at q k = (case q of None \<Rightarrow> Inl NullDeref | Some t \<Rightarrow> Inr (p_tasks k t))"

definition ns_at :: "nat option \<Rightarrow> (pkern, pid_ns) expr" where
  "ns_at q k = (case q of None \<Rightarrow> Inl NullDeref | Some n \<Rightarrow> Inr (p_nss k n))"

definition upid_of :: "nat option \<Rightarrow> (pkern, int \<times> nat) expr" where
  \<comment> \<open>\<open>kpid->numbers[kpid->level]\<close>\<close>
  "upid_of q k = bindF (pid_at q k) (\<lambda>obj.
     if pid_level obj < length (pid_numbers obj) then Inr (pid_numbers obj ! pid_level obj) else Inl OutOfBounds)"

definition cur_pid :: "(pkern, int) expr" where "cur_pid k = Inr (t_pid (p_tasks k (p_current k)))"
definition cur_tgid :: "(pkern, int) expr" where "cur_tgid k = Inr (t_tgid (p_tasks k (p_current k)))"

definition count_of :: "nat option \<Rightarrow> (pkern, int) expr" where "count_of q k = bindF (pid_at q k) (\<lambda>obj. Inr (pid_count obj))"
definition level_of :: "nat option \<Rightarrow> (pkern, int) expr" where "level_of q k = bindF (pid_at q k) (\<lambda>obj. Inr (int (pid_level obj)))"
definition nr_of :: "nat option \<Rightarrow> (pkern, int) expr" where "nr_of q k = bindF (upid_of q k) (\<lambda>u. Inr (fst u))"
definition task_state :: "nat option \<Rightarrow> (pkern, int) expr" where "task_state q k = bindF (task_at q k) (\<lambda>t. Inr (t_state t))"
definition task_pid :: "nat option \<Rightarrow> (pkern, int) expr" where "task_pid q k = bindF (task_at q k) (\<lambda>t. Inr (t_pid t))"
definition task_tgid :: "nat option \<Rightarrow> (pkern, int) expr" where "task_tgid q k = bindF (task_at q k) (\<lambda>t. Inr (t_tgid t))"
definition ns_level_of :: "nat option \<Rightarrow> (pkern, int) expr" where "ns_level_of q k = bindF (ns_at q k) (\<lambda>n. Inr (ns_level n))"
definition hide_pid_of :: "nat option \<Rightarrow> (pkern, int) expr" where "hide_pid_of q k = bindF (ns_at q k) (\<lambda>n. Inr (ns_hide_pid n))"
definition mm_users_of :: "nat option \<Rightarrow> (pkern, int) expr" where "mm_users_of q k = bindF (mm_at q k) (\<lambda>m. Inr (o_mm_users m))"
definition mm_count_of :: "nat option \<Rightarrow> (pkern, int) expr" where "mm_count_of q k = bindF (mm_at q k) (\<lambda>m. Inr (o_mm_count m))"
definition owner_tgid :: "nat option \<Rightarrow> (pkern, int) expr" where
  "owner_tgid q k = bindF (mm_at q k) (\<lambda>m. task_tgid (o_owner m) k)"
definition owner_pid :: "nat option \<Rightarrow> (pkern, int) expr" where
  "owner_pid q k = bindF (mm_at q k) (\<lambda>m. task_pid (o_owner m) k)"

text \<open>The calls that bind a variable; a task that a kernel function reads through must not be NULL.\<close>

definition with_find_get_pid :: "pid_api \<Rightarrow> (nat option \<Rightarrow> prog) \<Rightarrow> prog" where
  \<comment> \<open>\<open>find_get_pid(current->pid)\<close>\<close>
  "with_find_get_pid api body k =
     (case a_find_get_pid api (t_pid (p_tasks k (p_current k))) k of (q, k') \<Rightarrow> body q k')"

definition with_find_vpid :: "pid_api \<Rightarrow> (nat option \<Rightarrow> prog) \<Rightarrow> prog" where
  "with_find_vpid api body k = body (a_find_vpid api (t_pid (p_tasks k (p_current k))) k) k"

definition with_get_pid :: "pid_api \<Rightarrow> nat option \<Rightarrow> (nat option \<Rightarrow> prog) \<Rightarrow> prog" where
  "with_get_pid api q body k = (case a_get_pid api q k of (q', k') \<Rightarrow> body q' k')"

definition a_put_pid_call :: "pid_api \<Rightarrow> nat option \<Rightarrow> prog" where
  "a_put_pid_call api q k = Inr (a_put_pid api q k)"

definition with_pid_nr :: "pid_api \<Rightarrow> nat option \<Rightarrow> (int \<Rightarrow> prog) \<Rightarrow> prog" where
  "with_pid_nr api q body k = body (a_pid_nr api q k) k"

definition with_pid_vnr :: "pid_api \<Rightarrow> nat option \<Rightarrow> (int \<Rightarrow> prog) \<Rightarrow> prog" where
  "with_pid_vnr api q body k = body (a_pid_vnr api q k) k"

definition with_pid_task :: "pid_api \<Rightarrow> nat option \<Rightarrow> (nat option \<Rightarrow> prog) \<Rightarrow> prog" where
  "with_pid_task api q body k = body (a_pid_task api q k) k"

definition with_ns_of_pid :: "pid_api \<Rightarrow> nat option \<Rightarrow> (nat option \<Rightarrow> prog) \<Rightarrow> prog" where
  "with_ns_of_pid api q body k = body (a_ns_of_pid api q k) k"

definition with_find_pid_ns :: "pid_api \<Rightarrow> nat option \<Rightarrow> (nat option \<Rightarrow> prog) \<Rightarrow> prog" where
  "with_find_pid_ns api q body k = bindF (upid_of q k) (\<lambda>u. body (a_find_pid_ns api (fst u) (snd u) k) k)"

definition with_task_active_pid_ns :: "pid_api \<Rightarrow> nat option \<Rightarrow> (nat option \<Rightarrow> prog) \<Rightarrow> prog" where
  "with_task_active_pid_ns api t body k =
     (case t of None \<Rightarrow> Inl NullDeref | Some x \<Rightarrow> body (a_task_active_pid_ns api x k) k)"

definition with_task_pid_nr_ns :: "pid_api \<Rightarrow> nat option \<Rightarrow> nat option \<Rightarrow> (int \<Rightarrow> prog) \<Rightarrow> prog" where
  "with_task_pid_nr_ns api t q body k = bindF (upid_of q k) (\<lambda>u.
     case t of None \<Rightarrow> Inl NullDeref | Some x \<Rightarrow> body (a_task_pid_nr_ns api x (snd u) k) k)"

definition with_task_tgid_nr_ns :: "pid_api \<Rightarrow> nat option \<Rightarrow> nat option \<Rightarrow> (int \<Rightarrow> prog) \<Rightarrow> prog" where
  "with_task_tgid_nr_ns api t q body k = bindF (upid_of q k) (\<lambda>u.
     case t of None \<Rightarrow> Inl NullDeref | Some x \<Rightarrow> body (a_task_tgid_nr_ns api x (snd u) k) k)"

definition with_get_task_mm :: "pid_api \<Rightarrow> nat option \<Rightarrow> (nat option \<Rightarrow> prog) \<Rightarrow> prog" where
  "with_get_task_mm api t body k =
     (case t of None \<Rightarrow> Inl NullDeref | Some x \<Rightarrow> (case a_get_task_mm api x k of (m, k') \<Rightarrow> body m k'))"

definition a_mmput_call :: "pid_api \<Rightarrow> nat option \<Rightarrow> prog" where
  "a_mmput_call api q k = (case q of None \<Rightarrow> Inl NullDeref | Some m \<Rightarrow> Inr (a_mmput api m k))"

section \<open>The modules\<close>

definition find_get_pid_init :: "pid_api \<Rightarrow> pkern \<Rightarrow> fault + (int \<times> pkern)" where
  "find_get_pid_init api = finish (run_seq [
     say ''into find_get_pid_init.'',
     with_find_get_pid api (\<lambda>kpid. run_seq [
       say_d ''the count of the pid is:'' (count_of kpid),
       say_d ''the level of the pid is:'' (level_of kpid),
       say_d ''the pid of the find_get_pid is:'' (nr_of kpid),
       say ''out find_get_pid_init'',
       say_d ''module_refcount(THIS_MODULE):'' (val (a_module_refcount api))])])"

definition find_get_pid_exit :: prog where
  "find_get_pid_exit = say ''<0>module[find_get_pid_exit] exit ok!''"

definition find_vpid_init :: "pid_api \<Rightarrow> pkern \<Rightarrow> fault + (int \<times> pkern)" where
  "find_vpid_init api = finish (run_seq [
     say ''into find_vpid_init.'',
     with_find_vpid api (\<lambda>vpid. run_seq [
       say_d ''the count of the pid           is:'' (count_of vpid),
       say_d ''the level of the pid           is:'' (level_of vpid),
       say_d ''the pid of the find_vpid       is:'' (nr_of vpid),
       say_d ''the pid of current thread      is:'' cur_pid,
       say ''out find_vpid_init'',
       say_d ''module_refcount(THIS_MODULE):'' (val (a_module_refcount api))])])"

definition find_vpid_exit :: prog where
  "find_vpid_exit = say ''<0>module[find_vpid_exit] exit ok!''"

definition get_pid_init :: "pid_api \<Rightarrow> pkern \<Rightarrow> fault + (int \<times> pkern)" where
  "get_pid_init api = finish (run_seq [
     say ''into get_pid_init.'',
     with_find_get_pid api (\<lambda>mypid. run_seq [
       say_d ''the count of mypid           is:'' (count_of mypid),
       say_d ''the level of mypid           is:'' (level_of mypid),
       with_get_pid api mypid (\<lambda>mypid1. run_seq [
         say_d ''the count of mypid1           is:'' (count_of mypid1),
         say_d ''the level of mypid1           is:'' (level_of mypid1),
         with_get_pid api mypid (\<lambda>mypid2. run_seq [
           say_d ''the count of mypid2           is:'' (count_of mypid2),
           say_d ''the level of mypid2           is:'' (level_of mypid2),
           say ''out get_pid_init'',
           say_d ''module_refcount(THIS_MODULE):'' (val (a_module_refcount api))])])])])"

definition get_pid_exit :: prog where
  "get_pid_exit = say ''<0>module[get_pid_exit] exit ok!''"

definition put_pid_init :: "pid_api \<Rightarrow> pkern \<Rightarrow> fault + (int \<times> pkern)" where
  "put_pid_init api = finish (run_seq [
     say ''into put_pid_init.'',
     with_find_get_pid api (\<lambda>kpid. run_seq [
       say_d ''the count of the pid is:'' (count_of kpid),
       say_d ''the level of the pid is:'' (level_of kpid),
       say_d ''the pid of the pid is:'' (nr_of kpid),
       a_put_pid_call api kpid,
       say ''the new value after the fucntion put_pid'',
       say_d ''the new count of the pid is:'' (count_of kpid),
       say_d ''the new level of the pid is:'' (level_of kpid),
       say_d ''the new pid of the thread is:'' (nr_of kpid),
       say_d ''the current pid  is:'' cur_pid,
       say_d ''the current tgid is:'' cur_tgid,
       say ''out put_pid_init'',
       say_d ''module_refcount(THIS_MODULE):'' (val (a_module_refcount api))])])"

definition put_pid_exit :: prog where
  "put_pid_exit = say ''<0>module[put_pid_exit] exit ok!''"

definition pid_nr_init :: "pid_api \<Rightarrow> pkern \<Rightarrow> fault + (int \<times> pkern)" where
  "pid_nr_init api = finish (run_seq [
     say ''into pid_nr_init.'',
     with_find_get_pid api (\<lambda>kpid. run_seq [
       say_d ''the level of the pid is:'' (level_of kpid),
       say_d ''the pid of the pid is:'' (nr_of kpid),
       with_pid_nr api kpid (\<lambda>nr. run_seq [
         say_d ''the pid_nr result is:'' (val nr),
         say_d ''the current pid  is:'' cur_pid,
         say_d ''the current tgid is:'' cur_tgid,
         say ''out pid_nr_init'',
         say_d ''module_refcount(THIS_MODULE):'' (val (a_module_refcount api))])])])"

definition pid_nr_exit :: prog where
  "pid_nr_exit = say ''<0>module[pid_nr_exit] exit ok!''"

definition pid_vnr_init :: "pid_api \<Rightarrow> pkern \<Rightarrow> fault + (int \<times> pkern)" where
  "pid_vnr_init api = finish (run_seq [
     say ''into pid_vnr_init.'',
     with_find_get_pid api (\<lambda>kpid. run_seq [
       say_d ''the level of the pid is:'' (level_of kpid),
       say_d ''the pid of the pid is:'' (nr_of kpid),
       with_pid_vnr api kpid (\<lambda>vnr. run_seq [
         say_d ''the pid_vnr result is:'' (val vnr),
         say_d ''the current pid  is:'' cur_pid,
         say_d ''the current tgid is:'' cur_tgid,
         say ''out pid_vnr_init'',
         say_d ''module_refcount(THIS_MODULE):'' (val (a_module_refcount api))])])])"

definition pid_vnr_exit :: prog where
  "pid_vnr_exit = say ''<0>module[pid_vnr_exit] exit ok!''"

definition pid_task_init :: "pid_api \<Rightarrow> pkern \<Rightarrow> fault + (int \<times> pkern)" where
  "pid_task_init api = finish (run_seq [
     say ''into pid_task_init.'',
     with_find_get_pid api (\<lambda>kpid. run_seq [
       with_pid_task api kpid (\<lambda>task. run_seq [
         say_d ''the state of the task is:'' (task_state task),
         say_d ''the pid  of the task is:'' (task_pid task),
         say_d ''the tgid of the task is:'' (task_tgid task),
         say_d ''the current pid  is:'' cur_pid,
         say_d ''the current tgid is:'' cur_tgid,
         say ''out pid_task_init'',
         say_d ''module_refcount(THIS_MODULE):'' (val (a_module_refcount api))])])])"

definition pid_task_exit :: prog where
  "pid_task_exit = say ''<0>module[pid_task_exit] exit ok!''"

definition ns_of_pid_init :: "pid_api \<Rightarrow> pkern \<Rightarrow> fault + (int \<times> pkern)" where
  "ns_of_pid_init api = finish (run_seq [
     say ''into ns_of_pid_init.'',
     with_find_get_pid api (\<lambda>kpid. run_seq [
       say_d ''the level of the pid is:'' (level_of kpid),
       say_d ''the pid of the pid is:'' (nr_of kpid),
       with_ns_of_pid api kpid (\<lambda>pid_ns. run_seq [
         say_d ''the level of the pid_namespace is:'' (ns_level_of pid_ns),
         say_d ''the hide_pid of the pid_namespace is:'' (hide_pid_of pid_ns),
         say_d ''the current PID  is:'' cur_pid,
         say_d ''the current tgid is:'' cur_tgid,
         say ''out ns_of_pid_init'',
         say_d ''module_refcount(THIS_MODULE):'' (val (a_module_refcount api))])])])"

definition ns_of_pid_exit :: prog where
  "ns_of_pid_exit = say ''<0>module[ns_of_pid_exit] exit ok!''"

definition find_pid_ns_init :: "pid_api \<Rightarrow> pkern \<Rightarrow> fault + (int \<times> pkern)" where
  "find_pid_ns_init api = finish (run_seq [
     say ''into find_pid_ns_init.'',
     with_find_get_pid api (\<lambda>kpid. run_seq [
       with_find_pid_ns api kpid (\<lambda>fpid. run_seq [
         say_d (''the find_pid_ns result'' @ [CHR 0x27] @ ''s count is:'') (count_of kpid),
         say_d (''the find_pid_ns result'' @ [CHR 0x27] @ ''s level is:'') (count_of kpid),
         say_d (''the find_pid_ns result'' @ [CHR 0x27] @ ''s pid   is:'') (nr_of kpid),
         say_d ''the pid of current thread      is:'' cur_pid,
         say ''out find_pid_ns_init'',
         say_d ''module_refcount(THIS_MODULE):'' (val (a_module_refcount api))])])])"

definition find_pid_ns_exit :: prog where
  "find_pid_ns_exit = say ''<0>module[find_pid_ns_exit] exit ok!''"

definition task_pid_nr_ns_init :: "pid_api \<Rightarrow> pkern \<Rightarrow> fault + (int \<times> pkern)" where
  "task_pid_nr_ns_init api = finish (run_seq [
     say ''into __task_pid_nr_ns_init.'',
     with_find_get_pid api (\<lambda>kpid. run_seq [
       with_pid_task api kpid (\<lambda>task. run_seq [
         with_task_pid_nr_ns api task kpid (\<lambda>result1. run_seq [
           say_d ''the result of the __task_pid_nr_ns is:'' (val result1),
           say_d ''the pid of current thread is:'' cur_pid,
           say ''out __task_pid_nr_ns'',
           say_d ''module_refcount(THIS_MODULE):'' (val (a_module_refcount api))])])])])"

definition task_pid_nr_ns_exit :: prog where
  "task_pid_nr_ns_exit = say ''<0>module[__task_pid_nr_ns_exit] exit ok!''"

definition task_tgid_nr_ns_init :: "pid_api \<Rightarrow> pkern \<Rightarrow> fault + (int \<times> pkern)" where
  "task_tgid_nr_ns_init api = finish (run_seq [
     say ''into task_tgid_nr_ns_init.'',
     with_find_get_pid api (\<lambda>kpid. run_seq [
       with_pid_task api kpid (\<lambda>task. run_seq [
         with_task_tgid_nr_ns api task kpid (\<lambda>result1. run_seq [
           say_d ''the pid of the find_get_pid is:'' (nr_of kpid),
           say_d ''the result of the task_tgid_nr_ns is:'' (val result1),
           say_d ''the pid of current thread is:'' cur_pid,
           say_d ''the current tgid is:'' cur_tgid,
           say ''out task_tgid_nr_ns_init'',
           say_d ''module_refcount(THIS_MODULE):'' (val (a_module_refcount api))])])])])"

definition task_tgid_nr_ns_exit :: prog where
  "task_tgid_nr_ns_exit = say ''<0>module[task_tgid_nr_ns_exit] exit ok!''"

definition task_active_pid_ns_init :: "pid_api \<Rightarrow> pkern \<Rightarrow> fault + (int \<times> pkern)" where
  "task_active_pid_ns_init api = finish (run_seq [
     say ''into task_active_pid_ns_init.'',
     with_find_get_pid api (\<lambda>kpid. run_seq [
       with_pid_task api kpid (\<lambda>task. run_seq [
         with_task_active_pid_ns api task (\<lambda>ns. run_seq [
           say_d ''the count of the pid is:'' (count_of kpid),
           say_d ''the level of the pid is:'' (level_of kpid),
           say_d ''the pid of the pid is:'' (nr_of kpid),
           say_d ''the hide_pid of the task_active_pid_ns result is:'' (hide_pid_of ns),
           say_d ''the current pid  is:'' cur_pid,
           say_d ''the current tgid is:'' cur_tgid,
           say ''out task_active_pid_ns_init'',
           say_d ''module_refcount(THIS_MODULE):'' (val (a_module_refcount api))])])])])"

definition task_active_pid_ns_exit :: prog where
  "task_active_pid_ns_exit = say ''<0>module[task_active_pid_ns_exit] exit ok!''"

definition get_task_mm_init :: "pid_api \<Rightarrow> pkern \<Rightarrow> fault + (int \<times> pkern)" where
  "get_task_mm_init api = finish (run_seq [
     say ''into get_task_mm_init.'',
     with_find_get_pid api (\<lambda>kpid. run_seq [
       with_pid_task api kpid (\<lambda>task. run_seq [
         with_get_task_mm api task (\<lambda>mm_task. run_seq [
           say_d ''the mm_users of the mm_struct is:'' (mm_users_of mm_task),
           say_d ''the mm_count of the mm_struct is:'' (mm_count_of mm_task),
           say_d ''the tgid of the mm_struct is:'' (owner_tgid mm_task),
           say_d ''the pid of the mm_struct is:'' (owner_pid mm_task),
           say_d ''the current PID is:'' cur_pid,
           say ''out get_task_mm_init'',
           say_d ''module_refcount(THIS_MODULE):'' (val (a_module_refcount api))])])])])"

definition get_task_mm_exit :: prog where
  "get_task_mm_exit = say ''<0>module[get_task_mm_exit] exit ok!''"

definition mmput_init :: "pid_api \<Rightarrow> pkern \<Rightarrow> fault + (int \<times> pkern)" where
  "mmput_init api = finish (run_seq [
     say ''into mmput_init.'',
     with_find_get_pid api (\<lambda>kpid. run_seq [
       with_pid_task api kpid (\<lambda>task. run_seq [
         with_get_task_mm api task (\<lambda>mm_task. run_seq [
           say_d ''the mm_users of the mm_struct is:'' (mm_users_of mm_task),
           say_d ''the mm_count of the mm_struct is:'' (mm_count_of mm_task),
           say_d ''the tgid of the mm_struct is:'' (owner_tgid mm_task),
           say_d ''the pid of the mm_struct is:'' (owner_pid mm_task),
           a_mmput_call api mm_task,
           say ''the new value of the mm_struct after the function mmput:'',
           say_d ''the mm_users of the mm_struct is:'' (mm_users_of mm_task),
           say_d ''the mm_count of the mm_struct is:'' (mm_count_of mm_task),
           say_d ''the tgid of the mm_struct is:'' (owner_tgid mm_task),
           say_d ''the pid of the mm_struct is:'' (owner_pid mm_task),
           say_d ''the current PID is:'' cur_pid,
           say ''out mmput_init'',
           say_d ''module_refcount(THIS_MODULE):'' (val (a_module_refcount api))])])])])"

definition mmput_exit :: prog where
  "mmput_exit = say ''<0>module[mmput_exit] exit ok!''"

definition print_pid_line :: "ptask \<Rightarrow> pid_obj \<Rightarrow> int \<Rightarrow> int \<Rightarrow> string" where
  "print_pid_line t obj nr vnr =
     padr 6 (dec (t_pid t)) @ ''--->'' @ padr 30 (t_comm t) @ [SP] @ padr 10 (dec (pid_count obj)) @ [SP] @
     padr 10 (dec (int (pid_level obj))) @ [SP] @ padr 10 (dec nr) @ [SP] @ padr 10 (dec vnr)"

fun print_pid_loop :: "pid_api \<Rightarrow> nat list \<Rightarrow> int \<Rightarrow> pkern \<Rightarrow> fault + (int \<times> pkern)" where
  \<comment> \<open>over the tasks of the list that starts at \<open>init_task\<close>\<close>
  "print_pid_loop api [] count k = Inr (count, k)"
| "print_pid_loop api (p # ps) count k =
     (case a_find_get_pid api (t_pid (p_tasks k p)) k of (kpid, k1) \<Rightarrow>
      let vnr = a_pid_vnr api kpid k1 in
      bindF (pid_at kpid k1) (\<lambda>obj. bindF (nr_of kpid k1) (\<lambda>nr.
        bindF (say (print_pid_line (p_tasks k1 p) obj nr vnr) k1) (print_pid_loop api ps (count + 1)))))"

definition print_pid_init :: "pid_api \<Rightarrow> nat list \<Rightarrow> pkern \<Rightarrow> fault + (int \<times> pkern)" where
  "print_pid_init api procs k =
     bindF (run_seq [
       put_log [pr_alert (''print_pid,'' @ [NL])],
       say ''Hello World enter begin:'',
       say (padr 6 ''PID'' @ [SP] @ padr 30 ''NAME'' @ [SP] @ padr 10 ''COUNT'' @ [SP] @ padr 10 ''LEVEL'' @ [SP] @
            padr 10 ''NR'' @ [SP] @ padr 10 ''VNR'')] k) (\<lambda>k1.
     bindF (print_pid_loop api procs 0 k1) (\<lambda>(count, k2).
     finish (say (''the number of process is:'' @ dec count)) k2))"

definition print_pid_exit :: prog where
  "print_pid_exit = put_log [pr_alert (''goodbye,kernel'' @ [NL])]"

end
