(* ===== verification/Probe_Family.thy ===== *)
theory Probe_Family
  imports Probe_Stmt "HOL-Library.Multiset"
begin

text \<open>
  Families of modules made of the statements of \<open>Probe_Stmt\<close>. \<open>run_family\<close> loads and unloads modules
  one after the other; a module whose init fails is not unloaded. The locale is what such a family
  promises: in a state that is ready, the modules that are \<open>fit\<close> run without a fault and leave a state
  that is ready; their init moves each of some counts by a number of its own, and their exit does
  not take that back.
\<close>

fun run_family :: "('x \<Rightarrow> 's \<Rightarrow> fault + (int \<times> 's)) \<Rightarrow> ('x \<Rightarrow> 's stmt) \<Rightarrow> 'x list \<Rightarrow> 's stmt" where
  "run_family ini ext [] k = Inr k"
| "run_family ini ext (x # xs) k = bindF (ini x k) (\<lambda>(ret, k').
     if ret = 0 then bindF (ext x k') (run_family ini ext xs) else run_family ini ext xs k')"

locale probe_family =
  fixes ini :: "'x \<Rightarrow> 's \<Rightarrow> fault + (int \<times> 's)"
    and ext :: "'x \<Rightarrow> 's \<Rightarrow> fault + 's"
    and fit :: "'x \<Rightarrow> bool"
    and ready :: "'s \<Rightarrow> bool"
    and refs :: "'c \<Rightarrow> 's \<Rightarrow> int"
    and moves :: "'x \<Rightarrow> 'c \<Rightarrow> int"
  assumes ini_moves: "fit x \<Longrightarrow> ready k \<Longrightarrow>
      \<exists>k'. ini x k = Inr (0, k') \<and> ready k' \<and> (\<forall>c. refs c k' = refs c k + moves x c)"
    and ext_keeps: "fit x \<Longrightarrow> ready k \<Longrightarrow> \<exists>k'. ext x k = Inr k' \<and> ready k' \<and> (\<forall>c. refs c k' = refs c k)"
begin

lemma one_run:
  assumes "fit x" "ready k"
  obtains k' where "run_family ini ext (x # xs) k = run_family ini ext xs k'" "ready k'"
    "\<forall>c. refs c k' = refs c k + moves x c"
proof -
  obtain k1 where k1: "ini x k = Inr (0, k1)" "ready k1" "\<forall>c. refs c k1 = refs c k + moves x c"
    using ini_moves [OF assms] by blast
  moreover obtain k' where "ext x k1 = Inr k'" "ready k'" "\<forall>c. refs c k' = refs c k1"
    using ext_keeps [OF assms(1) k1(2)] by blast
  ultimately show thesis using that by simp
qed

theorem family_moves:
  "\<forall>x \<in> set xs. fit x \<Longrightarrow> ready k \<Longrightarrow>
    \<exists>k'. run_family ini ext xs k = Inr k' \<and> ready k' \<and> (\<forall>c. refs c k' = refs c k + (\<Sum>x\<leftarrow>xs. moves x c))"
proof (induction xs arbitrary: k)
  case (Cons x xs)
  then obtain k1 where k1: "run_family ini ext (x # xs) k = run_family ini ext xs k1" "ready k1"
      "\<forall>c. refs c k1 = refs c k + moves x c"
    using one_run [of x k xs] by auto
  with Cons.IH [OF _ k1(2)] Cons.prems(1) show ?case by auto
qed simp

lemma family_order:
  assumes "\<forall>x \<in> set xs. fit x" "ready k" "run_family ini ext xs k = Inr k1"
    and "mset ys = mset xs" "run_family ini ext ys k = Inr k2"
  shows "refs c k1 = refs c k2"
proof -
  have "\<forall>x \<in> set ys. fit x" using assms(1,4) mset_eq_setD by blast
  moreover have "(\<Sum>x\<leftarrow>ys. moves x c) = (\<Sum>x\<leftarrow>xs. moves x c)"
    using assms(4) by (metis mset_map sum_mset_sum_list)
  ultimately show ?thesis using family_moves [OF assms(1,2)] family_moves [of ys k] assms(2,3,5) by auto
qed

end

end
