(* ===== verification/Pid_Refs.thy ===== *)
theory Pid_Refs
  imports Pid_Probes Probe_Family
begin

text \<open>
  What the pid modules do to the reference counts. \<open>pid_api_ok\<close> says what the kernel documents of
  its functions; \<open>probe_ready\<close> says that the current task has a pid, a namespace and an address
  space with an owner, each with a reference of the task's own, and that looking up its number gives
  its pid, and the pid the task; \<open>printable\<close> says of a task that looking up its number gives a pid.
\<close>

section \<open>The kernel functions\<close>

definition inc_pid :: "nat \<Rightarrow> pkern \<Rightarrow> pkern" where
  "inc_pid p k = k\<lparr>p_pids := (p_pids k)(p := map_option (\<lambda>obj. obj\<lparr>pid_count := pid_count obj + 1\<rparr>) (p_pids k p))\<rparr>"

definition dec_pid :: "nat \<Rightarrow> pkern \<Rightarrow> pkern" where
  "dec_pid p k = k\<lparr>p_pids := (p_pids k)(p := (case p_pids k p of None \<Rightarrow> None
     | Some obj \<Rightarrow> if pid_count obj \<le> 1 then None else Some (obj\<lparr>pid_count := pid_count obj - 1\<rparr>)))\<rparr>"

definition inc_mm :: "nat \<Rightarrow> pkern \<Rightarrow> pkern" where
  "inc_mm m k = k\<lparr>p_mms := (p_mms k)(m := map_option (\<lambda>obj. obj\<lparr>o_mm_users := o_mm_users obj + 1\<rparr>) (p_mms k m))\<rparr>"

definition dec_mm :: "nat \<Rightarrow> pkern \<Rightarrow> pkern" where
  "dec_mm m k = k\<lparr>p_mms := (p_mms k)(m := (case p_mms k m of None \<Rightarrow> None
     | Some obj \<Rightarrow> if o_mm_users obj \<le> 1 then None else Some (obj\<lparr>o_mm_users := o_mm_users obj - 1\<rparr>)))\<rparr>"

text \<open>Two states with the same objects, whatever their counts and the log.\<close>

definition same_pids :: "pkern \<Rightarrow> pkern \<Rightarrow> bool" where
  "same_pids k k' \<longleftrightarrow> p_current k' = p_current k \<and> p_tasks k' = p_tasks k \<and> p_nss k' = p_nss k \<and>
     (\<forall>p. map_option (\<lambda>obj. (pid_level obj, pid_numbers obj)) (p_pids k' p) =
          map_option (\<lambda>obj. (pid_level obj, pid_numbers obj)) (p_pids k p)) \<and>
     (\<forall>m. map_option o_owner (p_mms k' m) = map_option o_owner (p_mms k m))"

definition pid_api_ok :: "(nat \<Rightarrow> nat option) \<Rightarrow> pid_api \<Rightarrow> bool" where
  \<comment> \<open>the argument gives the address space of a task\<close>
  "pid_api_ok mm_of api \<longleftrightarrow>
     (\<forall>nr k. a_find_get_pid api nr k =
        (case a_find_vpid api nr k of None \<Rightarrow> (None, k) | Some p \<Rightarrow> (Some p, inc_pid p k))) \<and>
     (\<forall>q k. a_get_pid api q k = (q, case q of None \<Rightarrow> k | Some p \<Rightarrow> inc_pid p k)) \<and>
     (\<forall>q k. a_put_pid api q k = (case q of None \<Rightarrow> k | Some p \<Rightarrow> dec_pid p k)) \<and>
     (\<forall>t k. a_get_task_mm api t k = (case mm_of t of None \<Rightarrow> (None, k) | Some m \<Rightarrow> (Some m, inc_mm m k))) \<and>
     (\<forall>m k. a_mmput api m k = dec_mm m k) \<and>
     (\<forall>k k'. same_pids k k' \<longrightarrow>
        (\<forall>nr. a_find_vpid api nr k' = a_find_vpid api nr k) \<and>
        (\<forall>q. a_pid_task api q k' = a_pid_task api q k) \<and>
        (\<forall>q. a_ns_of_pid api q k' = a_ns_of_pid api q k) \<and>
        (\<forall>t. a_task_active_pid_ns api t k' = a_task_active_pid_ns api t k))"

definition probe_ready :: "(nat \<Rightarrow> nat option) \<Rightarrow> pid_api \<Rightarrow> nat \<Rightarrow> nat \<Rightarrow> pkern \<Rightarrow> bool" where
  \<comment> \<open>the current task's pid and address space\<close>
  "probe_ready mm_of api p m k \<longleftrightarrow>
     a_find_vpid api (t_pid (p_tasks k (p_current k))) k = Some p \<and>
     a_pid_task api (Some p) k = Some (p_current k) \<and>
     a_ns_of_pid api (Some p) k \<noteq> None \<and> a_task_active_pid_ns api (p_current k) k \<noteq> None \<and>
     mm_of (p_current k) = Some m \<and>
     (\<exists>obj. p_pids k p = Some obj \<and> 1 \<le> pid_count obj \<and> pid_level obj < length (pid_numbers obj)) \<and>
     (\<exists>obj. p_mms k m = Some obj \<and> 1 \<le> o_mm_users obj \<and> o_owner obj \<noteq> None)"

definition pid_refs :: "nat \<Rightarrow> pkern \<Rightarrow> int" where
  "pid_refs p k = (case p_pids k p of None \<Rightarrow> 0 | Some obj \<Rightarrow> pid_count obj)"

definition mm_refs :: "nat \<Rightarrow> pkern \<Rightarrow> int" where
  "mm_refs m k = (case p_mms k m of None \<Rightarrow> 0 | Some obj \<Rightarrow> o_mm_users obj)"

section \<open>The modules as one family\<close>

datatype probe = Find_get_pid | Find_vpid | Get_pid | Put_pid | Pid_nr | Pid_vnr | Pid_task | Ns_of_pid
  | Find_pid_ns | Task_pid_nr_ns | Task_tgid_nr_ns | Task_active_pid_ns | Get_task_mm | Mmput
  | Print_pid "nat list"   \<comment> \<open>with the tasks of the list that starts at \<open>init_task\<close>\<close>

fun probe_init :: "pid_api \<Rightarrow> probe \<Rightarrow> pkern \<Rightarrow> fault + (int \<times> pkern)" where
  "probe_init api Find_get_pid = find_get_pid_init api"
| "probe_init api Find_vpid = find_vpid_init api"
| "probe_init api Get_pid = get_pid_init api"
| "probe_init api Put_pid = put_pid_init api"
| "probe_init api Pid_nr = pid_nr_init api"
| "probe_init api Pid_vnr = pid_vnr_init api"
| "probe_init api Pid_task = pid_task_init api"
| "probe_init api Ns_of_pid = ns_of_pid_init api"
| "probe_init api Find_pid_ns = find_pid_ns_init api"
| "probe_init api Task_pid_nr_ns = task_pid_nr_ns_init api"
| "probe_init api Task_tgid_nr_ns = task_tgid_nr_ns_init api"
| "probe_init api Task_active_pid_ns = task_active_pid_ns_init api"
| "probe_init api Get_task_mm = get_task_mm_init api"
| "probe_init api Mmput = mmput_init api"
| "probe_init api (Print_pid procs) = print_pid_init api procs"

fun probe_exit :: "probe \<Rightarrow> prog" where
  "probe_exit Find_get_pid = find_get_pid_exit"
| "probe_exit Find_vpid = find_vpid_exit"
| "probe_exit Get_pid = get_pid_exit"
| "probe_exit Put_pid = put_pid_exit"
| "probe_exit Pid_nr = pid_nr_exit"
| "probe_exit Pid_vnr = pid_vnr_exit"
| "probe_exit Pid_task = pid_task_exit"
| "probe_exit Ns_of_pid = ns_of_pid_exit"
| "probe_exit Find_pid_ns = find_pid_ns_exit"
| "probe_exit Task_pid_nr_ns = task_pid_nr_ns_exit"
| "probe_exit Task_tgid_nr_ns = task_tgid_nr_ns_exit"
| "probe_exit Task_active_pid_ns = task_active_pid_ns_exit"
| "probe_exit Get_task_mm = get_task_mm_exit"
| "probe_exit Mmput = mmput_exit"
| "probe_exit (Print_pid procs) = print_pid_exit"

definition run_probes :: "pid_api \<Rightarrow> probe list \<Rightarrow> prog" where
  \<comment> \<open>load and unload each module in turn\<close>
  "run_probes api = run_family (probe_init api) probe_exit"

fun pid_leak :: "probe \<Rightarrow> int" where
  \<comment> \<open>the references left to the pid of the current task; for \<open>print_pid\<close> see \<open>held_by\<close>\<close>
  "pid_leak Get_pid = 3"
| "pid_leak Put_pid = 0"
| "pid_leak Find_vpid = 0"
| "pid_leak (Print_pid procs) = 0"
| "pid_leak _ = 1"

definition mm_leak :: "probe \<Rightarrow> int" where
  "mm_leak x = (if x = Get_task_mm then 1 else 0)"

section \<open>States that differ in two counts and the log\<close>

definition bump :: "nat \<Rightarrow> nat \<Rightarrow> int \<Rightarrow> int \<Rightarrow> kev list \<Rightarrow> pkern \<Rightarrow> pkern" where
  "bump p m i j l k = k\<lparr>p_pids := (p_pids k)(p := map_option (\<lambda>obj. obj\<lparr>pid_count := pid_count obj + i\<rparr>) (p_pids k p)),
     p_mms := (p_mms k)(m := map_option (\<lambda>obj. obj\<lparr>o_mm_users := o_mm_users obj + j\<rparr>) (p_mms k m)),
     p_log := p_log k @ l\<rparr>"

lemma bump_0: "bump p m 0 0 [] k = k"
proof -
  have "map_option (\<lambda>obj. obj\<lparr>pid_count := pid_count obj + 0\<rparr>) x = x" for x :: "pid_obj option"
    by (cases x) auto
  moreover have "map_option (\<lambda>obj. obj\<lparr>o_mm_users := o_mm_users obj + 0\<rparr>) x = x" for x :: "mm_obj option"
    by (cases x) auto
  ultimately show ?thesis by (simp add: bump_def)
qed

lemma bump_fields [simp]:
  "p_current (bump p m i j l k) = p_current k" "p_tasks (bump p m i j l k) = p_tasks k"
  "p_nss (bump p m i j l k) = p_nss k"
  "p_log (bump p m i j l k) = p_log k @ l"
  by (simp_all add: bump_def)

lemma say_bump: "say s (bump p m i j l k) = Inr (bump p m i j (l @ [printk (s @ [NL])]) k)"
  by (simp add: say_def put_log_def bump_def)

lemma inc_bump:
  "inc_pid p (bump p m i j l k) = bump p m (i + 1) j l k"
  "inc_mm m (bump p m i j l k) = bump p m i (j + 1) l k"
  by (simp_all add: inc_pid_def inc_mm_def bump_def option.map_comp comp_def add.assoc)

lemma same_pids_bump: "same_pids k (bump p m i j l k)"
  by (simp add: same_pids_def bump_def option.map_comp comp_def)

lemma bump_bump: "bump p m i j l (bump p m i' j' l' k) = bump p m (i' + i) (j' + j) (l' @ l) k"
  by (simp add: bump_def option.map_comp comp_def add.assoc)

section \<open>Evaluation in a bumped state\<close>

text \<open>
  \<open>obj\<close> and \<open>mobj\<close> are the current task's pid and address space before the run; the facts below
  evaluate the statements of a module in any state that differs from that one in the two counts.
\<close>

lemma getters_bump:
  assumes "p_pids k p = Some obj" "p_mms k m = Some mobj" "o_owner mobj = Some own" "pid_level obj < length (pid_numbers obj)"
  shows "pid_at (Some p) (bump p m i j l k) = Inr (obj\<lparr>pid_count := pid_count obj + i\<rparr>)"
    "mm_at (Some m) (bump p m i j l k) = Inr (mobj\<lparr>o_mm_users := o_mm_users mobj + j\<rparr>)"
    "upid_of (Some p) (bump p m i j l k) = Inr (pid_numbers obj ! pid_level obj)"
    "owner_pid (Some m) (bump p m i j l k) = Inr (t_pid (p_tasks k own))"
    "owner_tgid (Some m) (bump p m i j l k) = Inr (t_tgid (p_tasks k own))"
  using assms
  by (simp_all add: pid_at_def mm_at_def upid_of_def owner_pid_def owner_tgid_def task_pid_def task_tgid_def
      task_at_def bump_def)

lemma other_getters [simp]:
  "task_at (Some t) k = Inr (p_tasks k t)" "ns_at (Some n) k = Inr (p_nss k n)"
  "cur_pid k = Inr (t_pid (p_tasks k (p_current k)))" "cur_tgid k = Inr (t_tgid (p_tasks k (p_current k)))"
  by (simp_all add: task_at_def ns_at_def cur_pid_def cur_tgid_def)

lemmas getter_defs = count_of_def level_of_def nr_of_def task_state_def task_pid_def task_tgid_def ns_level_of_def
  hide_pid_of_def mm_users_of_def mm_count_of_def

lemma dec_bump:
  "\<lbrakk>p_pids k p = Some obj; 1 < pid_count obj + i\<rbrakk> \<Longrightarrow> dec_pid p (bump p m i j l k) = bump p m (i - 1) j l k"
  "\<lbrakk>p_mms k m = Some mobj; 1 < o_mm_users mobj + j\<rbrakk> \<Longrightarrow> dec_mm m (bump p m i j l k) = bump p m i (j - 1) l k"
  by (simp_all add: dec_pid_def dec_mm_def bump_def algebra_simps)

lemma api_calls:
  assumes "pid_api_ok mm_of api"
  shows "a_find_get_pid api nr k = (case a_find_vpid api nr k of None \<Rightarrow> (None, k) | Some p \<Rightarrow> (Some p, inc_pid p k))"
    "a_get_pid api (Some p) k = (Some p, inc_pid p k)"
    "a_put_pid api (Some p) k = dec_pid p k"
    "mm_of t = Some m \<Longrightarrow> a_get_task_mm api t k = (Some m, inc_mm m k)"
    "a_mmput api m k = dec_mm m k"
  using assms by (simp_all add: pid_api_ok_def)

lemma api_lookups:
  assumes "pid_api_ok mm_of api"
  shows "a_find_vpid api nr (bump p m i j l k) = a_find_vpid api nr k"
    "a_pid_task api q (bump p m i j l k) = a_pid_task api q k"
    "a_ns_of_pid api q (bump p m i j l k) = a_ns_of_pid api q k"
    "a_task_active_pid_ns api t (bump p m i j l k) = a_task_active_pid_ns api t k"
  using assms same_pids_bump [of k p m i j l] by (simp_all add: pid_api_ok_def)

lemma probe_ready_bump:
  assumes "pid_api_ok mm_of api" "probe_ready mm_of api p m k" "0 \<le> i" "0 \<le> j"
  shows "probe_ready mm_of api p m (bump p m i j l k)"
  using assms(2-4) unfolding probe_ready_def
  by (auto simp: api_lookups [OF assms(1)]) (simp_all add: bump_def)

lemmas with_defs = with_find_get_pid_def with_find_vpid_def with_get_pid_def a_put_pid_call_def with_pid_nr_def
  with_pid_vnr_def with_pid_task_def with_ns_of_pid_def with_find_pid_ns_def with_task_active_pid_ns_def
  with_task_pid_nr_ns_def with_task_tgid_nr_ns_def with_get_task_mm_def a_mmput_call_def

lemmas probe_init_defs = find_get_pid_init_def find_vpid_init_def get_pid_init_def put_pid_init_def pid_nr_init_def
  pid_vnr_init_def pid_task_init_def ns_of_pid_init_def find_pid_ns_init_def task_pid_nr_ns_init_def
  task_tgid_nr_ns_init_def task_active_pid_ns_init_def get_task_mm_init_def mmput_init_def

lemma say_d_bump: "e (bump p m i j l k) = Inr v \<Longrightarrow>
    say_d s e (bump p m i j l k) = Inr (bump p m i j (l @ [printk ((s @ dec v) @ [NL])]) k)"
  by (simp add: say_d_def say_bump)

lemma probe_init_bump:
  assumes ok: "pid_api_ok mm_of api" and ready: "probe_ready mm_of api p m k" and x: "\<And>procs. x \<noteq> Print_pid procs"
  shows "\<exists>l. probe_init api x (bump p m 0 0 [] k) = Inr (0, bump p m (pid_leak x) (mm_leak x) l k)"
proof -
  obtain obj mobj own n n' where
    obj: "p_pids k p = Some obj" "1 \<le> pid_count obj" "pid_level obj < length (pid_numbers obj)" and
    mobj: "p_mms k m = Some mobj" "1 \<le> o_mm_users mobj" "o_owner mobj = Some own" and
    look: "a_find_vpid api (t_pid (p_tasks k (p_current k))) k = Some p" "a_pid_task api (Some p) k = Some (p_current k)"
      "a_ns_of_pid api (Some p) k = Some n" "a_task_active_pid_ns api (p_current k) k = Some n'"
      "mm_of (p_current k) = Some m"
    using ready unfolding probe_ready_def by auto
  note ev = look getters_bump [OF obj(1) mobj(1,3) obj(3)] getter_defs say_bump say_d_bump with_defs api_calls [OF ok]
    api_lookups [OF ok] inc_bump dec_bump(1) [OF obj(1)] dec_bump(2) [OF mobj(1)] finish_def mm_leak_def
  show ?thesis using obj(2) mobj(2)
  proof (cases x)
    case (Print_pid procs)
    then show ?thesis using x by blast
  qed (simp_all add: ev probe_init_defs del: append_assoc append.simps, (rule exI, rule refl)+)
qed

lemma probe_init_runs:
  assumes "pid_api_ok mm_of api" "probe_ready mm_of api p m k" "\<And>procs. x \<noteq> Print_pid procs"
  obtains l where "probe_init api x k = Inr (0, bump p m (pid_leak x) (mm_leak x) l k)"
  using probe_init_bump [OF assms] unfolding bump_0 by blast

lemma probe_exit_bump: "\<exists>l. probe_exit x k = Inr (bump p m 0 0 l k)"
proof -
  have log: "put_log l k = Inr (bump p m 0 0 l k)" for l
  proof -
    have "bump p m 0 0 l k = (bump p m 0 0 [] k)\<lparr>p_log := p_log k @ l\<rparr>" by (simp add: bump_def)
    then show ?thesis by (simp add: bump_0 put_log_def)
  qed
  then show ?thesis
    by (cases x) (simp_all add: say_def find_get_pid_exit_def find_vpid_exit_def get_pid_exit_def put_pid_exit_def pid_nr_exit_def
      pid_vnr_exit_def pid_task_exit_def ns_of_pid_exit_def find_pid_ns_exit_def task_pid_nr_ns_exit_def
      task_tgid_nr_ns_exit_def task_active_pid_ns_exit_def get_task_mm_exit_def mmput_exit_def print_pid_exit_def,
      (rule exI, rule refl)+)
qed

lemma leaks_nonneg: "0 \<le> pid_leak x" "0 \<le> mm_leak x"
  by (cases x) (simp_all add: mm_leak_def)

lemma refs_bump:
  "p_pids k p = Some obj \<Longrightarrow> pid_refs p (bump p m i j l k) = pid_refs p k + i"
  "p_mms k m = Some mobj \<Longrightarrow> mm_refs m (bump p m i j l k) = mm_refs m k + j"
  by (simp_all add: pid_refs_def mm_refs_def bump_def)

lemma bump_other:
  "q \<noteq> p \<Longrightarrow> p_pids (bump p m i j l k) q = p_pids k q" "q \<noteq> m \<Longrightarrow> p_mms (bump p m i j l k) q = p_mms k q"
  by (simp_all add: bump_def)

section \<open>print_pid\<close>

lemma same_pids_refl: "same_pids k k"
  by (simp add: same_pids_def)

lemma same_pids_trans: "same_pids k k' \<Longrightarrow> same_pids k' k'' \<Longrightarrow> same_pids k k''"
  by (simp add: same_pids_def)

lemma same_pids_inc: "same_pids k (inc_pid p k)"
  by (simp add: same_pids_def inc_pid_def option.map_comp comp_def)

lemma same_pids_say: "say s k = Inr k' \<Longrightarrow> same_pids k k' \<and> p_pids k' = p_pids k \<and> p_mms k' = p_mms k"
  by (auto simp: say_def put_log_def same_pids_def)

definition printable :: "pid_api \<Rightarrow> pkern \<Rightarrow> nat \<Rightarrow> bool" where
  \<comment> \<open>the task has a pid, and the number at its level is there\<close>
  "printable api k t \<longleftrightarrow> (\<exists>p obj. a_find_vpid api (t_pid (p_tasks k t)) k = Some p \<and> p_pids k p = Some obj \<and>
     pid_level obj < length (pid_numbers obj))"

definition held_by :: "pid_api \<Rightarrow> pkern \<Rightarrow> nat list \<Rightarrow> nat \<Rightarrow> int" where
  \<comment> \<open>how many of the tasks have the pid\<close>
  "held_by api k ps q = int (length (filter (\<lambda>t. a_find_vpid api (t_pid (p_tasks k t)) k = Some q) ps))"

lemma same_pids_lookup:
  assumes "pid_api_ok mm_of api" "same_pids k k'"
  shows "a_find_vpid api (t_pid (p_tasks k' t)) k' = a_find_vpid api (t_pid (p_tasks k t)) k"
  using assms by (simp add: pid_api_ok_def same_pids_def)

lemma same_pids_obj:
  assumes "same_pids k k'" "p_pids k p = Some obj"
  obtains obj' where "p_pids k' p = Some obj'" "pid_level obj' = pid_level obj" "pid_numbers obj' = pid_numbers obj"
proof -
  have "map_option (\<lambda>obj. (pid_level obj, pid_numbers obj)) (p_pids k' p) = Some (pid_level obj, pid_numbers obj)"
    using assms by (simp add: same_pids_def)
  then show thesis using that by auto
qed

lemma printable_same:
  assumes "pid_api_ok mm_of api" "same_pids k k'" "printable api k t"
  shows "printable api k' t"
proof -
  obtain p obj where "a_find_vpid api (t_pid (p_tasks k t)) k = Some p" and o: "p_pids k p = Some obj"
    and "pid_level obj < length (pid_numbers obj)"
    using assms(3) unfolding printable_def by blast
  moreover obtain obj' where "p_pids k' p = Some obj'" "pid_level obj' = pid_level obj" "pid_numbers obj' = pid_numbers obj"
    by (rule same_pids_obj [OF assms(2) o])
  ultimately show ?thesis
    unfolding printable_def by (auto simp: same_pids_lookup [OF assms(1,2)])
qed

lemma held_by_same: "pid_api_ok mm_of api \<Longrightarrow> same_pids k k' \<Longrightarrow> held_by api k' ps q = held_by api k ps q"
  by (simp add: held_by_def same_pids_lookup)

lemma pid_refs_inc: "p_pids k p \<noteq> None \<Longrightarrow> pid_refs q (inc_pid p k) = pid_refs q k + (if q = p then 1 else 0)"
  by (auto simp: pid_refs_def inc_pid_def split: option.splits)

lemma print_pid_loop_runs:
  assumes ok: "pid_api_ok mm_of api"
  shows "\<forall>t \<in> set ps. printable api k t \<Longrightarrow>
    \<exists>k'. print_pid_loop api ps n k = Inr (n + int (length ps), k') \<and> same_pids k k' \<and>
      p_mms k' = p_mms k \<and> (\<forall>q. pid_refs q k' = pid_refs q k + held_by api k ps q)"
proof (induction ps arbitrary: n k)
  case Nil
  then show ?case by (simp add: same_pids_refl held_by_def)
next
  case (Cons t ps)
  then obtain p obj where f: "a_find_vpid api (t_pid (p_tasks k t)) k = Some p" "p_pids k p = Some obj"
      "pid_level obj < length (pid_numbers obj)"
    unfolding printable_def by auto
  let ?k1 = "inc_pid p k"
  define line where "line = print_pid_line (p_tasks ?k1 t) (obj\<lparr>pid_count := pid_count obj + 1\<rparr>)
    (fst (pid_numbers obj ! pid_level obj)) (a_pid_vnr api (Some p) ?k1)"
  obtain k2 where k2: "say line ?k1 = Inr k2" by (simp add: say_def put_log_def)
  have step: "print_pid_loop api (t # ps) n k = print_pid_loop api ps (n + 1) k2"
    using f k2 by (simp add: api_calls(1) [OF ok] Let_def nr_of_def upid_of_def pid_at_def line_def) (simp add: inc_pid_def)
  have same: "same_pids k k2"
    using same_pids_inc same_pids_say [OF k2] same_pids_trans by blast
  have "\<forall>t \<in> set ps. printable api k2 t"
    using Cons.prems printable_same [OF ok same] by simp
  from Cons.IH [OF this] obtain k' where k': "print_pid_loop api ps (n + 1) k2 = Inr (n + 1 + int (length ps), k')"
      "same_pids k2 k'" "p_mms k' = p_mms k2" "\<forall>q. pid_refs q k' = pid_refs q k2 + held_by api k2 ps q" by blast
  have "pid_refs q k2 = pid_refs q k + (if q = p then 1 else 0)" for q
    using pid_refs_inc [of k p q] f(2) same_pids_say [OF k2] by (simp add: pid_refs_def)
  moreover have "held_by api k (t # ps) q = (if q = p then 1 else 0) + held_by api k ps q" for q
    using f(1) by (simp add: held_by_def)
  ultimately have "pid_refs q k' = pid_refs q k + held_by api k (t # ps) q" for q
    using k'(4) by (simp add: held_by_same [OF ok same])
  moreover have "p_mms k2 = p_mms k" using same_pids_say [OF k2] by (simp add: inc_pid_def)
  ultimately show ?case
    using step k' same_pids_trans [OF same k'(2)] by simp
qed

lemma print_pid_init_runs:
  assumes "pid_api_ok mm_of api" "\<forall>t \<in> set procs. printable api k t"
  shows "\<exists>k'. print_pid_init api procs k = Inr (0, k') \<and> same_pids k k' \<and> p_mms k' = p_mms k \<and>
    last (p_log k') = printk (''the number of process is:'' @ dec (int (length procs)) @ [NL]) \<and>
    (\<forall>q. pid_refs q k' = pid_refs q k + held_by api k procs q)"
proof -
  define k1 where "k1 = k\<lparr>p_log := p_log k @ [pr_alert (''print_pid,'' @ [NL]), printk (''Hello World enter begin:'' @ [NL]),
     printk ((padr 6 ''PID'' @ [SP] @ padr 30 ''NAME'' @ [SP] @ padr 10 ''COUNT'' @ [SP] @ padr 10 ''LEVEL'' @ [SP] @
            padr 10 ''NR'' @ [SP] @ padr 10 ''VNR'') @ [NL])]\<rparr>"
  have same: "same_pids k k1" "p_mms k1 = p_mms k" and refs: "pid_refs q k1 = pid_refs q k" for q
    by (simp_all add: k1_def same_pids_def pid_refs_def)
  have "\<forall>t \<in> set procs. printable api k1 t" using assms printable_same [OF _ same(1)] by blast
  from print_pid_loop_runs [OF assms(1) this, of 0] obtain k2 where k2:
    "print_pid_loop api procs 0 k1 = Inr (int (length procs), k2)" "same_pids k1 k2" "p_mms k2 = p_mms k1"
    "\<forall>q. pid_refs q k2 = pid_refs q k1 + held_by api k1 procs q" by auto
  obtain k3 where k3: "say (''the number of process is:'' @ dec (int (length procs))) k2 = Inr k3"
      "last (p_log k3) = printk (''the number of process is:'' @ dec (int (length procs)) @ [NL])"
    by (simp add: say_def put_log_def)
  have "print_pid_init api procs k = bindF (print_pid_loop api procs 0 k1) (\<lambda>(count, k2).
     finish (say (''the number of process is:'' @ dec count)) k2)"
    by (simp add: print_pid_init_def say_def put_log_def k1_def)
  then have "print_pid_init api procs k = Inr (0, k3)" using k2(1) k3(1) by (simp add: finish_def)
  moreover have "same_pids k k3" "p_mms k3 = p_mms k" "pid_refs q k3 = pid_refs q k + held_by api k procs q" for q
    using same_pids_trans [OF same_pids_trans [OF same(1) k2(2)]] same_pids_say [OF k3(1)] same(2) k2(3,4) refs
      held_by_same [OF assms(1) same(1)] by (simp_all add: pid_refs_def)
  ultimately show ?thesis using k3(2) by blast
qed

section \<open>The counts of the family\<close>

text \<open>
  The references of every pid and of every address space. A state is ready when the current task is,
  and the objects are those of \<open>k0\<close>, whatever their counts.
\<close>

datatype counted = Pid_of nat | Mm_of nat

fun refs_of_counted :: "counted \<Rightarrow> pkern \<Rightarrow> int" where
  "refs_of_counted (Pid_of q) k = pid_refs q k"
| "refs_of_counted (Mm_of q) k = mm_refs q k"

definition listed :: "probe \<Rightarrow> nat list" where
  \<comment> \<open>the tasks a module goes through\<close>
  "listed x = (case x of Print_pid procs \<Rightarrow> procs | _ \<Rightarrow> [])"

fun leak_of :: "pid_api \<Rightarrow> pkern \<Rightarrow> nat \<Rightarrow> nat \<Rightarrow> probe \<Rightarrow> counted \<Rightarrow> int" where
  "leak_of api k0 p m x (Pid_of q) = (if q = p then pid_leak x else 0) + held_by api k0 (listed x) q"
| "leak_of api k0 p m x (Mm_of q) = (if q = m then mm_leak x else 0)"

definition ready_since :: "(nat \<Rightarrow> nat option) \<Rightarrow> pid_api \<Rightarrow> nat \<Rightarrow> nat \<Rightarrow> pkern \<Rightarrow> pkern \<Rightarrow> bool" where
  "ready_since mm_of api p m k0 k \<longleftrightarrow>
     pid_api_ok mm_of api \<and> probe_ready mm_of api p m k \<and> same_pids k0 k"

lemma probe_ready_same:
  assumes ok: "pid_api_ok mm_of api" and same: "same_pids k k'" and ready: "probe_ready mm_of api p m k"
    and more: "pid_refs p k \<le> pid_refs p k'" "mm_refs m k \<le> mm_refs m k'"
  shows "probe_ready mm_of api p m k'"
proof -
  obtain obj mobj where obj: "p_pids k p = Some obj" "1 \<le> pid_count obj" "pid_level obj < length (pid_numbers obj)"
    and mobj: "p_mms k m = Some mobj" "1 \<le> o_mm_users mobj" "o_owner mobj \<noteq> None"
    using ready unfolding probe_ready_def by blast
  obtain obj' where obj': "p_pids k' p = Some obj'" "pid_level obj' = pid_level obj" "pid_numbers obj' = pid_numbers obj"
    by (rule same_pids_obj [OF same obj(1)])
  have "map_option o_owner (p_mms k' m) = map_option o_owner (p_mms k m)" using same by (simp add: same_pids_def)
  then obtain mobj' where mobj': "p_mms k' m = Some mobj'" "o_owner mobj' = o_owner mobj" using mobj(1) by auto
  have "1 \<le> pid_count obj'" "1 \<le> o_mm_users mobj'"
    using more obj(1,2) mobj(1,2) obj'(1) mobj'(1) by (simp_all add: pid_refs_def mm_refs_def)
  moreover have "p_current k' = p_current k" "p_tasks k' = p_tasks k" "a_find_vpid api nr k' = a_find_vpid api nr k"
      "a_pid_task api q k' = a_pid_task api q k" "a_ns_of_pid api q k' = a_ns_of_pid api q k"
      "a_task_active_pid_ns api t k' = a_task_active_pid_ns api t k" for nr q t
    using ok same by (simp_all add: pid_api_ok_def same_pids_def)
  ultimately show ?thesis using ready obj(3) mobj(3) obj' mobj' by (simp add: probe_ready_def)
qed

lemma ready_since_same:
  assumes "ready_since mm_of api p m k0 k" "same_pids k k'"
    and "pid_refs p k \<le> pid_refs p k'" "mm_refs m k \<le> mm_refs m k'"
  shows "ready_since mm_of api p m k0 k'"
  using assms probe_ready_same [of mm_of api k k' p m] same_pids_trans by (auto simp: ready_since_def)

lemma refs_bump_at:
  assumes "probe_ready mm_of api p m k"
  shows "pid_refs q (bump p m i j l k) = pid_refs q k + (if q = p then i else 0)"
    "mm_refs q (bump p m i j l k) = mm_refs q k + (if q = m then j else 0)"
proof -
  obtain obj mobj where "p_pids k p = Some obj" "p_mms k m = Some mobj"
    using assms unfolding probe_ready_def by blast
  note here = refs_bump(1) [OF this(1)] refs_bump(2) [OF this(2)]
  show "pid_refs q (bump p m i j l k) = pid_refs q k + (if q = p then i else 0)"
    by (cases "q = p") (simp_all add: here, simp add: pid_refs_def bump_other)
  show "mm_refs q (bump p m i j l k) = mm_refs q k + (if q = m then j else 0)"
    by (cases "q = m") (simp_all add: here, simp add: mm_refs_def bump_other)
qed

definition fit_since :: "pid_api \<Rightarrow> pkern \<Rightarrow> probe \<Rightarrow> bool" where
  "fit_since api k0 x \<longleftrightarrow> (\<forall>t \<in> set (listed x). printable api k0 t)"

lemma probe_init_moves:
  assumes r: "ready_since mm_of api p m k0 k" and fit: "fit_since api k0 x"
  shows "\<exists>k'. probe_init api x k = Inr (0, k') \<and> same_pids k k' \<and>
    (\<forall>c. refs_of_counted c k' = refs_of_counted c k + leak_of api k0 p m x c)"
proof -
  have ok: "pid_api_ok mm_of api" and ready: "probe_ready mm_of api p m k" and same: "same_pids k0 k"
    using r by (simp_all add: ready_since_def)
  show ?thesis
  proof (cases "\<exists>procs. x = Print_pid procs")
    case True
    then obtain procs where x: "x = Print_pid procs" by blast
    have "\<forall>t \<in> set procs. printable api k t"
      using fit printable_same [OF ok same] by (simp add: fit_since_def listed_def x)
    from print_pid_init_runs [OF ok this] obtain k' where k': "print_pid_init api procs k = Inr (0, k')" "same_pids k k'"
      "p_mms k' = p_mms k" "\<forall>q. pid_refs q k' = pid_refs q k + held_by api k procs q" by blast
    have "refs_of_counted c k' = refs_of_counted c k + leak_of api k0 p m x c" for c
      using k'(3,4) held_by_same [OF ok same] by (cases c) (simp_all add: x listed_def mm_leak_def mm_refs_def)
    then show ?thesis using k'(1,2) x by auto
  next
    case False
    then obtain l where l: "probe_init api x k = Inr (0, bump p m (pid_leak x) (mm_leak x) l k)"
      using probe_init_runs [OF ok ready, of x] by blast
    have "listed x = []" using False by (cases x) (simp_all add: listed_def)
    then have "refs_of_counted c (bump p m (pid_leak x) (mm_leak x) l k) = refs_of_counted c k + leak_of api k0 p m x c" for c
      by (cases c) (simp_all add: refs_bump_at [OF ready] held_by_def)
    then show ?thesis using l same_pids_bump by blast
  qed
qed

interpretation pid_probes: probe_family "probe_init api" probe_exit "fit_since api k0" "ready_since mm_of api p m k0"
    refs_of_counted "leak_of api k0 p m" for mm_of api p m k0
proof
  fix x k assume r: "ready_since mm_of api p m k0 k" and fit: "fit_since api k0 x"
  obtain k' where k': "probe_init api x k = Inr (0, k')" "same_pids k k'"
      "\<forall>c. refs_of_counted c k' = refs_of_counted c k + leak_of api k0 p m x c"
    using probe_init_moves [OF r fit] by blast
  have "pid_refs p k \<le> pid_refs p k'" "mm_refs m k \<le> mm_refs m k'"
    using k'(3) [rule_format, of "Pid_of p"] k'(3) [rule_format, of "Mm_of m"]
    by (simp_all add: leaks_nonneg held_by_def)
  from ready_since_same [OF r k'(2) this] k'(1,3)
  show "\<exists>k'. probe_init api x k = Inr (0, k') \<and> ready_since mm_of api p m k0 k' \<and>
      (\<forall>c. refs_of_counted c k' = refs_of_counted c k + leak_of api k0 p m x c)" by blast
  have ready: "probe_ready mm_of api p m k" using r by (simp add: ready_since_def)
  obtain l where l: "probe_exit x k = Inr (bump p m 0 0 l k)" using probe_exit_bump by blast
  have "refs_of_counted c (bump p m 0 0 l k) = refs_of_counted c k" for c
    by (cases c) (simp_all add: refs_bump_at [OF ready])
  moreover have "ready_since mm_of api p m k0 (bump p m 0 0 l k)"
    by (rule ready_since_same [OF r same_pids_bump]) (simp_all add: refs_bump_at [OF ready])
  ultimately show "\<exists>k'. probe_exit x k = Inr k' \<and> ready_since mm_of api p m k0 k' \<and>
      (\<forall>c. refs_of_counted c k' = refs_of_counted c k)" using l by blast
qed

section \<open>Properties\<close>

definition demo_mm_of :: "nat \<Rightarrow> nat option" where "demo_mm_of t = Some 0"

definition demo_pid_api :: pid_api where
  "demo_pid_api = \<lparr>
     a_find_get_pid = (\<lambda>nr k. if nr = 7 then (Some 0, inc_pid 0 k) else (None, k)),
     a_find_vpid = (\<lambda>nr k. if nr = 7 then Some 0 else None), a_find_pid_ns = (\<lambda>nr ns k. Some 0),
     a_get_pid = (\<lambda>q k. (q, case q of None \<Rightarrow> k | Some p \<Rightarrow> inc_pid p k)),
     a_put_pid = (\<lambda>q k. case q of None \<Rightarrow> k | Some p \<Rightarrow> dec_pid p k),
     a_pid_nr = (\<lambda>q k. 7), a_pid_vnr = (\<lambda>q k. 7),
     a_pid_task = (\<lambda>q k. q), a_ns_of_pid = (\<lambda>q k. q), a_task_active_pid_ns = (\<lambda>t k. Some 0),
     a_task_pid_nr_ns = (\<lambda>t n k. 7), a_task_tgid_nr_ns = (\<lambda>t n k. 7),
     a_get_task_mm = (\<lambda>t k. (Some 0, inc_mm 0 k)), a_mmput = dec_mm, a_module_refcount = 1\<rparr>"

definition demo_pkern :: pkern where
  "demo_pkern = \<lparr>p_log = [], p_current = 0, p_tasks = (\<lambda>_. \<lparr>t_pid = 7, t_tgid = 7, t_state = 0, t_comm = ''insmod''\<rparr>),
     p_pids = (\<lambda>p. if p = 0 then Some \<lparr>pid_count = 2, pid_level = 0, pid_numbers = [(7, 0)]\<rparr> else None),
     p_mms = (\<lambda>m. if m = 0 then Some \<lparr>o_mm_users = 1, o_mm_count = 1, o_owner = Some 0\<rparr> else None),
     p_nss = (\<lambda>_. \<lparr>ns_level = 0, ns_hide_pid = 0\<rparr>)\<rparr>"

lemma demo_pid_api_ok: "pid_api_ok demo_mm_of demo_pid_api"
  by (simp add: pid_api_ok_def demo_pid_api_def demo_mm_of_def)

lemma demo_probe_ready: "probe_ready demo_mm_of demo_pid_api 0 0 demo_pkern"
  by (simp add: probe_ready_def demo_pid_api_def demo_mm_of_def demo_pkern_def)

text \<open>
  C20: loading and unloading the pid modules, in any order and number, never fails and never reads a
  freed object, when the current task has a pid with a namespace that looking up its number finds and that gives
  the task back, and an address space with an owner, both with a reference of the task's own, and when every task that
  \<open>print_pid\<close> goes through has a pid that looking up its number finds. A run of \<open>print_pid\<close> leaves one
  reference behind to the pid of every task of its list; a run of \<open>get_pid\<close> leaves three to the pid of
  the current task, one of \<open>put_pid\<close> or \<open>find_vpid\<close> none, one of any other module one; a run of
  \<open>get_task_mm\<close> leaves one to the address space; and no other count changes.
\<close>

theorem probes_leak:
  assumes "pid_api_ok mm_of api" "probe_ready mm_of api p m k" "\<forall>x \<in> set xs. \<forall>t \<in> set (listed x). printable api k t"
  shows "\<exists>k'. run_probes api xs k = Inr k' \<and> probe_ready mm_of api p m k' \<and>
    (\<forall>q. pid_refs q k' = pid_refs q k + (if q = p then sum_list (map pid_leak xs) else 0) +
       (\<Sum>x\<leftarrow>xs. held_by api k (listed x) q)) \<and>
    (\<forall>q. mm_refs q k' = mm_refs q k + (if q = m then sum_list (map mm_leak xs) else 0))"
proof -
  have "ready_since mm_of api p m k k" using assms same_pids_refl by (simp add: ready_since_def)
  moreover have "\<forall>x \<in> set xs. fit_since api k x" using assms(3) by (simp add: fit_since_def)
  ultimately obtain k' where k': "run_probes api xs k = Inr k'" "ready_since mm_of api p m k k'"
      "\<forall>c. refs_of_counted c k' = refs_of_counted c k + (\<Sum>x\<leftarrow>xs. leak_of api k p m x c)"
    using pid_probes.family_moves [of xs api k mm_of p m k] by (auto simp: run_probes_def)
  have "pid_refs q k' = pid_refs q k + (if q = p then sum_list (map pid_leak xs) else 0) +
       (\<Sum>x\<leftarrow>xs. held_by api k (listed x) q)" for q
    using k'(3) [rule_format, of "Pid_of q"] by (simp add: sum_list_addf)
  moreover have "mm_refs q k' = mm_refs q k + (if q = m then sum_list (map mm_leak xs) else 0)" for q
    using k'(3) [rule_format, of "Mm_of q"] by simp
  ultimately show ?thesis using k'(1,2) by (auto simp: ready_since_def)
qed

lemma probes_leak_witness:
  "\<exists>k'. run_probes demo_pid_api [Put_pid, Get_pid, Print_pid [0, 1], Mmput, Get_task_mm] demo_pkern = Inr k' \<and>
     pid_refs 0 k' = 9 \<and> mm_refs 0 k' = 2"
proof -
  let ?xs = "[Put_pid, Get_pid, Print_pid [0, 1], Mmput, Get_task_mm]"
  have "\<forall>x \<in> set ?xs. \<forall>t \<in> set (listed x). printable demo_pid_api demo_pkern t"
    by (simp add: printable_def listed_def demo_pid_api_def demo_pkern_def)
  from probes_leak [OF demo_pid_api_ok demo_probe_ready this] show ?thesis
    by (auto simp: mm_leak_def pid_refs_def mm_refs_def listed_def held_by_def demo_pkern_def demo_pid_api_def)
qed

text \<open>
  \<open>print_pid\<close> returns 0 for a task list in which every task has a pid, and leaves one reference to a
  pid behind for every task it belongs to; the last line it logs is the length of the list.
\<close>

theorem print_pid_leaks:
  assumes "pid_api_ok mm_of api" "\<forall>t \<in> set procs. printable api k t"
  shows "\<exists>k'. print_pid_init api procs k = Inr (0, k') \<and>
    last (p_log k') = printk (''the number of process is:'' @ dec (int (length procs)) @ [NL]) \<and>
    (\<forall>q. pid_refs q k' = pid_refs q k + held_by api k procs q)"
  using print_pid_init_runs [OF assms] by blast

lemma print_pid_leaks_witness:
  "\<exists>k'. print_pid_init demo_pid_api [0, 1] demo_pkern = Inr (0, k') \<and> pid_refs 0 k' = 4"
proof -
  have "\<forall>t \<in> set [0, 1]. printable demo_pid_api demo_pkern t"
    by (simp add: printable_def demo_pid_api_def demo_pkern_def)
  from print_pid_leaks [OF demo_pid_api_ok this] show ?thesis
    by (auto simp: pid_refs_def held_by_def demo_pkern_def demo_pid_api_def)
qed

end
