(* ===== verification/Module_Probes.thy ===== *)
theory Module_Probes
  imports Probe_Stmt Dbg_Msg
begin

text \<open>
  The modules that try out the module loader's functions: \<open>find_module\<close>, \<open>module_refcount\<close>,
  \<open>module_put\<close>, \<open>try_module_get\<close>, \<open>__symbol_get\<close>, \<open>__symbol_put\<close>, \<open>symbol_put_addr\<close>, \<open>find_symbol\<close>,
  \<open>module_address\<close> (and its copy under \<open>eg\<close>), \<open>module_text_address\<close>, \<open>module_is_live\<close>,
  \<open>sprint_symbol\<close> and \<open>__print_symbol\<close>. Loaded modules are objects with a reference count; the
  loader's functions and the addresses of the modules' own functions are arguments. Two of the
  modules dump a \<open>struct module\<close> with \<open>DbgPrintMsg\<close> of \<open>Dbg_Msg\<close>.
\<close>

section \<open>Objects\<close>

record kmodule =
  mod_name :: string
  mod_state :: int
  mod_percpu_size :: int
  mod_refs :: int
  mod_core_base :: "64 word"
  mod_version :: "string option"
  mod_srcversion :: "string option"

record mkern = logged +
  mods :: "nat \<Rightarrow> kmodule"
  preempt_count :: int

record mod_api =
  this_module :: nat
  a_fun :: "64 word"            \<comment> \<open>the address of the function the module itself defines\<close>
  m_return_address :: "64 word"  \<comment> \<open>\<open>__builtin_return_address(0)\<close>\<close>
  m_find_module :: "string \<Rightarrow> mkern \<Rightarrow> nat option"
  m_module_put :: "nat \<Rightarrow> mkern \<Rightarrow> mkern"
  m_try_module_get :: "nat \<Rightarrow> mkern \<Rightarrow> int \<times> mkern"
  m_symbol_get :: "string \<Rightarrow> mkern \<Rightarrow> 64 word \<times> mkern"   \<comment> \<open>the address, 0 for NULL\<close>
  m_symbol_put :: "string \<Rightarrow> mkern stmt"
  m_symbol_put_addr :: "64 word \<Rightarrow> mkern stmt"
  m_find_symbol :: "string \<Rightarrow> mkern \<Rightarrow> ((64 word \<times> 64 word) \<times> nat option) option"
    \<comment> \<open>the fields of the \<open>kernel_symbol\<close> and the owner\<close>
  m_module_address :: "64 word \<Rightarrow> mkern \<Rightarrow> nat option"
  m_module_text_address :: "64 word \<Rightarrow> mkern \<Rightarrow> nat option"
  m_module_bytes :: "nat \<Rightarrow> mkern \<Rightarrow> 8 word list"
  m_module_is_live :: "nat \<Rightarrow> mkern \<Rightarrow> int"
  m_sprint_symbol :: "64 word \<Rightarrow> string"
  m_ksym_symbol_len :: nat

definition refs_of :: "nat \<Rightarrow> (mkern, int) expr" where
  \<comment> \<open>\<open>module_refcount\<close>\<close>
  "refs_of x k = Inr (mod_refs (mods k x))"

definition str_or_null :: "string option \<Rightarrow> string" where
  \<comment> \<open>what \<open>%s\<close> prints for a pointer\<close>
  "str_or_null s = (case s of None \<Rightarrow> ''(null)'' | Some t \<Rightarrow> t)"

definition lx :: "64 word \<Rightarrow> string" where "lx w = hex_nat (unat w)"

definition hash_x :: "nat \<Rightarrow> string" where
  \<comment> \<open>\<open>%#x\<close>\<close>
  "hash_x n = (if n = 0 then ''0'' else ''0x'' @ hex_nat n)"

definition say_refs_this :: "mod_api \<Rightarrow> mkern stmt" where
  "say_refs_this api = say_d ''module_refcount(THIS_MODULE):'' (refs_of (this_module api))"

abbreviation found :: "nat option \<Rightarrow> mkern stmt \<Rightarrow> (nat \<Rightarrow> mkern stmt) \<Rightarrow> mkern stmt" where
  \<comment> \<open>\<open>if (NULL != fmodule) ... else ...\<close>\<close>
  "found q no yes \<equiv> case_option no yes q"

section \<open>find_module, module_refcount\<close>

definition find_module_report :: "mod_api \<Rightarrow> string \<Rightarrow> mkern stmt" where
  "find_module_report api name k =
     found (m_find_module api name k)
       (say (''fail to find  :'' @ name))
       (\<lambda>fmodule. run_seq [
          say (''fmodule->name  :'' @ mod_name (mods k fmodule)),
          say_d ''fmodule->state :'' (val (mod_state (mods k fmodule))),
          say_d ''fmodule->percpu_size :'' (val (mod_percpu_size (mods k fmodule))),
          say_d ''module_refcount(fmodule):'' (refs_of fmodule)]) k"

definition find_module_init :: "mod_api \<Rightarrow> mkern \<Rightarrow> fault + (int \<times> mkern)" where
  "find_module_init api = finish (run_seq [find_module_report api ''test_module'', find_module_report api ''cuse''])"

definition find_module_exit :: "mkern stmt" where
  "find_module_exit = say ''module[find_module_exit] exit ok!''"

definition module_refcount_init :: "mod_api \<Rightarrow> mkern \<Rightarrow> fault + (int \<times> mkern)" where
  "module_refcount_init api = finish (run_seq [
     \<lambda>k. found (m_find_module api ''test_module'' k)
       (say ''find test_module failed!'')
       (\<lambda>fmodule. run_seq [
          say (''fmodule->name:'' @ mod_name (mods k fmodule)),
          say_d ''module_refcount(fmodule):'' (refs_of fmodule)]) k,
     \<lambda>k. say (''THIS_MODULE->name:'' @ mod_name (mods k (this_module api))) k,
     say_refs_this api])"

definition module_refcount_exit :: "mkern stmt" where
  "module_refcount_exit = say ''<0>module[module_refcount_exit] exit ok!''"

section \<open>module_put, try_module_get\<close>

definition module_put_init :: "mod_api \<Rightarrow> mkern \<Rightarrow> fault + (int \<times> mkern)" where
  "module_put_init api = finish (\<lambda>k.
     found (m_find_module api ''test_module'' k)
       (say ''find test_module failed!'')
       (\<lambda>fmodule. run_seq [
          say ''before callling  module_put,'',
          say_d ''refs of test_module is: '' (refs_of fmodule),
          \<lambda>k. Inr (m_module_put api fmodule k),
          say ''after callling  module_put,'',
          say_d ''refs of test_module is: '' (refs_of fmodule)]) k)"

definition module_put_exit :: "mkern stmt" where
  "module_put_exit = say ''<0>module[module_put_exit] exit ok!''"

definition try_module_get_init :: "mod_api \<Rightarrow> mkern \<Rightarrow> fault + (int \<times> mkern)" where
  \<comment> \<open>the test is \<open>NULL != NULL\<close>, not \<open>NULL != fmodule\<close>\<close>
  "try_module_get_init api = finish (run_seq [
     \<lambda>k. let fmodule = m_find_module api ''test_module'' k in
       if (None :: nat option) \<noteq> None then
         found fmodule (\<lambda>k. Inl NullDeref) (\<lambda>x. run_seq [
           say ''before calling try_module_get,'',
           say_d ''refs of test_module is: '' (refs_of x),
           \<lambda>k. (case m_try_module_get api x k of (ret, k') \<Rightarrow> run_seq [
             say ''after calling try_module_get,'',
             say_d ''ret='' (val ret),
             say_d ''refs of test_module is: '' (refs_of x)] k')]) k
       else say ''find test_module failed!'' k,
     say_refs_this api])"

definition try_module_get_exit :: "mkern stmt" where
  "try_module_get_exit = say ''<0>module[try_module_get_exit] exit ok!''"

section \<open>Symbols\<close>

definition symbol_get_report :: "mod_api \<Rightarrow> string \<Rightarrow> mkern stmt" where
  "symbol_get_report api symbol_name k =
     (case m_symbol_get api symbol_name k of (addr, k') \<Rightarrow>
        if addr \<noteq> 0 then say (''the address of '' @ symbol_name @ '' is :'' @ lx addr) k'
        else say (symbol_name @ '' isn'' @ [CHR 0x27] @ ''t found'') k')"

definition symbol_get_init :: "mod_api \<Rightarrow> mkern \<Rightarrow> fault + (int \<times> mkern)" where
  "symbol_get_init api = finish (run_seq [
     symbol_get_report api ''symbol_A'', symbol_get_report api ''symbol_0'', symbol_get_report api ''xor'',
     symbol_get_report api ''DbgPrintMsg'', symbol_get_report api ''cpu_info''])"

definition symbol_get_exit :: "mkern stmt" where
  "symbol_get_exit = say ''module[__symbol_get_exit] exit ok!''"

definition symbol_put_init :: "mod_api \<Rightarrow> mkern \<Rightarrow> fault + (int \<times> mkern)" where
  "symbol_put_init api = finish (\<lambda>k.
     found (m_find_module api ''parport'' k)
       (say ''find parport failed!'')
       (\<lambda>fmodule. run_seq [
          say ''before calling __symbol_put,'',
          say_d ''ref of parport is :'' (refs_of fmodule),
          m_symbol_put api ''parport'',
          say ''after calling __symbol_put, '',
          say_d ''ref of parport is:'' (refs_of fmodule)]) k)"

definition symbol_put_exit :: "mkern stmt" where
  "symbol_put_exit = say ''module[__symbol_put_exit] exit ok!''"

definition put_addr_report :: "mod_api \<Rightarrow> 64 word \<Rightarrow> mkern stmt" where
  \<comment> \<open>again \<open>NULL != NULL\<close>\<close>
  "put_addr_report api addr = run_seq [
     say (''addr:'' @ hash_x (unat addr mod 2 ^ 32)),
     \<lambda>k. let fmodule = m_find_module api ''test_module'' k in
       if (None :: nat option) \<noteq> None then
         found fmodule (\<lambda>k. Inl NullDeref) (\<lambda>x. run_seq [
           say ''before calling symbol_put_addr,'',
           say_d ''refs of test_module is: '' (refs_of x),
           m_symbol_put_addr api addr,
           say ''after calling symbol_put_addr,'',
           say_d ''refs of test_module is: '' (refs_of x)]) k
       else say ''find test_module failed!'' k]"

definition symbol_put_addr_init :: "mod_api \<Rightarrow> mkern \<Rightarrow> fault + (int \<times> mkern)" where
  "symbol_put_addr_init api = finish (run_seq [
     \<lambda>k. (case m_symbol_get api ''symbol_A'' k of (addr, k1) \<Rightarrow>
       (if addr \<noteq> 0 then put_addr_report api addr
        else say (''symbol_A isn'' @ [CHR 0x27] @ ''t found'')) k1),
     say_refs_this api])"

definition symbol_put_addr_exit :: "mkern stmt" where
  "symbol_put_addr_exit = say ''<0>module[symbol_put_addr_exit] exit ok!''"

definition find_symbol_init :: "mod_api \<Rightarrow> nat option \<Rightarrow> bool \<Rightarrow> mkern \<Rightarrow> fault + (int \<times> mkern)" where
  \<comment> \<open>what the uninitialised \<open>owner\<close> holds (a module or not, as the test sees it) and whether the
    uninitialised \<open>crc\<close> is not NULL; neither is written when the symbol is not found, \<open>crc\<close> never\<close>
  "find_symbol_init api owner0 crc0 = finish (\<lambda>k.
     case m_find_symbol api ''perf_pmu_register'' k of
       None \<Rightarrow> run_seq [
         say ''Failed to find symbol perf_pmu_register'',
         \<lambda>k. (if owner0 \<noteq> None then Inl Uninitialised else Inr k),
         \<lambda>k. (if crc0 then Inl Uninitialised else Inr k)] k
     | Some ((sym_value, sym_name), owner) \<Rightarrow> run_seq [
         say (''ksymbol->value:'' @ lx sym_value),
         say (''ksymbol->name :'' @ lx sym_name),
         \<lambda>k. (case owner of None \<Rightarrow> Inr k | Some x \<Rightarrow> say (''owner->name  :'' @ mod_name (mods k x)) k),
         \<lambda>k. (if crc0 then Inl Uninitialised else Inr k)] k)"

definition find_symbol_exit :: "mkern stmt" where
  "find_symbol_exit = say ''module[find_symbol_exit] exit ok!''"

section \<open>Addresses\<close>

definition dump_module :: "mod_api \<Rightarrow> nat \<Rightarrow> mkern stmt" where
  \<comment> \<open>\<open>DbgPrintMsg((VOID *)ret, sizeof(*ret))\<close>\<close>
  "dump_module api x k = bindF (DbgPrintMsg (m_module_bytes api x k)) (\<lambda>(ret, l). put_log l k)"

definition preempt_disable :: "mkern stmt" where
  "preempt_disable k = Inr (k\<lparr>preempt_count := preempt_count k + 1\<rparr>)"

definition preempt_enable :: "mkern stmt" where
  "preempt_enable k = Inr (k\<lparr>preempt_count := preempt_count k - 1\<rparr>)"

definition address_report :: "mod_api \<Rightarrow> nat option \<Rightarrow> mkern stmt" where
  "address_report api q k =
     found q
       (put_log [pr_alert (''__module_address return NULL!'' @ [NL])])
       (\<lambda>x. run_seq [
          dump_module api x,
          say_d ''size struct module      :'' (val (int (length (m_module_bytes api x k)))),
          say (''ret->name      :'' @ mod_name (mods k x)),
          say_d ''ret->state     :'' (val (mod_state (mods k x))),
          say_d (''refs of '' @ mod_name (mods k x) @ '' is '') (refs_of x)]) k"

definition module_address_init :: "mod_api \<Rightarrow> mkern \<Rightarrow> fault + (int \<times> mkern)" where
  "module_address_init api = finish (run_seq [
     preempt_disable,
     \<lambda>k. run_seq [preempt_enable, address_report api (m_module_address api (a_fun api) k)] k])"

definition module_address_exit :: "mkern stmt" where
  "module_address_exit = put_log [pr_alert (''module exit ok!'' @ [NL])]"

definition eg_module_address_init :: "mod_api \<Rightarrow> mkern \<Rightarrow> fault + (int \<times> mkern)" where
  \<comment> \<open>the call is commented out and \<open>ret\<close> is 0\<close>
  "eg_module_address_init api = finish (run_seq [preempt_disable, preempt_enable, address_report api None])"

definition eg_module_address_exit :: "mkern stmt" where
  "eg_module_address_exit = put_log [pr_alert (''module exit ok!'' @ [NL])]"

definition text_address_report :: "mod_api \<Rightarrow> nat option \<Rightarrow> mkern stmt" where
  "text_address_report api q k =
     found q
       (put_log [pr_alert (''__module_address return NULL!'' @ [NL])])
       (\<lambda>x. run_seq [
          dump_module api x,
          say_d ''size struct module      :'' (val (int (length (m_module_bytes api x k)))),
          say (''ret->name               :'' @ mod_name (mods k x)),
          say_d ''ret->state              :'' (val (mod_state (mods k x))),
          say (''ret->version            :'' @ str_or_null (mod_version (mods k x))),
          say (''ret->srcversion         :'' @ str_or_null (mod_srcversion (mods k x))),
          say_d (''refs of '' @ mod_name (mods k x) @ '' is '') (refs_of x)]) k"

definition module_text_address_init :: "mod_api \<Rightarrow> mkern \<Rightarrow> fault + (int \<times> mkern)" where
  "module_text_address_init api = finish (run_seq [
     preempt_disable,
     \<lambda>k. run_seq [preempt_enable, say (''it'' @ [CHR 0x27] @ ''s about fun_test''),
            text_address_report api (m_module_text_address api (a_fun api) k)] k])"

definition module_text_address_exit :: "mkern stmt" where
  "module_text_address_exit = put_log [pr_alert (''module exit ok!'' @ [NL])]"

section \<open>module_is_live\<close>

definition live_line :: "string \<Rightarrow> int \<Rightarrow> string" where
  "live_line place ret = ''<0>in '' @ place @ '', state is : '' @ (if 1 = ret then ''not GOING!'' else ''GOING!'')"

definition module_is_live_init :: "mod_api \<Rightarrow> mkern \<Rightarrow> fault + (int \<times> mkern)" where
  "module_is_live_init api = finish (\<lambda>k. say (live_line ''init'' (m_module_is_live api (this_module api) k)) k)"

definition module_is_live_exit :: "mod_api \<Rightarrow> mkern stmt" where
  "module_is_live_exit api = run_seq [
     \<lambda>k. say (live_line ''exit'' (m_module_is_live api (this_module api) k)) k,
     say ''<0>module[module_is_live_exit] exit ok!'']"

section \<open>sprint_symbol, __print_symbol\<close>

definition sprint_lines :: "mod_api \<Rightarrow> 64 word \<Rightarrow> mkern stmt" where
  \<comment> \<open>\<open>sprint_symbol\<close> returns the length of what it puts into the buffer\<close>
  "sprint_lines api address = run_seq [
     say_d ''ret    :'' (val (int (length (m_sprint_symbol api address)))),
     say (''buffer :'' @ m_sprint_symbol api address)]"

definition sprint_symbol_init :: "mod_api \<Rightarrow> mkern \<Rightarrow> fault + (int \<times> mkern)" where
  "sprint_symbol_init api = finish (run_seq [
     say (''KSYM_SYMBOL_LEN    :'' @ dec (int (m_ksym_symbol_len api))),
     sprint_lines api (m_return_address api),
     say [],
     \<lambda>k. found (m_find_module api ''test_module'' k) Inr (\<lambda>fmodule. run_seq [
       say (''fmodule->name:'' @ mod_name (mods k fmodule)),
       sprint_lines api (mod_core_base (mods k fmodule))]) k,
     say [],
     sprint_lines api (a_fun api + 5),
     say_refs_this api])"

definition sprint_symbol_exit :: "mkern stmt" where
  "sprint_symbol_exit = say ''<0>module[sprint_symbol_exit] exit ok!''"

definition print_symbol :: "mod_api \<Rightarrow> string \<Rightarrow> 64 word \<Rightarrow> mkern stmt" where
  \<comment> \<open>\<open>__print_symbol\<close> with a format that ends in \<open>%s\<close>: the text of \<open>sprint_symbol\<close> in it\<close>
  "print_symbol api fmt address = put_log [printk (fmt @ m_sprint_symbol api address)]"

definition print_symbol_init :: "mod_api \<Rightarrow> mkern \<Rightarrow> fault + (int \<times> mkern)" where
  "print_symbol_init api = finish (run_seq [
     print_symbol api (''it'' @ [CHR 0x27] @ ''s the first part,'' @ [NL, SP]) (m_return_address api),
     put_log [printk [NL, NL]],
     \<lambda>k. found (m_find_module api ''psmouse'' k) Inr (\<lambda>fmodule. run_seq [
       say (''fmodule->name:'' @ mod_name (mods k fmodule)),
       print_symbol api (''it'' @ [CHR 0x27] @ ''s the second part, '' @ [NL, SP]) (mod_core_base (mods k fmodule))]) k,
     put_log [printk [NL, NL]],
     print_symbol api (''it'' @ [CHR 0x27] @ ''s the third part,'' @ [NL, SP]) (a_fun api + 5),
     put_log [printk [NL, NL]]])"

definition print_symbol_exit :: "mkern stmt" where
  "print_symbol_exit = say ''module[__print_symbol_exit] exit ok!''"

end
