(* ===== verification/Module_Refs.thy ===== *)
theory Module_Refs
  imports Module_Probes Probe_Family
begin

text \<open>
  What the module probes do to the reference counts of modules. \<open>mod_api_ok\<close> says what the loader
  documents, for the table of the symbols it gives out, with their owners: taking a symbol takes a
  reference to its owner, putting one that is not exported is a kernel panic. The count that
  \<open>module_refcount\<close> gives is one less than the one the loader keeps, which starts at 1: putting a
  reference too many takes it from 0 to -1, no further, and from a module at -1 nothing can be taken.
\<close>

section \<open>The loader\<close>

type_synonym symtab = "string \<Rightarrow> (64 word \<times> nat option) option"

definition add_ref :: "nat \<Rightarrow> int \<Rightarrow> mkern \<Rightarrow> mkern" where
  "add_ref x i k = k\<lparr>mods := (mods k)(x := (mods k x)\<lparr>mod_refs := mod_refs (mods k x) + i\<rparr>)\<rparr>"

definition put_ref :: "nat \<Rightarrow> mkern \<Rightarrow> mkern" where
  \<comment> \<open>\<open>atomic_dec_if_positive\<close> on the count of the loader\<close>
  "put_ref x k = (if 0 \<le> mod_refs (mods k x) then add_ref x (- 1) k else k)"

definition take_symbol :: "symtab \<Rightarrow> string \<Rightarrow> mkern \<Rightarrow> 64 word \<times> mkern" where
  \<comment> \<open>\<open>__symbol_get\<close>\<close>
  "take_symbol exports n k =
     (case exports n of None \<Rightarrow> (0, k)
      | Some (a, None) \<Rightarrow> (a, k)
      | Some (a, Some x) \<Rightarrow> if 0 \<le> mod_refs (mods k x) then (a, add_ref x 1 k) else (0, k))"

definition give_symbol :: "symtab \<Rightarrow> string \<Rightarrow> mkern stmt" where
  \<comment> \<open>\<open>__symbol_put\<close>\<close>
  "give_symbol exports n k =
     (case exports n of None \<Rightarrow> Inl Panic | Some (a, None) \<Rightarrow> Inr k | Some (a, Some x) \<Rightarrow> Inr (put_ref x k))"

definition mod_api_ok :: "symtab \<Rightarrow> mod_api \<Rightarrow> bool" where
  "mod_api_ok exports api \<longleftrightarrow>
     (\<forall>x k. m_module_put api x k = put_ref x k) \<and>
     (\<forall>n a owner. exports n = Some (a, owner) \<longrightarrow> a \<noteq> 0) \<and>
     (\<forall>n. m_symbol_get api n = take_symbol exports n) \<and>
     (\<forall>n. m_symbol_put api n = give_symbol exports n)"

definition owner_is :: "symtab \<Rightarrow> nat \<Rightarrow> string \<Rightarrow> bool" where
  "owner_is exports x n \<longleftrightarrow> (\<exists>a. exports n = Some (a, Some x))"

section \<open>The modules as one family\<close>

datatype mprobe = Find_module | Module_refcount | Module_put | Try_module_get | Symbol_get | Symbol_put
  | Symbol_put_addr | Find_symbol "nat option" bool | Module_address | Eg_module_address | Module_text_address
  | Module_is_live | Sprint_symbol | Print_symbol

fun mprobe_init :: "mod_api \<Rightarrow> mprobe \<Rightarrow> mkern \<Rightarrow> fault + (int \<times> mkern)" where
  "mprobe_init api Find_module = find_module_init api"
| "mprobe_init api Module_refcount = module_refcount_init api"
| "mprobe_init api Module_put = module_put_init api"
| "mprobe_init api Try_module_get = try_module_get_init api"
| "mprobe_init api Symbol_get = symbol_get_init api"
| "mprobe_init api Symbol_put = symbol_put_init api"
| "mprobe_init api Symbol_put_addr = symbol_put_addr_init api"
| "mprobe_init api (Find_symbol owner0 crc0) = find_symbol_init api owner0 crc0"
| "mprobe_init api Module_address = module_address_init api"
| "mprobe_init api Eg_module_address = eg_module_address_init api"
| "mprobe_init api Module_text_address = module_text_address_init api"
| "mprobe_init api Module_is_live = module_is_live_init api"
| "mprobe_init api Sprint_symbol = sprint_symbol_init api"
| "mprobe_init api Print_symbol = print_symbol_init api"

fun mprobe_exit :: "mod_api \<Rightarrow> mprobe \<Rightarrow> mkern stmt" where
  "mprobe_exit api Find_module = find_module_exit"
| "mprobe_exit api Module_refcount = module_refcount_exit"
| "mprobe_exit api Module_put = module_put_exit"
| "mprobe_exit api Try_module_get = try_module_get_exit"
| "mprobe_exit api Symbol_get = symbol_get_exit"
| "mprobe_exit api Symbol_put = symbol_put_exit"
| "mprobe_exit api Symbol_put_addr = symbol_put_addr_exit"
| "mprobe_exit api (Find_symbol owner0 crc0) = find_symbol_exit"
| "mprobe_exit api Module_address = module_address_exit"
| "mprobe_exit api Eg_module_address = eg_module_address_exit"
| "mprobe_exit api Module_text_address = module_text_address_exit"
| "mprobe_exit api Module_is_live = module_is_live_exit api"
| "mprobe_exit api Sprint_symbol = sprint_symbol_exit"
| "mprobe_exit api Print_symbol = print_symbol_exit"

definition symbol_names :: "string list" where
  "symbol_names = [''symbol_A'', ''symbol_0'', ''xor'', ''DbgPrintMsg'', ''cpu_info'']"

fun mod_delta :: "symtab \<Rightarrow> mod_api \<Rightarrow> mkern \<Rightarrow> mprobe \<Rightarrow> nat \<Rightarrow> int" where
  "mod_delta exports api k Module_put x =
     (if m_find_module api ''test_module'' k = Some x \<and> 0 \<le> mod_refs (mods k x) then - 1 else 0)"
| "mod_delta exports api k Symbol_get x =
     (if 0 \<le> mod_refs (mods k x) then int (length (filter (owner_is exports x) symbol_names)) else 0)"
| "mod_delta exports api k Symbol_put x =
     (if m_find_module api ''parport'' k \<noteq> None \<and> owner_is exports x ''parport'' \<and> 0 \<le> mod_refs (mods k x) then - 1 else 0)"
| "mod_delta exports api k Symbol_put_addr x =
     (if owner_is exports x ''symbol_A'' \<and> 0 \<le> mod_refs (mods k x) then 1 else 0)"
| "mod_delta exports api k _ x = 0"

fun mprobe_fault :: "symtab \<Rightarrow> mod_api \<Rightarrow> mkern \<Rightarrow> mprobe \<Rightarrow> fault option" where
  "mprobe_fault exports api k Symbol_put =
     (if m_find_module api ''parport'' k \<noteq> None \<and> exports ''parport'' = None then Some Panic else None)"
| "mprobe_fault exports api k (Find_symbol owner0 crc0) =
     (if crc0 \<or> m_find_symbol api ''perf_pmu_register'' k = None \<and> owner0 \<noteq> None then Some Uninitialised else None)"
| "mprobe_fault exports api k _ = None"

section \<open>Statements and counts\<close>

text \<open>\<open>shifts d c k\<close>: from \<open>k\<close>, \<open>c\<close> ends without a fault and changes the count of each module \<open>x\<close> by \<open>d x\<close>.\<close>

definition shifts :: "(nat \<Rightarrow> int) \<Rightarrow> mkern stmt \<Rightarrow> mkern \<Rightarrow> bool" where
  "shifts d c k \<longleftrightarrow> (\<exists>k'. c k = Inr k' \<and> (\<forall>x. mod_refs (mods k' x) = mod_refs (mods k x) + d x))"

definition quiet :: "mkern stmt \<Rightarrow> bool" where
  \<comment> \<open>it never faults and changes no module\<close>
  "quiet c \<longleftrightarrow> (\<forall>k. \<exists>k'. c k = Inr k' \<and> mods k' = mods k)"

named_theorems quiet_intros "statements that change no module"

lemma quiet_put_log [quiet_intros]: "quiet (put_log l)"
  by (simp add: quiet_def put_log_def)

lemma quiet_say [quiet_intros]: "quiet (say s)"
  by (simp add: say_def quiet_put_log)

lemma quiet_say_val [quiet_intros]: "quiet (say_d s (val v))"
  using quiet_say by (simp add: quiet_def say_d_def)

lemma quiet_say_refs [quiet_intros]: "quiet (say_d s (refs_of x))"
  using quiet_say by (simp add: quiet_def say_d_def refs_of_def)

lemma quiet_say_this [quiet_intros]: "quiet (say_refs_this api)"
  by (simp add: say_refs_this_def quiet_say_refs)

lemma quiet_Inr [quiet_intros]: "quiet Inr"
  by (simp add: quiet_def)

lemma quiet_found [quiet_intros]: "quiet no \<Longrightarrow> (\<And>x. quiet (yes x)) \<Longrightarrow> quiet (found q no yes)"
  by (cases q) simp_all

lemma quiet_preempt [quiet_intros]: "quiet preempt_disable" "quiet preempt_enable"
  by (simp_all add: quiet_def preempt_disable_def preempt_enable_def)

lemma quiet_run_seq [quiet_intros]:
  "quiet (run_seq [])" "quiet c \<Longrightarrow> quiet (run_seq cs) \<Longrightarrow> quiet (run_seq (c # cs))"
  unfolding quiet_def by (simp, metis bindF_simps(2) run_seq.simps(2))

lemma quiet_seq: "(\<And>c. c \<in> set cs \<Longrightarrow> quiet c) \<Longrightarrow> quiet (run_seq cs)"
  by (induction cs) (auto intro: quiet_run_seq)

lemma quiet_dump [quiet_intros]: "quiet (dump_module api x)"
  using quiet_put_log by (simp add: quiet_def dump_module_def DbgPrintMsg_eq)

lemma quiet_shifts: "quiet c \<Longrightarrow> shifts (\<lambda>_. 0) c k"
  unfolding quiet_def shifts_def by fastforce

lemma shifts_Cons_quiet:
  assumes "quiet c" "\<And>k'. mods k' = mods k \<Longrightarrow> shifts d (run_seq cs) k'"
  shows "shifts d (run_seq (c # cs)) k"
proof -
  obtain k' where "c k = Inr k'" "mods k' = mods k" using assms(1) unfolding quiet_def by blast
  with assms(2) [of k'] show ?thesis by (simp add: shifts_def)
qed

lemma shifts_Cons:
  assumes "shifts d1 c k" "\<And>k'. shifts d2 (run_seq cs) k'"
  shows "shifts (\<lambda>x. d1 x + d2 x) (run_seq (c # cs)) k"
proof -
  obtain k1 where k1: "c k = Inr k1" "\<forall>x. mod_refs (mods k1 x) = mod_refs (mods k x) + d1 x"
    using assms(1) unfolding shifts_def by blast
  from assms(2) [of k1] show ?thesis by (auto simp: shifts_def k1)
qed

lemma shifts_quiet_tail:
  assumes "shifts d c k" "\<And>b. b \<in> set cs \<Longrightarrow> quiet b"
  shows "shifts d (run_seq (c # cs)) k"
  using shifts_Cons [OF assms(1) quiet_shifts [OF quiet_seq [OF assms(2)]]] by simp

lemma shifts_cong: "shifts d c k \<Longrightarrow> (\<And>x. d' x = d x) \<Longrightarrow> shifts d' c k"
  by (simp add: shifts_def)

lemma finish_shifts:
  "shifts d c k \<Longrightarrow> \<exists>k'. finish c k = Inr (0, k') \<and> (\<forall>x. mod_refs (mods k' x) = mod_refs (mods k x) + d x)"
  by (auto simp: shifts_def finish_def)

lemma refs_add_ref: "mod_refs (mods (add_ref y i k) x) = mod_refs (mods k x) + (if x = y then i else 0)"
  by (simp add: add_ref_def)

lemma shifts_put_ref:
  "shifts (\<lambda>x. if x = y \<and> 0 \<le> mod_refs (mods k x) then - 1 else 0) (\<lambda>k. Inr (put_ref y k)) k"
  by (simp add: shifts_def put_ref_def refs_add_ref)

abbreviation taken :: "symtab \<Rightarrow> mkern \<Rightarrow> string \<Rightarrow> nat \<Rightarrow> int" where
  "taken exports k n x \<equiv> (if owner_is exports x n \<and> 0 \<le> mod_refs (mods k x) then 1 else 0)"

lemma take_symbol_refs:
  assumes "take_symbol exports n k = (a, k')"
  shows "mod_refs (mods k' x) = mod_refs (mods k x) + taken exports k n x"
  using assms unfolding take_symbol_def owner_is_def
  by (cases "exports n") (auto simp: refs_add_ref split: option.splits if_splits)

lemma shifts_symbol_get:
  assumes "mod_api_ok exports api" "\<And>a. quiet (f a)"
  shows "shifts (taken exports k n) (\<lambda>k. case m_symbol_get api n k of (a, k') \<Rightarrow> f a k') k"
proof -
  have eq: "m_symbol_get api n = take_symbol exports n" using assms(1) by (simp add: mod_api_ok_def)
  obtain a k' where g: "take_symbol exports n k = (a, k')" by (cases "take_symbol exports n k")
  obtain k'' where "f a k' = Inr k''" "mods k'' = mods k'" using assms(2) unfolding quiet_def by blast
  then show ?thesis using take_symbol_refs [OF g] by (simp add: shifts_def eq g)
qed

lemma quiet_if [quiet_intros]: "quiet a \<Longrightarrow> quiet b \<Longrightarrow> quiet (if c then a else b)"
  by simp

lemma symbol_get_report_shifts:
  assumes "mod_api_ok exports api"
  shows "shifts (taken exports k n) (symbol_get_report api n) k"
proof -
  have "symbol_get_report api n = (\<lambda>k. case m_symbol_get api n k of (a, k') \<Rightarrow>
      (if a \<noteq> 0 then say (''the address of '' @ n @ '' is :'' @ lx a)
       else say (n @ '' isn'' @ [CHR 0x27] @ ''t found'')) k')"
    by (simp add: symbol_get_report_def fun_eq_iff split: prod.splits)
  moreover have "quiet (if a \<noteq> (0 :: 64 word) then say (''the address of '' @ n @ '' is :'' @ lx a)
      else say (n @ '' isn'' @ [CHR 0x27] @ ''t found''))" for a
    by (intro quiet_if quiet_say)
  ultimately show ?thesis using shifts_symbol_get [OF assms] by presburger
qed

lemma symbol_gets_shifts:
  assumes "mod_api_ok exports api"
  shows "shifts (\<lambda>x. if 0 \<le> mod_refs (mods k x) then int (length (filter (owner_is exports x) ns)) else 0)
    (run_seq (map (symbol_get_report api) ns)) k"
proof (induction ns arbitrary: k)
  case Nil
  then show ?case by (simp add: shifts_def)
next
  case (Cons n ns)
  obtain k1 where k1: "symbol_get_report api n k = Inr k1"
      "\<forall>x. mod_refs (mods k1 x) = mod_refs (mods k x) + taken exports k n x"
    using symbol_get_report_shifts [OF assms, of n k] unfolding shifts_def by blast
  then have "0 \<le> mod_refs (mods k1 x) \<longleftrightarrow> 0 \<le> mod_refs (mods k x)" for x by simp
  with Cons.IH [of k1] k1 show ?case by (auto simp: shifts_def)
qed

section \<open>The modules\<close>

lemma quietI: "(\<And>k. \<exists>c'. quiet c' \<and> c k = c' k) \<Longrightarrow> quiet c"
  unfolding quiet_def by metis

lemma quiet_found_at [quiet_intros]:
  "quiet no \<Longrightarrow> (\<And>k x. quiet (yes k x)) \<Longrightarrow> quiet (\<lambda>k. found (q k) no (yes k) k)"
  by (rule quietI) (metis quiet_found)

lemma quiet_say_at [quiet_intros]: "quiet (\<lambda>k. say (s k) k)"
  by (rule quietI) (blast intro: quiet_say)

lemma quiet_find_module_report [quiet_intros]: "quiet (find_module_report api name)"
  unfolding find_module_report_def [abs_def] by (intro quiet_intros)

lemma quiet_address_report [quiet_intros]: "quiet (address_report api q)"
  unfolding address_report_def [abs_def] by (rule quiet_found_at) (intro quiet_intros)+

lemma quiet_sprint_lines [quiet_intros]: "quiet (sprint_lines api a)" "quiet (print_symbol api fmt a)"
  unfolding sprint_lines_def print_symbol_def by (intro quiet_intros)+

lemma quiet_no_reports:
  "quiet (run_seq [find_module_report api a, find_module_report api b])"
  "quiet (run_seq [preempt_disable, preempt_enable, address_report api q])"
  by (intro quiet_intros)+

text \<open>The result of a module's init: 0, and the counts moved by \<open>d\<close>.\<close>

definition ends :: "(nat \<Rightarrow> int) \<Rightarrow> mkern \<Rightarrow> fault + (int \<times> mkern) \<Rightarrow> bool" where
  "ends d k r \<longleftrightarrow> (\<exists>k'. r = Inr (0, k') \<and> (\<forall>x. mod_refs (mods k' x) = mod_refs (mods k x) + d x))"

lemma ends_finish: "shifts d c k \<Longrightarrow> ends d k (finish c k)"
  unfolding ends_def by (rule finish_shifts)

lemma ends_quiet: "quiet c \<Longrightarrow> ends (\<lambda>_. 0) k (finish c k)"
  by (rule ends_finish [OF quiet_shifts])

lemma quiet_seq_at: "(\<And>k. quiet (run_seq (cs k))) \<Longrightarrow> quiet (\<lambda>k. run_seq (cs k) k)"
  by (rule quietI) blast

lemma quiet_text_address_report [quiet_intros]: "quiet (text_address_report api q)"
  unfolding text_address_report_def [abs_def] by (rule quiet_found_at) (intro quiet_intros)+

lemma shifts_at: "c k = c' k \<Longrightarrow> shifts d c' k \<Longrightarrow> shifts d c k"
  by (simp add: shifts_def)

lemma quiet_probes:
  "ends (\<lambda>_. 0) k (find_module_init api k)" "ends (\<lambda>_. 0) k (module_refcount_init api k)"
  "ends (\<lambda>_. 0) k (eg_module_address_init api k)" "ends (\<lambda>_. 0) k (module_is_live_init api k)"
  "ends (\<lambda>_. 0) k (sprint_symbol_init api k)" "ends (\<lambda>_. 0) k (print_symbol_init api k)"
  unfolding find_module_init_def module_refcount_init_def eg_module_address_init_def module_is_live_init_def
    sprint_symbol_init_def print_symbol_init_def
  by (rule ends_quiet, intro quiet_intros)+

lemma try_module_get_ends: "ends (\<lambda>_. 0) k (try_module_get_init api k)"
  unfolding try_module_get_init_def by (rule ends_quiet) (simp add: quiet_intros)

lemma address_ends:
  "ends (\<lambda>_. 0) k (module_address_init api k)" "ends (\<lambda>_. 0) k (module_text_address_init api k)"
  unfolding module_address_init_def module_text_address_init_def
  by (rule ends_quiet, rule quiet_run_seq, rule quiet_preempt, rule quiet_run_seq, rule quiet_seq_at, (intro quiet_intros)+)+

lemma put_ends:
  \<comment> \<open>a put between statements that only log\<close>
  assumes "quiet a" "quiet b" "quiet c" "quiet d"
  shows "shifts (\<lambda>x. if x = y \<and> 0 \<le> mod_refs (mods k x) then - 1 else 0)
    (run_seq [a, b, \<lambda>k. Inr (put_ref y k), c, d]) k"
proof (rule shifts_Cons_quiet [OF assms(1)], rule shifts_Cons_quiet [OF assms(2)])
  fix k1 k2 :: mkern assume "mods k1 = mods k" "mods k2 = mods k1"
  then show "shifts (\<lambda>x. if x = y \<and> 0 \<le> mod_refs (mods k x) then - 1 else 0) (run_seq [\<lambda>k. Inr (put_ref y k), c, d]) k2"
    using shifts_quiet_tail [OF shifts_put_ref, of "[c, d]" y k2] assms(3,4) by auto
qed

lemma module_put_ends:
  assumes "mod_api_ok exports api"
  shows "ends (mod_delta exports api k Module_put) k (module_put_init api k)"
proof (cases "m_find_module api ''test_module'' k")
  case None
  then show ?thesis unfolding module_put_init_def
    by (intro ends_finish shifts_cong [OF shifts_at [OF _ quiet_shifts [OF quiet_say]]]) auto
next
  case (Some y)
  have put: "m_module_put api y = put_ref y" using assms by (simp add: mod_api_ok_def fun_eq_iff)
  show ?thesis unfolding module_put_init_def using put Some
    by (intro ends_finish shifts_cong [OF shifts_at [OF _ put_ends]]) (auto intro: quiet_intros)
qed

lemma symbol_get_ends:
  assumes "mod_api_ok exports api"
  shows "ends (mod_delta exports api k Symbol_get) k (symbol_get_init api k)"
proof -
  have "shifts (mod_delta exports api k Symbol_get) (run_seq (map (symbol_get_report api) symbol_names)) k"
    by (rule shifts_cong [OF symbol_gets_shifts [OF assms]]) simp
  from ends_finish [OF this] show ?thesis by (simp only: symbol_get_init_def symbol_names_def list.map)
qed

lemma quiet_put_addr_report [quiet_intros]: "quiet (put_addr_report api addr)"
  unfolding put_addr_report_def by (simp add: quiet_intros)

lemma symbol_put_addr_ends:
  assumes "mod_api_ok exports api"
  shows "ends (mod_delta exports api k Symbol_put_addr) k (symbol_put_addr_init api k)"
proof -
  let ?f = "\<lambda>addr. if addr \<noteq> 0 then put_addr_report api addr else say (''symbol_A isn'' @ [CHR 0x27] @ ''t found'')"
  have f: "quiet (?f addr)" for addr by (intro quiet_intros)
  have "shifts (taken exports k ''symbol_A'')
      (run_seq [\<lambda>k. case m_symbol_get api ''symbol_A'' k of (a, k') \<Rightarrow> ?f a k', say_refs_this api]) k"
    by (rule shifts_quiet_tail [OF shifts_symbol_get [OF assms f]]) (simp add: quiet_intros)
  then have "ends (taken exports k ''symbol_A'') k (symbol_put_addr_init api k)"
    unfolding symbol_put_addr_init_def by (rule ends_finish)
  then show ?thesis by (simp add: ends_def)
qed

lemma symbol_put_ends:
  assumes "mod_api_ok exports api" "m_find_module api ''parport'' k = None \<or> exports ''parport'' \<noteq> None"
  shows "ends (mod_delta exports api k Symbol_put) k (symbol_put_init api k)"
proof (cases "m_find_module api ''parport'' k")
  case None
  then show ?thesis unfolding symbol_put_init_def
    by (intro ends_finish shifts_cong [OF shifts_at [OF _ quiet_shifts [OF quiet_say]]]) auto
next
  case (Some y)
  then obtain a owner where e: "exports ''parport'' = Some (a, owner)" using assms(2) by auto
  show ?thesis
  proof (cases owner)
    case None
    then have put: "m_symbol_put api ''parport'' = Inr"
      using assms(1) e by (simp add: mod_api_ok_def give_symbol_def fun_eq_iff)
    show ?thesis unfolding symbol_put_init_def using Some e None
      by (intro ends_finish shifts_cong [OF shifts_at [OF _ quiet_shifts]])
         (auto simp: put owner_is_def intro!: quiet_intros simp del: run_seq.simps)
  next
    case (Some z)
    then have put: "m_symbol_put api ''parport'' = (\<lambda>k. Inr (put_ref z k))"
      using assms(1) e by (simp add: mod_api_ok_def give_symbol_def fun_eq_iff)
    show ?thesis unfolding symbol_put_init_def using \<open>m_find_module api ''parport'' k = Some y\<close> e Some
      by (intro ends_finish shifts_cong [OF shifts_at [OF _ put_ends]]) (auto simp: put owner_is_def intro: quiet_intros)
  qed
qed

lemma symbol_put_panics:
  assumes "mod_api_ok exports api" "m_find_module api ''parport'' k \<noteq> None" "exports ''parport'' = None"
  shows "symbol_put_init api k = Inl Panic"
  using assms by (auto simp: symbol_put_init_def finish_def say_def say_d_def put_log_def refs_of_def mod_api_ok_def give_symbol_def)

lemma find_symbol_ends:
  "mprobe_fault exports api k (Find_symbol owner0 crc0) = None \<Longrightarrow> ends (\<lambda>_. 0) k (find_symbol_init api owner0 crc0 k)"
  "mprobe_fault exports api k (Find_symbol owner0 crc0) = Some f \<Longrightarrow> find_symbol_init api owner0 crc0 k = Inl f"
  by (auto simp: find_symbol_init_def finish_def ends_def say_def put_log_def split: option.splits if_splits)

lemma mprobe_runs:
  assumes "mod_api_ok exports api" "mprobe_fault exports api k x = None"
  shows "ends (mod_delta exports api k x) k (mprobe_init api x k)"
proof (cases x)
  case (Find_symbol owner0 crc0)
  then show ?thesis using find_symbol_ends(1) [of exports api k owner0 crc0] assms(2) by (simp add: ends_def)
next
  case Symbol_put
  then show ?thesis using symbol_put_ends [OF assms(1), of k] assms(2) by (auto split: if_splits)
next
  case Symbol_get
  then show ?thesis using symbol_get_ends [OF assms(1), of k] by simp
next
  case Symbol_put_addr
  then show ?thesis using symbol_put_addr_ends [OF assms(1), of k] by simp
next
  case Module_put
  then show ?thesis using module_put_ends [OF assms(1), of k] by simp
qed (use quiet_probes try_module_get_ends address_ends in \<open>simp_all add: ends_def\<close>)

section \<open>Sequences of modules\<close>

lemma mprobe_exit_quiet: "quiet (mprobe_exit api x)"
  by (cases x) (simp_all add: find_module_exit_def module_refcount_exit_def module_put_exit_def try_module_get_exit_def
    symbol_get_exit_def symbol_put_exit_def symbol_put_addr_exit_def find_symbol_exit_def module_address_exit_def
    eg_module_address_exit_def module_text_address_exit_def module_is_live_exit_def sprint_symbol_exit_def
    print_symbol_exit_def quiet_intros)

fun takes_only :: "mprobe \<Rightarrow> bool" where
  \<comment> \<open>the modules that give no reference back and read nothing uninitialised\<close>
  "takes_only Module_put = False"
| "takes_only Symbol_put = False"
| "takes_only (Find_symbol _ _) = False"
| "takes_only _ = True"

fun mod_takes :: "symtab \<Rightarrow> mprobe \<Rightarrow> nat \<Rightarrow> int" where
  "mod_takes exports Symbol_get x = int (length (filter (owner_is exports x) symbol_names))"
| "mod_takes exports Symbol_put_addr x = (if owner_is exports x ''symbol_A'' then 1 else 0)"
| "mod_takes exports _ x = 0"

text \<open>No owner of a symbol has had a reference too many taken away.\<close>

definition owners_ok :: "symtab \<Rightarrow> mkern \<Rightarrow> bool" where
  "owners_ok exports k \<longleftrightarrow> (\<forall>x n. owner_is exports x n \<longrightarrow> 0 \<le> mod_refs (mods k x))"

lemma takes_only_moves:
  assumes "takes_only x" "owners_ok exports k"
  shows "mprobe_fault exports api k x = None" "mod_delta exports api k x y = mod_takes exports x y"
proof -
  show "mprobe_fault exports api k x = None" using assms(1) by (cases x) simp_all
  have "filter (owner_is exports y) ns = []" if "\<not> 0 \<le> mod_refs (mods k y)" for ns
    using assms(2) that by (auto simp: owners_ok_def filter_empty_conv)
  then show "mod_delta exports api k x y = mod_takes exports x y"
    using assms by (cases x) (auto simp: owners_ok_def)
qed

lemma mod_takes_nonneg: "0 \<le> mod_takes exports x y"
  by (cases x) simp_all

interpretation module_probes: probe_family "mprobe_init api" "mprobe_exit api" takes_only
    "\<lambda>k. mod_api_ok exports api \<and> owners_ok exports k" "\<lambda>y k. mod_refs (mods k y)" "mod_takes exports" for api exports
proof
  fix x k assume x: "takes_only x" and ok: "mod_api_ok exports api \<and> owners_ok exports k"
  have "\<exists>k'. mprobe_init api x k = Inr (0, k') \<and> (\<forall>y. mod_refs (mods k' y) = mod_refs (mods k y) + mod_takes exports x y)"
    using mprobe_runs [OF conjunct1 [OF ok] takes_only_moves(1) [OF x conjunct2 [OF ok]]]
    by (simp add: ends_def takes_only_moves(2) [OF x conjunct2 [OF ok]])
  then show "\<exists>k'. mprobe_init api x k = Inr (0, k') \<and> (mod_api_ok exports api \<and> owners_ok exports k') \<and>
      (\<forall>y. mod_refs (mods k' y) = mod_refs (mods k y) + mod_takes exports x y)"
    using ok mod_takes_nonneg [of exports x] by (fastforce simp: owners_ok_def)
  show "\<exists>k'. mprobe_exit api x k = Inr k' \<and> (mod_api_ok exports api \<and> owners_ok exports k') \<and>
      (\<forall>y. mod_refs (mods k' y) = mod_refs (mods k y))"
    using mprobe_exit_quiet [of api x] ok unfolding quiet_def owners_ok_def by metis
qed

text \<open>
  Loading and unloading modules that only take pins the owners of the symbols: nothing in such a
  sequence gives a reference back.
\<close>

lemma owners_pinned:
  assumes "mod_api_ok exports api" "owners_ok exports k" "\<forall>x \<in> set xs. takes_only x"
  shows "\<exists>k'. run_family (mprobe_init api) (mprobe_exit api) xs k = Inr k' \<and>
    (\<forall>y. mod_refs (mods k' y) = mod_refs (mods k y) + (\<Sum>x\<leftarrow>xs. mod_takes exports x y))"
  using module_probes.family_moves [OF assms(3) conjI [OF assms(1,2)]] by blast

section \<open>The symbols of this repository\<close>

text \<open>
  Of the names that the probes look up, \<open>test_module\<close> exports \<open>symbol_A\<close>. \<open>DbgPrintMsg\<close> is exported by
  \<open>common/dbgmsg.c\<close>, which is a module of its own and is also included, as a source file, by eight of
  the probes: each of them exports the symbol itself. The loader refuses a module that exports a
  name which a loaded module exports, and gives out no symbol of a module whose init has not
  returned. \<open>sym_table\<close> is the table for the modules that are loaded, with the names they export.
\<close>

type_synonym loaded = "(nat \<times> string list) list"

definition test_module_exports :: "string list" where
  "test_module_exports = [''symbol_A'', ''symbol_B'', ''symbol_3'']"

definition dbgmsg_exports :: "string list" where
  "dbgmsg_exports = [''DbgPrintMsg'']"

fun mprobe_exports :: "mprobe \<Rightarrow> string list" where
  "mprobe_exports Find_module = dbgmsg_exports"
| "mprobe_exports Symbol_get = dbgmsg_exports"
| "mprobe_exports Symbol_put = dbgmsg_exports"
| "mprobe_exports (Find_symbol owner0 crc0) = dbgmsg_exports"
| "mprobe_exports Module_address = dbgmsg_exports"
| "mprobe_exports Eg_module_address = dbgmsg_exports"
| "mprobe_exports Module_text_address = dbgmsg_exports"
| "mprobe_exports Print_symbol = dbgmsg_exports"
| "mprobe_exports _ = []"

definition sym_table :: "loaded \<Rightarrow> (string \<Rightarrow> 64 word) \<Rightarrow> symtab" where
  "sym_table L addr n = map_option (\<lambda>m. (addr n, Some (fst m))) (find (\<lambda>m. n \<in> set (snd m)) L)"

definition load_refused :: "loaded \<Rightarrow> mprobe \<Rightarrow> bool" where
  "load_refused L x \<longleftrightarrow> (\<exists>n \<in> set (mprobe_exports x). \<exists>m \<in> set L. n \<in> set (snd m))"

abbreviation ENOEXEC :: int where "ENOEXEC \<equiv> 8"

definition mprobe_load :: "loaded \<Rightarrow> mod_api \<Rightarrow> mprobe \<Rightarrow> mkern \<Rightarrow> fault + (int \<times> mkern)" where
  \<comment> \<open>loading a probe: its init function, unless the loader refuses it\<close>
  "mprobe_load L api x k = (if load_refused L x then Inr (- ENOEXEC, k) else mprobe_init api x k)"

lemma run_family_loads:
  "run_family (mprobe_load L api) (mprobe_exit api) xs k =
   run_family (mprobe_init api) (mprobe_exit api) (filter (\<lambda>x. \<not> load_refused L x) xs) k"
proof (induction xs arbitrary: k)
  case (Cons x xs)
  show ?case
  proof (cases "load_refused L x")
    case False
    then have "mprobe_load L api x k = mprobe_init api x k" by (simp add: mprobe_load_def)
    with False show ?thesis
      by (simp add: Cons.IH fun_eq_iff bindF_def split: sum.split prod.split)
  next
    case True
    then have "mprobe_load L api x k = Inr (- ENOEXEC, k)" by (simp add: mprobe_load_def)
    with True show ?thesis by (simp add: Cons.IH)
  qed
qed simp

definition repo_loaded :: "nat \<Rightarrow> nat \<Rightarrow> bool \<Rightarrow> loaded" where
  \<comment> \<open>\<open>test_module\<close> is module \<open>t\<close>; \<open>dbgmsg\<close> is module \<open>d\<close>, if it is loaded\<close>
  "repo_loaded t d dbg = (t, test_module_exports) # (if dbg then [(d, dbgmsg_exports)] else [])"

lemmas repo_defs = repo_loaded_def test_module_exports_def dbgmsg_exports_def

lemma repo_refused: "load_refused (repo_loaded t d dbg) x \<longleftrightarrow> dbg \<and> mprobe_exports x \<noteq> []"
  by (cases x) (auto simp: load_refused_def repo_defs)

lemma repo_owner:
  "owner_is (sym_table (repo_loaded t d dbg) addr) y n \<longleftrightarrow>
    n \<in> set test_module_exports \<and> y = t \<or> n = ''DbgPrintMsg'' \<and> dbg \<and> y = d"
  by (auto simp: owner_is_def sym_table_def repo_defs)

lemma repo_takes:
  "mod_takes (sym_table (repo_loaded t d dbg) addr) x y =
    (if y = t \<and> (x = Symbol_get \<or> x = Symbol_put_addr) then 1 else 0) + (if dbg \<and> y = d \<and> x = Symbol_get then 1 else 0)"
  by (cases x) (auto simp: symbol_names_def repo_owner test_module_exports_def)

lemma sum_list_if_filter: "(\<Sum>x\<leftarrow>xs. if P x then 1 else 0) = int (length (filter P xs))"
  by (induction xs) auto

section \<open>Properties\<close>

text \<open>
  C21: a module that tries a loader function returns 0 and moves the reference counts only so:
  \<open>module_put\<close> takes one from \<open>test_module\<close> it never added, which brings its count to -1 when nobody
  uses it (and only at -1 takes none); \<open>__symbol_get\<close> and \<open>symbol_put_addr\<close> leave one behind for every
  symbol they are given (none of a module at -1); \<open>__symbol_put\<close> takes one from the owner of the symbol
  \<open>parport\<close>, if a module of that name is loaded and the owner's count is not -1; \<open>try_module_get\<close>
  (whose test is \<open>NULL != NULL\<close>) takes none; a panic comes exactly from \<open>__symbol_put\<close> when \<open>parport\<close> is
  loaded but no symbol of that name is exported, and \<open>find_symbol\<close> reads an uninitialised pointer
  whenever one is not NULL.
\<close>

theorem module_probe_refs:
  assumes "mod_api_ok exports api"
  shows "case mprobe_fault exports api k x of
      Some f \<Rightarrow> mprobe_init api x k = Inl f
    | None \<Rightarrow> \<exists>k'. mprobe_init api x k = Inr (0, k') \<and>
        (\<forall>y. mod_refs (mods k' y) = mod_refs (mods k y) + mod_delta exports api k x y)"
proof (cases "mprobe_fault exports api k x")
  case None
  then show ?thesis using mprobe_runs [OF assms None] by (simp add: ends_def)
next
  case (Some f)
  then consider "x = Symbol_put" "f = Panic" "m_find_module api ''parport'' k \<noteq> None" "exports ''parport'' = None"
    | owner0 crc0 where "x = Find_symbol owner0 crc0"
    by (cases x) (auto split: if_splits)
  then show ?thesis
  proof cases
    case 1
    then show ?thesis using symbol_put_panics [OF assms] Some by simp
  next
    case 2
    then show ?thesis using find_symbol_ends(2) [of exports api k] Some by simp
  qed
qed

text \<open>A kernel with \<open>test_module\<close> loaded, which exports \<open>symbol_A\<close> and is not in use.\<close>

definition demo_exports :: symtab where
  "demo_exports n = (if n = ''symbol_A'' then Some (4096, Some 1) else None)"

definition demo_mod_api :: mod_api where
  "demo_mod_api = \<lparr>this_module = 0, a_fun = 8192, m_return_address = 16,
     m_find_module = (\<lambda>n k. if n = ''test_module'' then Some 1 else if n = ''parport'' then Some 2 else None),
     m_module_put = put_ref, m_try_module_get = (\<lambda>x k. (1, add_ref x 1 k)),
     m_symbol_get = take_symbol demo_exports, m_symbol_put = give_symbol demo_exports,
     m_symbol_put_addr = (\<lambda>a k. Inr (put_ref 1 k)), m_find_symbol = (\<lambda>n k. None),
     m_module_address = (\<lambda>a k. Some 0), m_module_text_address = (\<lambda>a k. Some 0),
     m_module_bytes = (\<lambda>x k. [1, 2, 3]), m_module_is_live = (\<lambda>x k. 1),
     m_sprint_symbol = (\<lambda>a. ''f+0x5''), m_ksym_symbol_len = 512\<rparr>"

definition demo_mkern :: mkern where
  "demo_mkern = \<lparr>p_log = [], mods = (\<lambda>x. \<lparr>mod_name = ''test_module'', mod_state = 0, mod_percpu_size = 0, mod_refs = 0,
     mod_core_base = 0, mod_version = None, mod_srcversion = None\<rparr>), preempt_count = 0\<rparr>"

lemma demo_mod_api_ok: "mod_api_ok demo_exports demo_mod_api"
  by (simp add: mod_api_ok_def demo_mod_api_def demo_exports_def)

lemma module_probe_refs_witness:
  "(\<exists>k'. mprobe_init demo_mod_api Module_put demo_mkern = Inr (0, k') \<and> mod_refs (mods k' 1) = - 1) \<and>
   (\<exists>k'. mprobe_init demo_mod_api Symbol_put_addr demo_mkern = Inr (0, k') \<and> mod_refs (mods k' 1) = 1) \<and>
   (\<exists>k'. mprobe_init demo_mod_api Try_module_get demo_mkern = Inr (0, k') \<and> mod_refs (mods k' 1) = 0) \<and>
   mprobe_init demo_mod_api Symbol_put demo_mkern = Inl Panic"
proof -
  note r = module_probe_refs [OF demo_mod_api_ok, where k = demo_mkern]
  have d: "mod_delta demo_exports demo_mod_api demo_mkern Module_put 1 = - 1"
      "mod_delta demo_exports demo_mod_api demo_mkern Symbol_put_addr 1 = 1"
      "mprobe_fault demo_exports demo_mod_api demo_mkern Symbol_put = Some Panic"
    by (simp_all add: demo_mod_api_def demo_mkern_def demo_exports_def owner_is_def)
  have one: "mod_refs (mods demo_mkern 1) = 0" by (simp add: demo_mkern_def)
  have f: "mprobe_fault demo_exports demo_mod_api demo_mkern x = None" if "x = Module_put \<or> x = Symbol_put_addr \<or> x = Try_module_get" for x
    using that by auto
  show ?thesis
    using r [where x = Module_put] r [where x = Symbol_put_addr] r [where x = Try_module_get] r [where x = Symbol_put] d one
    by (auto simp del: mod_delta.simps(1-4) mprobe_init.simps simp: f)
qed


definition repo_mod_api :: mod_api where
  \<comment> \<open>\<open>demo_mod_api\<close> with the symbols of \<open>test_module\<close>, module 1\<close>
  "repo_mod_api = demo_mod_api\<lparr>
     m_symbol_get := take_symbol (sym_table (repo_loaded 1 3 False) (\<lambda>_. 4096)),
     m_symbol_put := give_symbol (sym_table (repo_loaded 1 3 False) (\<lambda>_. 4096))\<rparr>"

lemma repo_mod_api_ok: "mod_api_ok (sym_table (repo_loaded 1 3 False) (\<lambda>_. 4096)) repo_mod_api"
  by (auto simp: mod_api_ok_def repo_mod_api_def demo_mod_api_def sym_table_def)


end
