(* ===== verification/Wake_Up.thy ===== *)
theory Wake_Up
  imports Kernel_Events
begin

text \<open>
  \<open>__wake_up\<close>, \<open>__wake_up_sync\<close> and \<open>__wake_up_sync_key\<close>: the init function puts an entry of its own
  stack into a wait queue, wakes a kernel thread and sleeps with a time limit; the thread wakes the
  queue. The three files have one text but for the name of the call and one more line of log in the
  latter two. A step of the model is a group of statements of one of the two threads between which
  the other's steps matter. The wait queue is an argument: the entries that waking a queue visits.
  The name of the thread is the format \<open>"__wake_up.c%s"\<close> without an argument for \<open>%s\<close>:
  \<open>name_arg_ok\<close> says whether the word that is read for it points at a readable string. The module can
  be unloaded once init has returned, and then the thread has no code left to run.
\<close>

section \<open>State\<close>

datatype i_pc = I_Create | I_Pids | I_Queue | I_Start | I_Sleep | I_Asleep | I_Done
datatype t_pc = T_Begin | T_State | T_Wake | T_Out | T_Done

record 'q wk =
  i_pc :: i_pc
  t_pc :: t_pc
  thread_made :: bool     \<comment> \<open>\<open>result\<close> is a task, not an error pointer\<close>
  t_started :: bool       \<comment> \<open>the thread was woken and can run\<close>
  head :: "'q option"     \<comment> \<open>\<open>None\<close> before \<open>init_waitqueue_head\<close>\<close>
  old_thread :: bool      \<comment> \<open>set to the task of init; NULL before\<close>
  asleep :: bool          \<comment> \<open>the state of that task\<close>
  time_out :: int
  frame :: bool           \<comment> \<open>the stack frame of init, where \<open>data\<close> is, is there\<close>
  task_live :: bool       \<comment> \<open>the task of init has not exited\<close>
  loaded :: bool          \<comment> \<open>the module has not been unloaded\<close>
  wk_log :: "kev list"

record 'q wq_api =
  q_init :: 'q
  q_add :: "nat \<Rightarrow> 'q \<Rightarrow> 'q"
  q_entries :: "'q \<Rightarrow> nat list"

record wk_env =
  name_arg_ok :: bool   \<comment> \<open>the word read for the missing argument of the thread's name is a string\<close>
  kthread_ok :: bool
  pid_new :: int
  pid_init :: int
  tgid_init :: int
  refcount_this :: int

record variant =
  v_name :: string
  v_state_after :: bool  \<comment> \<open>whether the thread logs the state again after the call\<close>

definition TASK_RUNNING :: int where "TASK_RUNNING = 0"
definition TASK_UNINTERRUPTIBLE :: int where "TASK_UNINTERRUPTIBLE = 2"

definition wk_say :: "string list \<Rightarrow> 'q wk \<Rightarrow> 'q wk" where
  "wk_say ls s = s\<lparr>wk_log := wk_log s @ map (\<lambda>l. printk (l @ [NL])) ls\<rparr>"

section \<open>The threads\<close>

definition data_entry :: nat where "data_entry = 0"

definition init_step :: "variant \<Rightarrow> wk_env \<Rightarrow> 'q wq_api \<Rightarrow> 'q wk \<Rightarrow> (fault + 'q wk) option" where
  "init_step v env api s =
     (case i_pc s of
        I_Create \<Rightarrow>
          if \<not> name_arg_ok env then Some (Inl Uninitialised)
          else Some (Inr ((wk_say [''into '' @ v_name v @ ''_init.''] s)\<lparr>thread_made := kthread_ok env, i_pc := I_Pids\<rparr>))
      | I_Pids \<Rightarrow>
          if \<not> thread_made s then Some (Inl NullDeref)
          else Some (Inr ((wk_say [''the pid of the new thread is:'' @ dec (pid_new env),
                                   ''the current pid is:'' @ dec (pid_init env)] s)\<lparr>i_pc := I_Queue\<rparr>))
      | I_Queue \<Rightarrow> Some (Inr (s\<lparr>head := Some (q_add api data_entry (q_init api)), i_pc := I_Start\<rparr>))
      | I_Start \<Rightarrow> Some (Inr (s\<lparr>old_thread := True, t_started := True, i_pc := I_Sleep\<rparr>))
      | I_Sleep \<Rightarrow> Some (Inr (s\<lparr>asleep := True, i_pc := I_Asleep\<rparr>))
      | I_Asleep \<Rightarrow>
          if asleep s then None
          else Some (Inr ((wk_say [''the schedule timeout is:'' @ dec (time_out s), ''out '' @ v_name v @ ''_init.'',
                            ''the pid of current thread is:'' @ dec (pid_init env),
                            ''the current tgid is:'' @ dec (tgid_init env),
                            ''out '' @ v_name v @ ''_init'',
                            ''module_refcount(THIS_MODULE):'' @ dec (refcount_this env)] s)\<lparr>frame := False, i_pc := I_Done\<rparr>))
      | I_Done \<Rightarrow> None)"

definition old_state :: "'q wk \<Rightarrow> fault + int" where
  \<comment> \<open>\<open>old_thread->state\<close>\<close>
  "old_state s =
     (if \<not> old_thread s then Inl NullDeref else if \<not> task_live s then Inl UseAfterFree
      else Inr (if asleep s then TASK_UNINTERRUPTIBLE else TASK_RUNNING))"

definition wake_queue :: "'q wq_api \<Rightarrow> int \<Rightarrow> 'q wk \<Rightarrow> fault + 'q wk" where
  \<comment> \<open>\<open>__wake_up(&head, TASK_ALL, 0, ...)\<close>: read every entry and wake its task; a sleeper goes on with
    \<open>left\<close> ticks of its time limit\<close>
  "wake_queue api left s =
     (case head s of
        None \<Rightarrow> Inl Uninitialised
      | Some q \<Rightarrow>
          if q_entries api q = [] then Inr s
          else if \<not> frame s \<or> \<not> task_live s then Inl UseAfterFree
          else Inr (if asleep s then s\<lparr>asleep := False, time_out := left\<rparr> else s))"

definition thread_step :: "variant \<Rightarrow> wk_env \<Rightarrow> 'q wq_api \<Rightarrow> int \<Rightarrow> 'q wk \<Rightarrow> (fault + 'q wk) option" where
  "thread_step v env api left s =
     (if \<not> t_started s then None
      else if \<not> loaded s \<and> t_pc s \<noteq> T_Done then Some (Inl UseAfterFree)
      else case t_pc s of
        T_Begin \<Rightarrow> Some (Inr ((wk_say [''in the kernel thread function!'', ''the current pid is:'' @ dec (pid_new env)] s)
                     \<lparr>t_pc := T_State\<rparr>))
      | T_State \<Rightarrow> Some (bindF (old_state s) (\<lambda>st.
                     Inr ((wk_say [''the state of the init function is:'' @ dec st] s)\<lparr>t_pc := T_Wake\<rparr>)))
      | T_Wake \<Rightarrow> Some (bindF (wake_queue api left s) (\<lambda>s'. Inr (s'\<lparr>t_pc := T_Out\<rparr>)))
      | T_Out \<Rightarrow> Some (bindF (if v_state_after v
                     then bindF (old_state s) (\<lambda>st.
                       Inr [''the state of the init function after '' @ v_name v @ '' is:'' @ dec st])
                     else Inr []) (\<lambda>ls. Inr ((wk_say (ls @ [''out the kernel thread function'']) s)\<lparr>t_pc := T_Done\<rparr>)))
      | T_Done \<Rightarrow> None)"

definition wake_up_v :: variant where "wake_up_v = \<lparr>v_name = ''__wake_up'', v_state_after = False\<rparr>"
definition wake_up_sync_v :: variant where "wake_up_sync_v = \<lparr>v_name = ''__wake_up_sync'', v_state_after = True\<rparr>"
definition wake_up_sync_key_v :: variant where
  "wake_up_sync_key_v = \<lparr>v_name = ''__wake_up_sync_key'', v_state_after = True\<rparr>"

definition wake_up_init :: "wk_env \<Rightarrow> 'q wq_api \<Rightarrow> 'q wk \<Rightarrow> (fault + 'q wk) option" where
  "wake_up_init = init_step wake_up_v"
definition wake_up_function :: "wk_env \<Rightarrow> 'q wq_api \<Rightarrow> int \<Rightarrow> 'q wk \<Rightarrow> (fault + 'q wk) option" where
  "wake_up_function = thread_step wake_up_v"
definition wake_up_sync_init :: "wk_env \<Rightarrow> 'q wq_api \<Rightarrow> 'q wk \<Rightarrow> (fault + 'q wk) option" where
  "wake_up_sync_init = init_step wake_up_sync_v"
definition wake_up_sync_function :: "wk_env \<Rightarrow> 'q wq_api \<Rightarrow> int \<Rightarrow> 'q wk \<Rightarrow> (fault + 'q wk) option" where
  "wake_up_sync_function = thread_step wake_up_sync_v"
definition wake_up_sync_key_init :: "wk_env \<Rightarrow> 'q wq_api \<Rightarrow> 'q wk \<Rightarrow> (fault + 'q wk) option" where
  "wake_up_sync_key_init = init_step wake_up_sync_key_v"
definition wake_up_sync_key_function :: "wk_env \<Rightarrow> 'q wq_api \<Rightarrow> int \<Rightarrow> 'q wk \<Rightarrow> (fault + 'q wk) option" where
  "wake_up_sync_key_function = thread_step wake_up_sync_key_v"

definition wake_up_exit :: "kev list" where
  "wake_up_exit = [printk (''<0>module[__wake_up_exit] exit ok!'' @ [NL])]"
definition wake_up_sync_exit :: "kev list" where
  "wake_up_sync_exit = [printk (''<0>module[__wake_up_sync_exit] exit ok!'' @ [NL])]"
definition wake_up_sync_key_exit :: "kev list" where
  "wake_up_sync_key_exit = [printk (''<0>module[__wake_up_sync_key_exit] exit ok!'' @ [NL])]"

definition unload :: "variant \<Rightarrow> 'q wk \<Rightarrow> 'q wk" where
  "unload v s = (wk_say [''<0>module['' @ v_name v @ ''_exit] exit ok!''] s)\<lparr>loaded := False\<rparr>"

lemma unload_logs_exit:
  "wk_log (unload wake_up_v s) = wk_log s @ wake_up_exit"
  "wk_log (unload wake_up_sync_v s) = wk_log s @ wake_up_sync_exit"
  "wk_log (unload wake_up_sync_key_v s) = wk_log s @ wake_up_sync_key_exit"
  by (simp_all add: unload_def wk_say_def wake_up_exit_def wake_up_sync_exit_def wake_up_sync_key_exit_def
      wake_up_v_def wake_up_sync_v_def wake_up_sync_key_v_def)

definition wk_start :: "'q wk" where
  "wk_start = \<lparr>i_pc = I_Create, t_pc = T_Begin, thread_made = False, t_started = False, head = None, old_thread = False,
     asleep = False, time_out = 0, frame = True, task_live = True, loaded = True, wk_log = []\<rparr>"

section \<open>Steps\<close>

text \<open>
  A step of the init function, of the thread, the end of the time limit, and, some time after init
  returned, the exit of the task that loaded the module or the unloading of the module: its exit
  function logs a line.
\<close>

inductive wk_step :: "variant \<Rightarrow> wk_env \<Rightarrow> 'q wq_api \<Rightarrow> 'q wk \<Rightarrow> fault + 'q wk \<Rightarrow> bool"
  for v :: variant and env :: wk_env and api :: "'q wq_api" where
  wk_init: "init_step v env api s = Some r \<Longrightarrow> wk_step v env api s r"
| wk_thread: "thread_step v env api left s = Some r \<Longrightarrow> 0 < left \<Longrightarrow> left \<le> 10000 \<Longrightarrow> wk_step v env api s r"
| wk_timeout: "asleep s \<Longrightarrow> wk_step v env api s (Inr (s\<lparr>asleep := False, time_out := 0\<rparr>))"
| wk_exit: "i_pc s = I_Done \<Longrightarrow> wk_step v env api s (Inr (s\<lparr>task_live := False\<rparr>))"
| wk_unload: "i_pc s = I_Done \<Longrightarrow> loaded s \<Longrightarrow> wk_step v env api s (Inr (unload v s))"

inductive wk_reach :: "variant \<Rightarrow> wk_env \<Rightarrow> 'q wq_api \<Rightarrow> 'q wk \<Rightarrow> bool"
  for v :: variant and env :: wk_env and api :: "'q wq_api" where
  reach_start: "wk_reach v env api wk_start"
| reach_step: "wk_reach v env api s \<Longrightarrow> wk_step v env api s (Inr s') \<Longrightarrow> wk_reach v env api s'"

inductive_cases wk_stepE: "wk_step v env api s r"

section \<open>The queue, and invariants\<close>

definition wq_ok :: "'q wq_api \<Rightarrow> bool" where
  "wq_ok api \<longleftrightarrow> q_entries api (q_init api) = [] \<and>
     (\<forall>e q. set (q_entries api (q_add api e q)) = insert e (set (q_entries api q)))"

lemma queue_not_empty: "wq_ok api \<Longrightarrow> q_entries api (q_add api e q) \<noteq> []"
  unfolding wq_ok_def by (metis empty_set insert_not_empty)

definition before_start :: "i_pc \<Rightarrow> bool" where
  "before_start pc \<longleftrightarrow> pc \<in> {I_Create, I_Pids, I_Queue, I_Start}"

definition wk_inv :: "wk_env \<Rightarrow> 'q wq_api \<Rightarrow> 'q wk \<Rightarrow> bool" where
  "wk_inv env api s \<longleftrightarrow>
     (t_started s \<longleftrightarrow> \<not> before_start (i_pc s)) \<and>
     (t_started s \<longrightarrow> old_thread s \<and> head s = Some (q_add api data_entry (q_init api))) \<and>
     (i_pc s = I_Start \<longrightarrow> head s = Some (q_add api data_entry (q_init api))) \<and>
     (frame s \<longleftrightarrow> i_pc s \<noteq> I_Done) \<and> (i_pc s \<noteq> I_Done \<longrightarrow> task_live s \<and> loaded s) \<and>
     (asleep s \<longrightarrow> i_pc s = I_Asleep) \<and> (i_pc s = I_Pids \<longrightarrow> thread_made s = kthread_ok env) \<and>
     (\<not> t_started s \<longrightarrow> t_pc s = T_Begin) \<and> (i_pc s = I_Sleep \<or> before_start (i_pc s) \<longrightarrow> time_out s = 0)"

lemma wk_say_fields [simp]:
  "i_pc (wk_say ls s) = i_pc s" "t_pc (wk_say ls s) = t_pc s" "thread_made (wk_say ls s) = thread_made s"
  "t_started (wk_say ls s) = t_started s" "head (wk_say ls s) = head s" "old_thread (wk_say ls s) = old_thread s"
  "asleep (wk_say ls s) = asleep s" "time_out (wk_say ls s) = time_out s" "frame (wk_say ls s) = frame s"
  "task_live (wk_say ls s) = task_live s" "loaded (wk_say ls s) = loaded s"
  "wk_log (wk_say ls s) = wk_log s @ map (\<lambda>l. printk (l @ [NL])) ls"
  by (simp_all add: wk_say_def)

lemma init_step_inv: "wk_inv env api s \<Longrightarrow> init_step v env api s = Some (Inr s') \<Longrightarrow> wk_inv env api s'"
  by (cases "i_pc s") (auto simp: init_step_def wk_inv_def before_start_def split: if_splits)

lemma wake_queue_inv: "wk_inv env api s \<Longrightarrow> wake_queue api left s = Inr s' \<Longrightarrow> wk_inv env api s' \<and> t_started s' = t_started s"
  by (auto simp: wake_queue_def wk_inv_def before_start_def split: option.splits if_splits)

lemma wk_say_Nil: "wk_say [] s = s"
  by (simp add: wk_say_def)

text \<open>A step of the thread writes to the log, and wakes the queue or not.\<close>

lemma thread_step_shape:
  assumes "thread_step v env api left s = Some (Inr s')"
  shows "t_started s \<and> (\<exists>u ls x. s' = wk_say ls u\<lparr>t_pc := x\<rparr> \<and> (u = s \<or> wake_queue api left s = Inr u))"
proof (cases "t_pc s")
  case T_Begin
  then show ?thesis using assms by (auto simp: thread_step_def split: if_splits)
next
  case T_State
  then show ?thesis using assms by (auto simp: thread_step_def bindF_def split: if_splits sum.splits)
next
  case T_Wake
  then obtain u where "t_started s" "wake_queue api left s = Inr u" "s' = wk_say [] u\<lparr>t_pc := T_Out\<rparr>"
    using assms by (auto simp: thread_step_def bindF_def wk_say_Nil split: if_splits sum.splits)
  then show ?thesis by blast
next
  case T_Out
  then show ?thesis using assms
    by (auto simp: thread_step_def bindF_def split: if_splits sum.splits)
next
  case T_Done
  then show ?thesis using assms by (simp add: thread_step_def split: if_splits)
qed

lemma thread_step_inv:
  assumes "wk_inv env api s" "thread_step v env api left s = Some (Inr s')"
  shows "wk_inv env api s'"
proof -
  obtain u ls x where st: "t_started s" and s': "s' = wk_say ls u\<lparr>t_pc := x\<rparr>" and u: "u = s \<or> wake_queue api left s = Inr u"
    using thread_step_shape [OF assms(2)] by blast
  have "wk_inv env api u" "t_started u" using u assms(1) wake_queue_inv [OF assms(1)] st by auto
  then show ?thesis unfolding s' by (simp add: wk_inv_def)
qed

lemma wk_step_inv: "wk_step v env api s (Inr s') \<Longrightarrow> wk_inv env api s \<Longrightarrow> wk_inv env api s'"
proof (erule wk_stepE)
  assume "init_step v env api s = Some (Inr s')" "wk_inv env api s"
  then show ?thesis by (rule init_step_inv [rotated])
next
  fix left assume "thread_step v env api left s = Some (Inr s')" "wk_inv env api s"
  then show ?thesis by (rule thread_step_inv [rotated])
qed (auto simp: wk_inv_def before_start_def unload_def)

lemma wk_reach_inv: "wk_reach v env api s \<Longrightarrow> wk_inv env api s"
proof (induction rule: wk_reach.induct)
  case reach_start
  show ?case by (simp add: wk_inv_def wk_start_def before_start_def)
next
  case (reach_step s s')
  then show ?case using wk_step_inv by blast
qed

section \<open>Runs\<close>

datatype choice = C_init | C_thread int | C_timeout | C_exit | C_unload

definition wk_do :: "variant \<Rightarrow> wk_env \<Rightarrow> 'q wq_api \<Rightarrow> choice \<Rightarrow> 'q wk \<Rightarrow> (fault + 'q wk) option" where
  "wk_do v env api c s = (case c of
     C_init \<Rightarrow> init_step v env api s
   | C_thread left \<Rightarrow> if 0 < left \<and> left \<le> 10000 then thread_step v env api left s else None
   | C_timeout \<Rightarrow> if asleep s then Some (Inr (s\<lparr>asleep := False, time_out := 0\<rparr>)) else None
   | C_exit \<Rightarrow> if i_pc s = I_Done then Some (Inr (s\<lparr>task_live := False\<rparr>)) else None
   | C_unload \<Rightarrow> if i_pc s = I_Done \<and> loaded s then Some (Inr (unload v s)) else None)"

fun wk_run :: "variant \<Rightarrow> wk_env \<Rightarrow> 'q wq_api \<Rightarrow> choice list \<Rightarrow> 'q wk \<Rightarrow> 'q wk option" where
  "wk_run v env api [] s = Some s"
| "wk_run v env api (c # cs) s = (case wk_do v env api c s of Some (Inr s') \<Rightarrow> wk_run v env api cs s' | _ \<Rightarrow> None)"

lemma wk_do_step: "wk_do v env api c s = Some r \<Longrightarrow> wk_step v env api s r"
  by (cases c) (auto simp: wk_do_def intro: wk_step.intros split: if_splits)

lemma wk_run_reach: "wk_reach v env api s \<Longrightarrow> wk_run v env api cs s = Some s' \<Longrightarrow> wk_reach v env api s'"
proof (induction cs arbitrary: s)
  case (Cons c cs)
  then show ?case by (auto split: option.splits sum.splits dest!: wk_do_step intro: reach_step)
qed simp

section \<open>Properties\<close>

lemma thread_fault_simps:
  assumes "t_started s" "loaded s"
  shows "t_pc s = T_Begin \<Longrightarrow> thread_step v env api left s \<noteq> Some (Inl f)"
    "t_pc s = T_Done \<Longrightarrow> thread_step v env api left s \<noteq> Some (Inl f)"
    "t_pc s = T_State \<Longrightarrow> thread_step v env api left s = Some (Inl f) \<longleftrightarrow> old_state s = Inl f"
    "t_pc s = T_Wake \<Longrightarrow> thread_step v env api left s = Some (Inl f) \<longleftrightarrow> wake_queue api left s = Inl f"
    "t_pc s = T_Out \<Longrightarrow> thread_step v env api left s = Some (Inl f) \<longleftrightarrow> v_state_after v \<and> old_state s = Inl f"
  using assms by (auto simp: thread_step_def bindF_def split: sum.splits)

lemma unloaded_faults:
  assumes "t_started s" "\<not> loaded s"
  shows "thread_step v env api left s = Some (Inl f) \<longleftrightarrow> t_pc s \<noteq> T_Done \<and> f = UseAfterFree"
  using assms by (auto simp: thread_step_def)

definition list_wq :: "nat list wq_api" where
  "list_wq = \<lparr>q_init = [], q_add = (#), q_entries = id\<rparr>"

definition demo_wk :: wk_env where
  "demo_wk = \<lparr>name_arg_ok = True, kthread_ok = True, pid_new = 9, pid_init = 7, tgid_init = 7, refcount_this = 1\<rparr>"

lemma list_wq_ok: "wq_ok list_wq"
  by (simp add: wq_ok_def list_wq_def)

lemmas run_defs = wk_do_def init_step_def thread_step_def wk_start_def demo_wk_def list_wq_def wk_say_def
  old_state_def wake_queue_def

text \<open>The thread runs only after the time limit, or before the sleep.\<close>

lemma demo_late:
  "\<exists>s. wk_run wake_up_v demo_wk list_wq
     [C_init, C_init, C_init, C_init, C_init, C_thread 1, C_thread 1, C_timeout, C_init] wk_start = Some s \<and>
     i_pc s = I_Done \<and> t_pc s = T_Wake"
  by (simp add: run_defs)

lemma demo_early:
  "\<exists>s. wk_run wake_up_v demo_wk list_wq
     [C_init, C_init, C_init, C_init, C_thread 1, C_thread 1, C_thread 1] wk_start = Some s \<and>
     i_pc s = I_Sleep \<and> t_pc s = T_Out"
  by (simp add: run_defs)

lemma init_fault_iff:
  assumes "wk_inv env api s"
  shows "init_step v env api s = Some (Inl f) \<longleftrightarrow>
    i_pc s = I_Create \<and> \<not> name_arg_ok env \<and> f = Uninitialised \<or> i_pc s = I_Pids \<and> \<not> kthread_ok env \<and> f = NullDeref"
  using assms by (cases "i_pc s") (auto simp: init_step_def wk_inv_def)

lemma thread_fault_iff:
  assumes "wq_ok api" "wk_inv env api s"
  shows "thread_step v env api left s = Some (Inl f) \<longleftrightarrow> i_pc s = I_Done \<and> f = UseAfterFree \<and>
    (t_pc s = T_Wake \<or> \<not> loaded s \<and> t_pc s \<noteq> T_Done \<or>
     \<not> task_live s \<and> (t_pc s = T_State \<or> t_pc s = T_Out \<and> v_state_after v))"
proof (cases "t_started s \<and> loaded s")
  case True
  have old: "old_state s = Inl f \<longleftrightarrow> f = UseAfterFree \<and> i_pc s = I_Done \<and> \<not> task_live s"
    using assms(2) True by (auto simp: old_state_def wk_inv_def)
  have wake: "wake_queue api left s = Inl f \<longleftrightarrow> f = UseAfterFree \<and> i_pc s = I_Done"
    using assms(2) True queue_not_empty [OF assms(1)] by (auto simp: wake_queue_def wk_inv_def)
  show ?thesis
    using True by (cases "t_pc s") (simp_all only: thread_fault_simps [OF conjunct1 [OF True] conjunct2 [OF True]] old wake, auto)
next
  case False
  then consider "\<not> t_started s" | "t_started s" "\<not> loaded s" by blast
  then show ?thesis
  proof cases
    case 1
    then show ?thesis using assms(2) by (auto simp: thread_step_def wk_inv_def before_start_def)
  next
    case 2
    then show ?thesis using assms(2) by (auto simp: unloaded_faults wk_inv_def)
  qed
qed

text \<open>
  C19: a step of one of the two threads faults exactly then: when the word that is read for the
  missing argument of the format \<open>"__wake_up.c%s"\<close> is not a string, making the thread faults; when the
  thread could not be made, reading the pid through its error pointer faults; otherwise nothing faults
  before the init function has returned. After that, waking the queue reads the entry in the stack
  frame of init, which nothing took out of the queue; once the task has exited, so does reading its
  state; and once the module is unloaded, the thread has no code to go on with.
\<close>

theorem wake_up_fault_iff:
  assumes "wq_ok api" "wk_reach v env api s"
  shows "wk_step v env api s (Inl f) \<longleftrightarrow>
     i_pc s = I_Create \<and> \<not> name_arg_ok env \<and> f = Uninitialised \<or>
     i_pc s = I_Pids \<and> \<not> kthread_ok env \<and> f = NullDeref \<or>
     i_pc s = I_Done \<and> f = UseAfterFree \<and>
       (t_pc s = T_Wake \<or> \<not> loaded s \<and> t_pc s \<noteq> T_Done \<or>
        \<not> task_live s \<and> (t_pc s = T_State \<or> t_pc s = T_Out \<and> v_state_after v))"
proof -
  note inv = wk_reach_inv [OF assms(2)]
  note faults = init_fault_iff [OF inv, where v = v and f = f]
  note tfaults = thread_fault_iff [OF assms(1) inv, where v = v and f = f]
  show ?thesis (is "?l \<longleftrightarrow> ?r")
  proof
    assume ?l
    then show ?r
      by (rule wk_stepE) (use faults tfaults in auto)
  next
    assume ?r
    then have "init_step v env api s = Some (Inl f) \<or> thread_step v env api 1 s = Some (Inl f)"
      using faults tfaults by blast
    then show ?l by (auto intro: wk_init wk_thread [of v env api 1])
  qed
qed

lemma wake_up_fault_iff_witness:
  "\<exists>s. wk_reach wake_up_v demo_wk list_wq s \<and> wk_step wake_up_v demo_wk list_wq s (Inl UseAfterFree)"
proof -
  obtain s where s: "wk_reach wake_up_v demo_wk list_wq s" "i_pc s = I_Done" "t_pc s = T_Wake"
    using demo_late wk_run_reach [OF reach_start] by blast
  from wake_up_fault_iff [OF list_wq_ok s(1)] s show ?thesis by blast
qed

section \<open>The lost wake-up\<close>

definition wk_to :: "variant \<Rightarrow> wk_env \<Rightarrow> 'q wq_api \<Rightarrow> 'q wk \<Rightarrow> 'q wk \<Rightarrow> bool" where
  \<comment> \<open>a step that does not fault\<close>
  "wk_to v env api a b \<longleftrightarrow> wk_step v env api a (Inr b)"

abbreviation late :: "'q wk \<Rightarrow> bool" where
  \<comment> \<open>the thread has woken the queue\<close>
  "late s \<equiv> t_pc s = T_Out \<or> t_pc s = T_Done"

definition limit_over :: "'q wk \<Rightarrow> 'q wk" where
  "limit_over s = s\<lparr>asleep := False, time_out := 0\<rparr>"

lemma late_thread_step:
  assumes "thread_step v env api left s = Some (Inr s')" "late s"
  shows "late s' \<and> i_pc s' = i_pc s \<and> asleep s' = asleep s \<and> time_out s' = time_out s \<and> set (wk_log s) \<subseteq> set (wk_log s')"
  using assms by (auto simp: thread_step_def bindF_def split: if_splits sum.splits)

text \<open>A run is the list of its states.\<close>

abbreviation wk_path :: "variant \<Rightarrow> wk_env \<Rightarrow> 'q wq_api \<Rightarrow> 'q wk list \<Rightarrow> bool" where
  "wk_path v env api ss \<equiv> ss \<noteq> [] \<and> successively (wk_to v env api) ss"

definition timed_out :: "'q wk list \<Rightarrow> bool" where
  \<comment> \<open>in the run, init slept until the time limit was over\<close>
  "timed_out ss \<longleftrightarrow> (\<exists>i. Suc i < length ss \<and> i_pc (ss ! i) = I_Asleep \<and> asleep (ss ! i) \<and> ss ! Suc i = limit_over (ss ! i))"

definition zero_logged :: "'q wk \<Rightarrow> bool" where
  "zero_logged s \<longleftrightarrow> printk (''the schedule timeout is:0'' @ [NL]) \<in> set (wk_log s)"

definition lost_inv :: "'q wk list \<Rightarrow> bool" where
  "lost_inv ss \<longleftrightarrow> late (last ss) \<and> time_out (last ss) = 0 \<and>
     (i_pc (last ss) = I_Sleep \<or> i_pc (last ss) = I_Asleep \<and> (asleep (last ss) \<or> timed_out ss) \<or>
      i_pc (last ss) = I_Done \<and> timed_out ss \<and> zero_logged (last ss))"

lemma timed_out_snoc: "timed_out ss \<Longrightarrow> timed_out (ss @ [b])"
  unfolding timed_out_def by (metis Suc_lessD length_append_singleton less_SucI nth_append)

lemma timed_out_now:
  assumes "ss \<noteq> []" "i_pc (last ss) = I_Asleep" "asleep (last ss)"
  shows "timed_out (ss @ [limit_over (last ss)])"
proof -
  have "ss ! (length ss - 1) = last ss" using assms(1) by (simp add: last_conv_nth)
  then show ?thesis unfolding timed_out_def
    by (intro exI [of _ "length ss - 1"]) (use assms in \<open>simp add: nth_append\<close>)
qed

lemma init_returns:
  assumes "init_step v env api a = Some (Inr b)" "i_pc a = I_Asleep" "\<not> asleep a"
  shows "i_pc b = I_Done \<and> t_pc b = t_pc a \<and> time_out b = time_out a \<and> (time_out a = 0 \<longrightarrow> zero_logged b)"
proof -
  have zero: "dec 0 = ''0''" by code_simp
  show ?thesis using assms by (clarsimp simp: init_step_def zero_logged_def zero)
qed

lemma lost_inv_step:
  assumes run: "ss \<noteq> []" and inv: "wk_inv env api (last ss)" and lost: "lost_inv ss"
    and step: "wk_to v env api (last ss) b"
  shows "lost_inv (ss @ [b])"
  using step [unfolded wk_to_def]
proof (rule wk_stepE)
  let ?a = "last ss"
  assume i: "init_step v env api ?a = Some (Inr b)"
  consider "i_pc ?a = I_Sleep" | "i_pc ?a = I_Asleep" "\<not> asleep ?a"
    using i lost by (auto simp: init_step_def lost_inv_def split: if_splits)
  then show ?thesis
  proof cases
    case 2
    have t: "timed_out ss" "late ?a" "time_out ?a = 0" using lost 2 by (simp_all add: lost_inv_def)
    have "i_pc b = I_Done" "zero_logged b" "late b" "time_out b = 0"
      using init_returns [OF i 2] t by auto
    then show ?thesis using timed_out_snoc [OF t(1)] by (simp add: lost_inv_def)
  qed (use i lost in \<open>auto simp: init_step_def lost_inv_def\<close>)
next
  fix left assume t: "thread_step v env api left (last ss) = Some (Inr b)"
  have "late (last ss)" using lost by (simp add: lost_inv_def)
  from late_thread_step [OF t this] show ?thesis
    using lost timed_out_snoc by (auto simp: lost_inv_def zero_logged_def)
next
  assume l: "Inr b = Inr (last ss\<lparr>asleep := False, time_out := 0\<rparr>)" and sl: "asleep (last ss)"
  then have b: "b = limit_over (last ss)" by (simp add: limit_over_def)
  have pc: "i_pc (last ss) = I_Asleep" using inv sl by (simp add: wk_inv_def)
  have "timed_out (ss @ [b])" using timed_out_now [OF run pc sl] b by simp
  then show ?thesis using lost pc b by (auto simp: lost_inv_def limit_over_def)
qed (use lost timed_out_snoc in \<open>auto simp: lost_inv_def zero_logged_def unload_def\<close>)

lemma late_sleep_ends:
  assumes "wk_to v env api s s'" "late s" "asleep s" "i_pc s = I_Asleep" "\<not> asleep s'"
  shows "s' = limit_over s"
  using assms(1) [unfolded wk_to_def]
proof (rule wk_stepE)
  fix left assume "thread_step v env api left s = Some (Inr s')"
  from late_thread_step [OF this assms(2)] show ?thesis using assms by simp
qed (use assms in \<open>auto simp: init_step_def limit_over_def\<close>)

text \<open>
  C23: a wake-up that comes before the init function sleeps is lost. Init goes to sleep all the same;
  from then on, in every state of every run, the only step that ends its sleep is the end of the time
  limit, and when init has returned the run has passed through it and the log says that 0 was left of
  the limit.
\<close>

theorem wake_up_lost:
  assumes "wk_reach v env api (hd ss)" "i_pc (hd ss) = I_Sleep" "t_pc (hd ss) = T_Out \<or> t_pc (hd ss) = T_Done"
    and "ss \<noteq> [] \<and> successively (wk_to v env api) ss"
  shows "init_step v env api (hd ss) = Some (Inr (hd ss\<lparr>asleep := True, i_pc := I_Asleep\<rparr>)) \<and>
    (i_pc (last ss) = I_Asleep \<and> asleep (last ss) \<longrightarrow>
      init_step v env api (last ss) = None \<and> wk_to v env api (last ss) (limit_over (last ss)) \<and>
      (\<forall>s'. wk_to v env api (last ss) s' \<and> \<not> asleep s' \<longrightarrow> s' = limit_over (last ss))) \<and>
    (i_pc (last ss) = I_Done \<longrightarrow> timed_out ss \<and> zero_logged (last ss))"
proof -
  have "wk_path v env api us \<Longrightarrow> hd us = hd ss \<Longrightarrow> wk_inv env api (last us) \<and> lost_inv us" for us
  proof (induction us rule: rev_induct)
    case (snoc b us)
    show ?case
    proof (cases "us = []")
      case True
      then show ?thesis using snoc.prems(2) wk_reach_inv [OF assms(1)] assms(2,3)
        by (simp add: wk_inv_def lost_inv_def)
    next
      case False
      then have "wk_path v env api us" and step: "wk_to v env api (last us) b" and "hd us = hd ss"
        using snoc.prems by (simp_all add: successively_append_iff)
      then have "wk_inv env api (last us)" "lost_inv us" using snoc.IH by simp_all
      from lost_inv_step [OF False this step] wk_step_inv [OF step [unfolded wk_to_def] this(1)] show ?thesis by simp
    qed
  qed simp
  then have lost: "wk_inv env api (last ss)" "lost_inv ss" using assms(4) by blast+
  have "init_step v env api (hd ss) = Some (Inr (hd ss\<lparr>asleep := True, i_pc := I_Asleep\<rparr>))"
    using assms(2) by (simp add: init_step_def)
  moreover have "init_step v env api (last ss) = None \<and> wk_to v env api (last ss) (limit_over (last ss)) \<and>
      (\<forall>s'. wk_to v env api (last ss) s' \<and> \<not> asleep s' \<longrightarrow> s' = limit_over (last ss))"
    if "i_pc (last ss) = I_Asleep" "asleep (last ss)"
  proof -
    have "late (last ss)" using lost by (simp add: lost_inv_def)
    then have "\<forall>s'. wk_to v env api (last ss) s' \<and> \<not> asleep s' \<longrightarrow> s' = limit_over (last ss)"
      using late_sleep_ends that by blast
    then show ?thesis using that wk_timeout [OF that(2)] by (simp add: init_step_def wk_to_def limit_over_def)
  qed
  moreover have "timed_out ss \<and> zero_logged (last ss)" if "i_pc (last ss) = I_Done"
    using lost that by (simp add: lost_inv_def)
  ultimately show ?thesis by blast
qed

lemma wake_up_lost_witness:
  "\<exists>ss. wk_reach wake_up_v demo_wk list_wq (hd ss) \<and> wk_path wake_up_v demo_wk list_wq ss \<and>
     i_pc (last ss) = I_Done \<and> timed_out ss \<and> zero_logged (last ss)"
proof -
  let ?to = "wk_to wake_up_v demo_wk list_wq"
  obtain s where s: "wk_reach wake_up_v demo_wk list_wq s" "i_pc s = I_Sleep" "t_pc s = T_Out"
    using demo_early wk_run_reach [OF reach_start] by blast
  let ?a = "s\<lparr>asleep := True, i_pc := I_Asleep\<rparr>" and ?b = "limit_over (s\<lparr>asleep := True, i_pc := I_Asleep\<rparr>)"
  obtain c where c: "init_step wake_up_v demo_wk list_wq ?b = Some (Inr c)" "i_pc c = I_Done"
    by (simp add: init_step_def limit_over_def)
  have "?to s ?a" unfolding wk_to_def by (rule wk_init) (simp add: init_step_def s(2))
  moreover have "?to ?a ?b" unfolding wk_to_def limit_over_def by (rule wk_timeout) simp
  moreover have "?to ?b c" unfolding wk_to_def by (rule wk_init) (rule c(1))
  ultimately have path: "wk_path wake_up_v demo_wk list_wq [s, ?a, ?b, c]" by simp
  have "timed_out [s, ?a, ?b, c] \<and> zero_logged c"
    using wake_up_lost [OF _ _ _ path] s c(2) by simp
  then show ?thesis using s(1) path c(2) by (intro exI [of _ "[s, ?a, ?b, c]"]) simp
qed

end
