(* ===== verification/Small_Modules.thy ===== *)
theory Small_Modules
  imports Wake_Up
begin

text \<open>
  The modules with little of their own: \<open>hello\<close>, \<open>test_module\<close>, \<open>iterateprocess\<close>, \<open>kthread_run\<close>,
  \<open>kernel_thread\<close>, \<open>add_wait_queue\<close> and \<open>abort_exclusive_wait\<close>.
\<close>

section \<open>hello, test_module\<close>

function hello_loop :: "int \<Rightarrow> kev list" where
  "hello_loop iLp = (if iLp < 10 then pr_alert (''hello,Seq:'' @ dec iLp @ [NL]) # hello_loop (iLp + 1) else [])"
  by pat_completeness auto
termination by (relation "measure (\<lambda>i. nat (10 - i))") auto

declare hello_loop.simps [simp del]

definition hello_init :: "int \<times> kev list" where
  "hello_init = (0, hello_loop 0)"

definition hello_exit :: "kev list" where
  "hello_exit = [pr_alert (''goodbye,kernel'' @ [NL])]"

definition symbol_A :: int where "symbol_A = 1"
definition symbol_B :: int where "symbol_B = 0"

definition test_module_init :: "int \<times> kev list" where
  "test_module_init = (0, [printk (''<0>hello world'' @ [NL])])"

definition test_module_exit :: "kev list" where
  "test_module_exit = [printk (''<0>module[test_module_exit] exit ok!'' @ [NL])]"

section \<open>iterateprocess\<close>

fun traverse_loop :: "(string \<times> int) list \<Rightarrow> int \<Rightarrow> int \<times> kev list" where
  \<comment> \<open>\<open>comm\<close> and \<open>pid\<close> of the tasks that \<open>list_for_each_entry\<close> visits, \<open>count\<close>\<close>
  "traverse_loop [] count = (count, [])"
| "traverse_loop ((comm, pid) # ps) count =
     (let n = count + 1; r = traverse_loop ps n in
      (fst r, printk (''[process '' @ padr 5 (dec n) @ '']: '' @ comm @ [CHR 0x27] @ ''s pid is '' @ padr 5 (dec pid) @ [NL]) # snd r))"

definition traverse_init :: "(string \<times> int) list \<Rightarrow> int \<times> kev list" where
  "traverse_init ps =
     (let r = traverse_loop ps 0 in
      (0, printk (''Traversal module is working..'' @ [NL]) # snd r @
          [pr_alert (''The number of process is:'' @ padr 5 (dec (fst r)) @ [NL])]))"

definition traverse_exit :: "kev list" where
  "traverse_exit = [printk (''traverse  exit'' @ [NL])]"

section \<open>kthread_run\<close>

definition dmatest_work :: "int \<times> bool \<times> int \<times> kev list" where
  \<comment> \<open>the result, whether \<open>SIGTERM\<close> is allowed, the state of the thread, the log; \<open>TASK_INTERRUPTIBLE\<close> is 1\<close>
  "dmatest_work = (0, True, 1, [printk (''New kernel thread run'' @ [NL])])"

definition kthread_run :: "bool \<Rightarrow> bool" where
  \<comment> \<open>whether \<open>kthread_create\<close> gave a thread; whether it is woken\<close>
  "kthread_run created = (if created then True else False)"

definition dmatest_init :: "bool \<Rightarrow> int \<times> bool" where
  \<comment> \<open>the result, and whether the thread runs; the result of \<open>kthread_run\<close> is not looked at\<close>
  "dmatest_init created = (let running = kthread_run created in (0, running))"

section \<open>kernel_thread\<close>

partial_function (option) my_kernel_thread :: "int \<Rightarrow> kev list \<Rightarrow> (int \<times> kev list) option" where
  \<comment> \<open>\<open>n\<close> and the log; \<open>ssleep(3)\<close> between two turns\<close>
  "my_kernel_thread n l =
     my_kernel_thread (wrap32 (n + 1)) (l @ [printk (''my_kernel_thread: '' @ dec n @ [NL])])"

definition practiceCall :: "int \<times> kev list" where
  "practiceCall = (0, [printk (''practiceCall:'' @ [NL])])"

definition practiceCallExit :: "kev list" where
  "practiceCallExit = [printk (''practiceCallExit:'' @ [NL])]"

section \<open>add_wait_queue\<close>

record awq_env =
  made :: bool     \<comment> \<open>\<open>kthread_create_on_node\<close> for \<open>result\<close>\<close>
  made1 :: bool    \<comment> \<open>and for \<open>result1\<close>\<close>
  awq_pid :: int
  awq_tgid :: int
  awq_refcount :: int

definition awq_entry_ok :: "awq_env \<Rightarrow> nat \<Rightarrow> bool" where
  \<comment> \<open>whether the task of an entry (0 is \<open>data\<close>, 1 is \<open>data1\<close>) is a task\<close>
  "awq_entry_ok env e = (if e = 0 then made env else made1 env)"

definition add_wait_queue_init :: "awq_env \<Rightarrow> 'q wq_api \<Rightarrow> fault + (int \<times> nat list \<times> kev list)" where
  \<comment> \<open>the result, the entries whose threads were woken, the log\<close>
  "add_wait_queue_init env api =
     (let head = q_add api 1 (q_add api 0 (q_init api)); woken = q_entries api head in
      if \<not> (\<forall>e \<in> set woken. awq_entry_ok env e) then Inl NullDeref
      else Inr (0, woken, map (\<lambda>l. printk (l @ [NL]))
        [''into add_wait_queue_init.'', ''the pid of current thread is:'' @ dec (awq_pid env),
         ''the current tgid is:'' @ dec (awq_tgid env), ''out add_wait_queue_init'',
         ''module_refcount(THIS_MODULE):'' @ dec (awq_refcount env)]))"

definition add_wait_queue_function :: "int \<Rightarrow> int \<times> kev list" where
  \<comment> \<open>\<open>my_function\<close>: what each of the two threads runs\<close>
  "add_wait_queue_function pid = (0, map (\<lambda>l. printk (l @ [NL]))
     [''in the kernel thread function!'', ''the current pid is:'' @ dec pid, ''out the kernel thread function''])"

definition add_wait_queue_exit :: "kev list" where
  "add_wait_queue_exit = [printk (''<0>module[add_wait_queue_exit] exit ok!'' @ [NL])]"

section \<open>abort_exclusive_wait\<close>

record 'q aew_api =
  w_init :: 'q
  w_prepare :: "bool \<Rightarrow> nat \<Rightarrow> int \<Rightarrow> 'q \<Rightarrow> 'q \<times> int"
    \<comment> \<open>\<open>prepare_to_wait\<close> (\<open>False\<close>) or its exclusive form: the queue and the state it gives the current task\<close>
  w_entries :: "'q \<Rightarrow> nat list"

record aew_env =
  created :: "nat \<Rightarrow> bool"          \<comment> \<open>whether \<open>kthread_create_on_node\<close> gave the n-th thread\<close>
  worker_pid :: "nat \<Rightarrow> int"
  state_first :: "nat \<Rightarrow> int"      \<comment> \<open>the states of the threads at the first listing\<close>
  state_second :: "nat \<Rightarrow> int"     \<comment> \<open>and at the second\<close>
  aew_pid :: int
  aew_tgid :: int
  aew_refcount :: int

fun queue_listing :: "string \<Rightarrow> aew_env \<Rightarrow> (nat \<Rightarrow> int) \<Rightarrow> nat list \<Rightarrow> int \<Rightarrow> int \<times> string list" where
  "queue_listing word env st [] wait_queue_num = (wait_queue_num, [])"
| "queue_listing word env st (e # es) wait_queue_num =
     (let r = queue_listing word env st es (wait_queue_num + 1) in
      (fst r, (''the pid value of the current data of the '' @ word @ '' is:'' @ dec (worker_pid env e)) #
              (''the state of the current data of the waitqueue is:'' @ dec (st e)) # snd r))"

definition num_line :: "int \<Rightarrow> string" where
  "num_line n = ''the value of the wait_queue_num is:'' @ dec n"

definition abort_exclusive_wait_exit :: "string list" where
  "abort_exclusive_wait_exit = [''<0>module[abort_exclusive_wait_exit] exit ok!'']"

definition abort_exclusive_wait_init :: "aew_env \<Rightarrow> 'q aew_api \<Rightarrow> fault + (int \<times> kev list)" where
  \<comment> \<open>the call of \<open>abort_exclusive_wait_exit\<close> with four arguments, which a compiler rejects, is taken
    as a call of that function; the two listings spell the word differently\<close>
  "abort_exclusive_wait_init env api =
     (if \<not> (created env 0 \<and> created env 1 \<and> created env 2) then Inl NullDeref
      else
      let (q0, c0) = w_prepare api False 0 130 (w_init api);
          (q1, c1) = w_prepare api True 1 2 q0;
          (q2, c2) = w_prepare api True 2 1 q1;
          r1 = queue_listing ''waitqeue'' env (state_first env) (w_entries api q2) 0;
          r2 = queue_listing ''waitqueue'' env (state_second env) (w_entries api q2) 0 in
      Inr (0, map (\<lambda>l. printk (l @ [NL]))
        ([''into abort_exclusive_wait_init.''] @ snd r1 @ [num_line (fst r1), ''the state of the current thread is:'' @ dec c2] @
         abort_exclusive_wait_exit @ [''the state of the current thread is :'' @ dec c2] @ snd r2 @ [num_line (fst r2)] @
         [''the pid of result is:'' @ dec (worker_pid env 0), ''the pid of result1 is:'' @ dec (worker_pid env 1),
          ''the pid of result2 is:'' @ dec (worker_pid env 2), ''the pid of current thread is:'' @ dec (aew_pid env),
          ''the current tgid is:'' @ dec (aew_tgid env), ''out abort_exclusive_wait_init'',
          ''module_refcount(THIS_MODULE):'' @ dec (aew_refcount env)])))"

section \<open>Lemmas\<close>

lemma queue_listing_count: "fst (queue_listing word env st es n) = n + int (length es) \<and> length (snd (queue_listing word env st es n)) = 2 * length es"
  by (induction word env st es n rule: queue_listing.induct) (simp_all add: Let_def)

lemma hello_ten: "length (snd hello_init) = 10"
  by (simp add: hello_init_def hello_loop.simps)

lemma traverse_loop_count:
  "fst (traverse_loop ps n) = n + int (length ps) \<and> length (snd (traverse_loop ps n)) = length ps"
  by (induction ps n rule: traverse_loop.induct) (simp_all add: Let_def)

lemma add_wait_queue_wakes_both:
  assumes "wq_ok api" "made env" "made1 env"
  shows "\<exists>woken l. add_wait_queue_init env api = Inr (0, woken, l) \<and> set woken = {0, 1}"
proof -
  have "set (q_entries api (q_add api 1 (q_add api 0 (q_init api)))) = {1, 0}"
    using assms(1) unfolding wq_ok_def by simp
  then show ?thesis using assms(2,3) by (auto simp: add_wait_queue_init_def awq_entry_ok_def Let_def)
qed

text \<open>
  The thread of \<open>kernel_thread\<close> never returns, from whatever state it starts.
\<close>

theorem kernel_thread_never_returns: "my_kernel_thread n l = None"
proof (rule ccontr)
  assume "my_kernel_thread n l \<noteq> None"
  then obtain r where r: "my_kernel_thread n l = Some r" by blast
  have False by (rule my_kernel_thread.raw_induct [OF _ r, where P = "\<lambda>_ _ _. False"]) blast
  then show False .
qed

end
