(* ===== verification/Sys2_Route.thy ===== *)
theory Sys2_Route
  imports Kern_State
begin

text \<open>
  \<open>showroute\<close> of \<open>sys2/mypacket.c\<close>, the command that \<open>OPEN_SHOWROUTE\<close> adds to the table of \<open>sys2\<close>; the
  macro is commented out, so \<open>Sys2\<close> leaves the command out. The routing table is an argument.
\<close>

record route_env =
  main_table_found :: bool
  lookup_err :: int
  res_fi :: "(string \<times> string \<times> string) option"
    \<comment> \<open>of \<open>res.fi\<close>, if it is not NULL: the destination and gateway as \<open>%pI4\<close> prints them, the device\<close>

definition TAB :: char where "TAB = CHR 0x09"

definition showroute_in :: "route_env \<Rightarrow> string \<Rightarrow> kern \<Rightarrow> int \<times> kern" where
  "showroute_in env param k =
     (if \<not> main_table_found env then
        (- ENODEV, emit [pr_info (''Main routing table not found'' @ [NL])] k)
      else
      let k1 = emit [pr_info (''Routing Table:'' @ [NL]),
                     pr_info (''Destination'' @ [TAB] @ ''Gateway'' @ [TAB, TAB] @ ''Device'' @ [NL]),
                     Get RcuRead 0, Put RcuRead] k in
      (case res_fi env of
         Some (dst, gw, dev) \<Rightarrow>
           if lookup_err env = 0 then
             (0, emit [pr_info (''Destination: '' @ dst @ '', Gateway: '' @ gw @ '', Device: '' @ dev @ [NL])] k1)
           else (0, k1)
       | None \<Rightarrow> (0, k1)))"

definition showroute :: "route_env \<Rightarrow> string \<Rightarrow> kern \<Rightarrow> kern" where
  "showroute env param k = snd (showroute_in env param k)"

text \<open>The command keeps the contract of a handler, and fails only when there is no main table.\<close>

interpretation h_showroute: handler "\<lambda>s k. Inr (showroute env s k)" "\<lambda>_. True" for env
  by unfold_locales
     (auto simp: showroute_def showroute_in_def keeps_refs_def Let_def emit_def balanced_def split: option.splits)

lemma showroute_result: "fst (showroute_in env param k) = (if main_table_found env then 0 else - ENODEV)"
  by (simp add: showroute_in_def Let_def split: option.splits prod.splits)

end
