(* ===== verification/Audit_Threads.thy ===== *)
theory Audit_Threads
  imports Audit_Log Threads
begin

text \<open>
  The two functions of \<open>auditexample/module/audit.c\<close> when several processes make system calls and
  several processes read the log: nothing in the file locks \<open>audit_buf\<close> and \<open>current_pos\<close>, and any process
  may make the system call the daemon makes. The buffers of the readers are writable. A step is one statement
  of one process (\<open>++current_pos\<close> included, one instruction on the machines of the time), so the model
  is one processor that may switch between any two statements; more processors only add runs. A
  caller's \<open>current\<close> and the clock are those of its \<open>caller\<close>.
\<close>

section \<open>One statement at a time\<close>

datatype apc =
    A_Idle
  | A_Test caller int int            \<comment> \<open>\<open>if(current_pos < AUDIT_BUF_SIZE)\<close>\<close>
  | A_Ptr caller int int             \<comment> \<open>\<open>ppb_temp = &audit_buf[current_pos]\<close>\<close>
  | A_Field caller int int nat nat   \<comment> \<open>the index \<open>ppb_temp\<close> points to, the number of the field to write\<close>
  | A_Inc                            \<comment> \<open>\<open>if (++current_pos == AUDIT_BUF_SIZE*8/10)\<close>\<close>
  | A_Wake

datatype rpc =
    R_Idle
  | R_Wait nat                       \<comment> \<open>\<open>us_buf_size\<close>\<close>
  | R_Copy nat
  | R_Ret "syscall_buf list"         \<comment> \<open>the records in the user's buffer\<close>
  | R_Reset "syscall_buf list" int   \<comment> \<open>and \<open>ret\<close>\<close>

record aud =
  mem :: audit
  apcs :: "nat \<Rightarrow> apc"
  rpcs :: "nat \<Rightarrow> rpc"
  reads :: "(int \<times> syscall_buf list) list"   \<comment> \<open>what the reads returned and copied, not in the code\<close>

definition FIELDS :: nat where "FIELDS = 10"

definition set_field :: "nat \<Rightarrow> caller \<Rightarrow> int \<Rightarrow> int \<Rightarrow> 32 word \<Rightarrow> syscall_buf \<Rightarrow> syscall_buf" where
  \<comment> \<open>the assignments to \<open>*ppb_temp\<close>, in their order\<close>
  "set_field i c nr return_status n r =
     (if i = 0 then r\<lparr>serial_no := n\<rparr>
      else if i = 1 then r\<lparr>ts_sec := now_sec c\<rparr>
      else if i = 2 then r\<lparr>ts_micro := now_usec c\<rparr>
      else if i = 3 then r\<lparr>syscall_no := word_of_int nr\<rparr>
      else if i = 4 then r\<lparr>status := word_of_int return_status\<rparr>
      else if i = 5 then r\<lparr>pid_no := cur_pid c\<rparr>
      else if i = 6 then r\<lparr>uid := cur_uid c\<rparr>
      else if i = 7 then r\<lparr>euid := cur_euid c\<rparr>
      else if i = 8 then r\<lparr>device := (case cur_tty c of None \<Rightarrow> - 1 | Some d \<Rightarrow> d)\<rparr>
      else r\<lparr>comm_buf := take COMM_SIZE (cur_comm c)\<rparr>)"

definition at_a :: "nat \<Rightarrow> apc \<Rightarrow> aud \<Rightarrow> aud" where
  "at_a j pc s = s\<lparr>apcs := (apcs s)(j := pc)\<rparr>"

definition syscall_step :: "nat \<Rightarrow> aud \<Rightarrow> (fault + aud) option" where
  \<comment> \<open>the next statement of \<open>mod_syscall_audit\<close> in process \<open>j\<close>\<close>
  "syscall_step j s =
     (let a = mem s in
      case apcs s j of
        A_Idle \<Rightarrow> None
      | A_Test c nr st \<Rightarrow> Some (Inr (at_a j (if current_pos a < AUDIT_BUF_SIZE then A_Ptr c nr st else A_Idle) s))
      | A_Ptr c nr st \<Rightarrow> Some (Inr (at_a j (A_Field c nr st (current_pos a) 0) s))
      | A_Field c nr st p i \<Rightarrow>
          Some (if p < length (audit_buf a)
                then Inr (at_a j (if Suc i < FIELDS then A_Field c nr st p (Suc i) else A_Inc)
                       (s\<lparr>mem := a\<lparr>audit_buf := (audit_buf a)[p := set_field i c nr st (serial a) (audit_buf a ! p)],
                                   serial := (if i = 0 then serial a + 1 else serial a)\<rparr>\<rparr>))
                else Inl OutOfBounds)
      | A_Inc \<Rightarrow>
          Some (Inr (at_a j (if current_pos a + 1 = AUDIT_BUF_SIZE * 8 div 10 then A_Wake else A_Idle)
             (s\<lparr>mem := a\<lparr>current_pos := current_pos a + 1\<rparr>\<rparr>)))
      | A_Wake \<Rightarrow> Some (Inr (at_a j A_Idle (s\<lparr>mem := a\<lparr>wakeups := wakeups a + 1\<rparr>\<rparr>))))"

definition at_r :: "nat \<Rightarrow> rpc \<Rightarrow> aud \<Rightarrow> aud" where
  "at_r i pc s = s\<lparr>rpcs := (rpcs s)(i := pc)\<rparr>"

definition sys_audit_step :: "nat \<Rightarrow> bool \<Rightarrow> aud \<Rightarrow> (fault + aud) option" where
  \<comment> \<open>the next statement of \<open>mod_sys_audit\<close> with \<open>type\<close> 0 in reader \<open>i\<close>; whether a signal ends the wait\<close>
  "sys_audit_step i signalled s =
     (let a = mem s in
      case rpcs s i of
        R_Idle \<Rightarrow> None
      | R_Wait sz \<Rightarrow> if current_pos a \<ge> AUDIT_BUF_SIZE * 8 div 10 \<or> signalled then Some (Inr (at_r i (R_Copy sz) s)) else None
      | R_Copy sz \<Rightarrow>
          Some (if length (audit_buf a) < current_pos a \<or> sz < current_pos a * sizeof_syscall_buf then Inl OutOfBounds
                else Inr (at_r i (R_Ret (take (current_pos a) (audit_buf a))) s))
      | R_Ret out \<Rightarrow> Some (Inr (at_r i (R_Reset out (int (current_pos a))) s))
      | R_Reset out ret \<Rightarrow>
          Some (Inr (at_r i R_Idle (s\<lparr>mem := a\<lparr>current_pos := 0\<rparr>, reads := reads s @ [(ret, out)]\<rparr>))))"

text \<open>What can happen next: a process enters a function, or goes on in it.\<close>

datatype aact = Enter nat caller int int | Go_On nat | Enter_Read nat nat | Read_On nat bool

fun aud_act :: "aact \<Rightarrow> aud \<Rightarrow> (fault + aud) option" where
  "aud_act (Enter j c nr st) s = (if apcs s j = A_Idle then Some (Inr (at_a j (A_Test c nr st) s)) else None)"
| "aud_act (Go_On j) s = syscall_step j s"
| "aud_act (Enter_Read i sz) s = (if rpcs s i = R_Idle then Some (Inr (at_r i (R_Wait sz) s)) else None)"
| "aud_act (Read_On i signalled) s = sys_audit_step i signalled s"

fun aud_allowed :: "nat \<Rightarrow> nat \<Rightarrow> aact \<Rightarrow> bool" where
  \<comment> \<open>\<open>N\<close> processes make calls, \<open>M\<close> read, with room for 100 records, as the daemon has\<close>
  "aud_allowed N M (Enter j c nr st) = (j < N)"
| "aud_allowed N M (Go_On j) = (j < N)"
| "aud_allowed N M (Enter_Read i sz) = (i < M \<and> 5200 \<le> sz)"
| "aud_allowed N M (Read_On i signalled) = (i < M)"

definition aud_start :: aud where
  "aud_start = \<lparr>mem = audit_static, apcs = (\<lambda>_. A_Idle), rpcs = (\<lambda>_. R_Idle), reads = []\<rparr>"

abbreviation aud_reach :: "nat \<Rightarrow> nat \<Rightarrow> aud \<Rightarrow> bool" where
  "aud_reach N M s \<equiv> reach aud_act (aud_allowed N M) aud_start s"

section \<open>Without interleaving\<close>

text \<open>
  A call that nothing interrupts is the function of \<open>Audit_Log\<close>: the ten assignments make up the record.
\<close>

lemma set_fields: "fold (\<lambda>i. set_field i c nr st n) [0..<10] r = audit_record c nr st n"
  by (simp add: upt_rec set_field_def audit_record_def)

lemma at_a_twice: "at_a j pc (at_a j pc' s) = at_a j pc s" "at_a j pc (s\<lparr>mem := a\<rparr>) = (at_a j pc s)\<lparr>mem := a\<rparr>"
  by (simp_all add: at_a_def)

lemma at_a_fields [simp]:
  "apcs (at_a j pc s) = (apcs s)(j := pc)" "mem (at_a j pc s) = mem s" "rpcs (at_a j pc s) = rpcs s" "reads (at_a j pc s) = reads s"
  by (simp_all add: at_a_def)

lemma at_r_fields [simp]:
  "apcs (at_r i pc s) = apcs s" "mem (at_r i pc s) = mem s" "rpcs (at_r i pc s) = (rpcs s)(i := pc)" "reads (at_r i pc s) = reads s"
  by (simp_all add: at_r_def)

definition put_record :: "nat \<Rightarrow> (syscall_buf \<Rightarrow> syscall_buf) \<Rightarrow> audit \<Rightarrow> audit" where
  "put_record p f a = a\<lparr>audit_buf := (audit_buf a)[p := f (audit_buf a ! p)]\<rparr>"

lemma put_record_twice: "p < length (audit_buf a) \<Longrightarrow> put_record p g (put_record p f a) = put_record p (g \<circ> f) a"
  by (simp add: put_record_def)

lemma run_fields:
  assumes "apcs s j = A_Field c nr st p i" "0 < i" "i < FIELDS" "p < length (audit_buf (mem s))" "n = serial (mem s)"
  shows "run_acts aud_act (replicate (FIELDS - i) (Go_On j)) s =
    Some (at_a j A_Inc (s\<lparr>mem := put_record p (fold (\<lambda>i. set_field i c nr st n) [i..<FIELDS]) (mem s)\<rparr>))"
  using assms
proof (induction "FIELDS - i" arbitrary: i s)
  case (Suc d)
  define s1 where "s1 = at_a j (if Suc i < FIELDS then A_Field c nr st p (Suc i) else A_Inc)
    (s\<lparr>mem := put_record p (set_field i c nr st n) (mem s)\<rparr>)"
  have go: "syscall_step j s = Some (Inr s1)"
    using Suc.prems by (simp add: syscall_step_def Let_def s1_def put_record_def)
  have d: "FIELDS - i = Suc (FIELDS - Suc i)" "[i..<FIELDS] = i # [Suc i..<FIELDS]"
    using Suc.prems(3) by (simp_all add: upt_conv_Cons Suc_diff_Suc)
  show ?case
  proof (cases "Suc i < FIELDS")
    case True
    have "run_acts aud_act (replicate (FIELDS - Suc i) (Go_On j)) s1 = Some (at_a j A_Inc
        (s1\<lparr>mem := put_record p (fold (\<lambda>i. set_field i c nr st n) [Suc i..<FIELDS]) (mem s1)\<rparr>))"
      using Suc.hyps True Suc.prems by (intro Suc.hyps(1)) (simp_all add: s1_def put_record_def)
    then show ?thesis using Suc.prems(4)
      using True by (simp add: d go) (simp add: s1_def put_record_twice at_a_twice)
  next
    case False
    then have "FIELDS - Suc i = 0" "[Suc i..<FIELDS] = []" by simp_all
    with False show ?thesis unfolding d by (simp add: go s1_def)
  qed
qed simp

lemma run_record:
  assumes "apcs s j = A_Field c nr st p 0" "p < length (audit_buf (mem s))"
  shows "run_acts aud_act (replicate FIELDS (Go_On j)) s =
    Some (at_a j A_Inc (s\<lparr>mem := (mem s)\<lparr>audit_buf := (audit_buf (mem s))[p := audit_record c nr st (serial (mem s))],
      serial := serial (mem s) + 1\<rparr>\<rparr>))"
proof -
  let ?n = "serial (mem s)" and ?b = "audit_buf (mem s)"
  define s1 where "s1 = at_a j (A_Field c nr st p 1)
    (s\<lparr>mem := (mem s)\<lparr>audit_buf := ?b[p := set_field 0 c nr st ?n (?b ! p)], serial := ?n + 1\<rparr>\<rparr>)"
  have go: "syscall_step j s = Some (Inr s1)"
    using assms by (simp add: syscall_step_def Let_def s1_def FIELDS_def)
  have "run_acts aud_act (replicate (FIELDS - 1) (Go_On j)) s1 = Some (at_a j A_Inc
      (s1\<lparr>mem := put_record p (fold (\<lambda>i. set_field i c nr st (?n + 1)) [1..<FIELDS]) (mem s1)\<rparr>))"
    using assms by (intro run_fields) (simp_all add: s1_def FIELDS_def)
  moreover have "fold (\<lambda>i. set_field i c nr st (?n + 1)) [1..<FIELDS] (set_field 0 c nr st ?n (?b ! p)) = audit_record c nr st ?n"
    by (simp add: upt_rec set_field_def audit_record_def FIELDS_def)
  moreover have "replicate FIELDS (Go_On j) = Go_On j # replicate (FIELDS - 1) (Go_On j)"
    by (simp add: FIELDS_def eval_nat_numeral)
  ultimately show ?thesis using assms(2) by (simp add: go) (simp add: s1_def put_record_def at_a_twice)
qed

definition uninterrupted_call :: "nat \<Rightarrow> caller \<Rightarrow> int \<Rightarrow> int \<Rightarrow> nat \<Rightarrow> aact list" where
  \<comment> \<open>for a position: the statements up to the pointer, the record, the increment, the wake-up\<close>
  "uninterrupted_call j c nr st n = Enter j c nr st # Go_On j #
     (if n < AUDIT_BUF_SIZE
      then Go_On j # replicate FIELDS (Go_On j) @ Go_On j # (if n + 1 = AUDIT_BUF_SIZE * 8 div 10 then [Go_On j] else [])
      else [])"

text \<open>
  The statements of a call, run without interruption, are the function \<open>mod_syscall_audit\<close> of the
  sequential model: the same record in the same place, the same position and wake-ups.
\<close>

lemma uninterrupted_call_is_atomic:
  assumes "audit_ok (mem s)" "apcs s j = A_Idle"
  shows "\<exists>a'. mod_syscall_audit c nr st (mem s) = Inr a' \<and>
    run_acts aud_act (uninterrupted_call j c nr st (current_pos (mem s))) s = Some (s\<lparr>mem := a'\<rparr>)"
proof (cases "current_pos (mem s) < AUDIT_BUF_SIZE")
  case True
  let ?p = "current_pos (mem s)"
  have p: "?p < length (audit_buf (mem s))" using True assms(1) by (simp add: audit_ok_def)
  define s1 where "s1 = at_a j (A_Field c nr st ?p 0) s"
  have "apcs s1 j = A_Field c nr st ?p 0" "?p < length (audit_buf (mem s1))" using p by (simp_all add: s1_def)
  note rec = run_record [OF this]
  have idle: "(apcs s)(j := A_Idle) = apcs s" using assms(2) by auto
  show ?thesis using True p assms(2) idle
    by (simp add: uninterrupted_call_def run_acts_append mod_syscall_audit_def Let_def syscall_step_def at_a_twice
        rec [unfolded s1_def])
next
  case False
  moreover have "at_a j A_Idle s = s"
    using assms(2) by (cases s) (auto simp: at_a_def)
  ultimately show ?thesis using assms(2)
    by (simp add: uninterrupted_call_def mod_syscall_audit_def syscall_step_def Let_def at_a_twice)
qed

section \<open>How far the position can go\<close>

text \<open>\<open>past_test\<close>: the process has found room and not yet moved the position.\<close>

fun past_test :: "apc \<Rightarrow> bool" where
  "past_test (A_Ptr c nr st) = True"
| "past_test (A_Field c nr st p i) = True"
| "past_test A_Inc = True"
| "past_test _ = False"

fun slot_below :: "nat \<Rightarrow> apc \<Rightarrow> bool" where
  "slot_below n (A_Field c nr st p i) = (p < n)"
| "slot_below n _ = True"

fun room_ok :: "rpc \<Rightarrow> bool" where
  "room_ok (R_Wait sz) = (5200 \<le> sz)"
| "room_ok (R_Copy sz) = (5200 \<le> sz)"
| "room_ok _ = True"

definition aud_inv :: "nat \<Rightarrow> aud \<Rightarrow> bool" where
  "aud_inv N s \<longleftrightarrow> length (audit_buf (mem s)) = 100 \<and> current_pos (mem s) + num N past_test (apcs s) \<le> 99 + N \<and>
     (\<forall>j. slot_below (99 + N) (apcs s j)) \<and> (\<forall>i. room_ok (rpcs s i))"

lemma num_le: "num N Q f \<le> N"
  by (induction N) auto

lemma aud_inv_start: "1 \<le> N \<Longrightarrow> aud_inv N aud_start"
  by (simp add: aud_inv_def aud_start_def audit_static_def num_all_false)

lemma syscall_step_inv:
  assumes inv: "aud_inv N s" and j: "j < N" and st: "syscall_step j s = Some (Inr s')"
  shows "aud_inv N s'"
proof -
  have mv: "num N past_test ((apcs s)(j := x)) + tok past_test (apcs s j) = num N past_test (apcs s) + tok past_test x" for x
    by (rule num_move [OF j])
  have le: "num N past_test f \<le> N" for f by (rule num_le)
  have pos: "past_test (apcs s j) \<Longrightarrow> current_pos (mem s) < 99 + N"
    using inv num_pos [of j N past_test "apcs s"] j by (simp add: aud_inv_def)
  show ?thesis
  proof (cases "apcs s j")
    case (A_Test c nr st)
    with st inv mv [of "A_Ptr c nr st"] mv [of A_Idle] le [of "(apcs s)(j := A_Ptr c nr st)"] show ?thesis
      by (auto simp: syscall_step_def at_a_def aud_inv_def tok_def AUDIT_BUF_SIZE_def Let_def)
  next
    case (A_Ptr c nr st)
    with assms(3) inv mv [of "A_Field c nr st (current_pos (mem s)) 0"] pos show ?thesis
      by (auto simp: syscall_step_def at_a_def aud_inv_def tok_def Let_def)
  next
    case (A_Field c nr st p i)
    moreover have "slot_below (99 + N) (apcs s j)" using inv by (simp add: aud_inv_def)
    ultimately show ?thesis using st inv mv [of "A_Field c nr st p (Suc i)"] mv [of A_Inc]
      by (auto simp: syscall_step_def at_a_def aud_inv_def tok_def Let_def split: if_splits)
  next
    case A_Inc
    with assms(3) inv mv [of A_Wake] mv [of A_Idle] show ?thesis
      by (auto simp: syscall_step_def at_a_def aud_inv_def tok_def Let_def)
  next
    case A_Wake
    with assms(3) inv mv [of A_Idle] show ?thesis
      by (auto simp: syscall_step_def at_a_def aud_inv_def tok_def Let_def)
  qed (use st in \<open>simp add: syscall_step_def Let_def\<close>)
qed

lemma sys_audit_step_inv:
  assumes "aud_inv N s" "sys_audit_step i sig s = Some (Inr s')"
  shows "aud_inv N s'"
proof -
  have "room_ok (rpcs s i)" using assms(1) by (simp add: aud_inv_def)
  then show ?thesis using assms
    by (cases "rpcs s i") (auto simp: sys_audit_step_def aud_inv_def Let_def at_r_def split: if_splits)
qed

lemma aud_act_inv:
  assumes "aud_inv N s" "aud_allowed N M a" "aud_act a s = Some (Inr s')"
  shows "aud_inv N s'"
proof (cases a)
  case (Enter j c nr st)
  then have "j < N" "s' = at_a j (A_Test c nr st) s" "\<not> past_test (apcs s j)"
    using assms(2,3) by (auto split: if_splits)
  then show ?thesis using assms(1) num_move [of j N past_test "apcs s" "A_Test c nr st"]
    by (simp add: at_a_def aud_inv_def tok_def)
next
  case (Go_On j)
  then show ?thesis using syscall_step_inv [of N s j s'] assms by simp
next
  case (Enter_Read i sz)
  then show ?thesis using assms by (auto simp: aud_inv_def at_r_def split: if_splits)
next
  case (Read_On i sig)
  then show ?thesis using sys_audit_step_inv [of N s i sig s'] assms by simp
qed

interpretation aud: machine aud_act "aud_allowed N M" "aud_inv N" for N M
  by unfold_locales (rule aud_act_inv)

lemma syscall_step_Inl:
  assumes "syscall_step j s = Some (Inl f)"
  obtains c nr st p i where "apcs s j = A_Field c nr st p i" "length (audit_buf (mem s)) \<le> p"
proof (cases "apcs s j")
  case (A_Field c nr st p i)
  moreover from this have "\<not> p < length (audit_buf (mem s))"
    using assms by (simp add: syscall_step_def Let_def split: if_split_asm)
  ultimately show thesis using that by (simp add: not_less)
qed (use assms in \<open>simp_all add: syscall_step_def Let_def\<close>)

lemma sys_audit_step_Inl:
  "sys_audit_step i sig s = Some (Inl f) \<longleftrightarrow> f = OutOfBounds \<and> (\<exists>sz. rpcs s i = R_Copy sz \<and>
    (length (audit_buf (mem s)) < current_pos (mem s) \<or> sz < current_pos (mem s) * 52))"
  by (cases "rpcs s i") (auto simp: sys_audit_step_def Let_def sizeof_syscall_buf_def COMM_SIZE_def)

lemma aud_fault:
  assumes "aud_inv N s" "aud_act a s = Some (Inl f)"
  shows "2 \<le> N"
proof (cases a)
  case (Go_On j)
  then obtain c nr st p i where p: "apcs s j = A_Field c nr st p i" "length (audit_buf (mem s)) \<le> p"
    using assms(2) by (auto elim: syscall_step_Inl)
  moreover have "slot_below (99 + N) (apcs s j)" "length (audit_buf (mem s)) = 100"
    using assms(1) by (simp_all add: aud_inv_def)
  ultimately show ?thesis by simp
next
  case (Read_On i sig)
  then obtain sz where "rpcs s i = R_Copy sz" "100 < current_pos (mem s) \<or> sz < current_pos (mem s) * 52"
    using assms by (auto simp: sys_audit_step_Inl aud_inv_def)
  moreover have "room_ok (rpcs s i)" "current_pos (mem s) \<le> 99 + N" using assms(1) by (simp_all add: aud_inv_def)
  ultimately show ?thesis by auto
qed (use assms(2) in \<open>simp_all split: if_splits\<close>)

lemma one_caller_no_fault:
  assumes "aud_reach 1 M s" "aud_allowed 1 M a"
  shows "aud_act a s \<noteq> Some (Inl f)"
  using aud_fault [OF aud.reach_inv [OF assms(1) aud_inv_start]] by auto

section \<open>Past the end of the buffer\<close>

text \<open>
  \<open>can_be N M f n\<close>: some interleaving of \<open>N\<close> callers brings the processes to \<open>f\<close> and the position to \<open>n\<close>.
  The rules below are the statements of \<open>mod_syscall_audit\<close> again, in this view.
\<close>

definition can_be :: "nat \<Rightarrow> nat \<Rightarrow> (nat \<Rightarrow> apc) \<Rightarrow> nat \<Rightarrow> bool" where
  "can_be N M f n \<longleftrightarrow> (\<exists>s. aud_reach N M s \<and> apcs s = f \<and> current_pos (mem s) = n \<and> length (audit_buf (mem s)) = 100)"

lemma can_be_start: "can_be N M (\<lambda>_. A_Idle) 0"
  unfolding can_be_def by (rule exI [of _ aud_start]) (simp add: reach_start, simp add: aud_start_def audit_static_def)

lemma can_be_move:
  assumes "can_be N M f n" "aud_allowed N M a"
    and "\<And>s. apcs s = f \<Longrightarrow> current_pos (mem s) = n \<Longrightarrow> length (audit_buf (mem s)) = 100 \<Longrightarrow>
      \<exists>s'. aud_act a s = Some (Inr s') \<and> apcs s' = g \<and> current_pos (mem s') = m \<and> length (audit_buf (mem s')) = 100"
  shows "can_be N M g m"
proof -
  obtain s where s: "aud_reach N M s" "apcs s = f" "current_pos (mem s) = n" "length (audit_buf (mem s)) = 100"
    using assms(1) unfolding can_be_def by blast
  obtain s' where "aud_act a s = Some (Inr s')" and s': "apcs s' = g" "current_pos (mem s') = m" "length (audit_buf (mem s')) = 100"
    using assms(3) [OF s(2-4)] by blast
  from reach_act [OF s(1) assms(2) this(1)] s' show ?thesis unfolding can_be_def by blast
qed

lemma can_enter: "can_be N M f n \<Longrightarrow> f j = A_Idle \<Longrightarrow> j < N \<Longrightarrow> can_be N M (f(j := A_Test c nr st)) n"
  by (erule can_be_move [where a = "Enter j c nr st"]) (simp, clarsimp simp: at_a_def)

lemma can_test: "can_be N M f n \<Longrightarrow> f j = A_Test c nr st \<Longrightarrow> n < 100 \<Longrightarrow> j < N \<Longrightarrow> can_be N M (f(j := A_Ptr c nr st)) n"
  by (erule can_be_move [where a = "Go_On j"]) (simp, clarsimp simp: syscall_step_def at_a_def Let_def AUDIT_BUF_SIZE_def)

lemma can_ptr: "can_be N M f n \<Longrightarrow> f j = A_Ptr c nr st \<Longrightarrow> j < N \<Longrightarrow> can_be N M (f(j := A_Field c nr st n 0)) n"
  by (erule can_be_move [where a = "Go_On j"]) (simp, clarsimp simp: syscall_step_def at_a_def Let_def)

lemma can_field:
  "can_be N M f n \<Longrightarrow> f j = A_Field c nr st p i \<Longrightarrow> p < 100 \<Longrightarrow> j < N \<Longrightarrow>
    can_be N M (f(j := if Suc i < FIELDS then A_Field c nr st p (Suc i) else A_Inc)) n"
  by (erule can_be_move [where a = "Go_On j"]) (simp, clarsimp simp: syscall_step_def at_a_def Let_def)

lemma can_inc:
  "can_be N M f n \<Longrightarrow> f j = A_Inc \<Longrightarrow> j < N \<Longrightarrow> can_be N M (f(j := if n + 1 = 80 then A_Wake else A_Idle)) (n + 1)"
  by (erule can_be_move [where a = "Go_On j"]) (simp, clarsimp simp: syscall_step_def at_a_def Let_def AUDIT_BUF_SIZE_def)

lemma can_wake: "can_be N M f n \<Longrightarrow> f j = A_Wake \<Longrightarrow> j < N \<Longrightarrow> can_be N M (f(j := A_Idle)) n"
  by (erule can_be_move [where a = "Go_On j"]) (simp, clarsimp simp: syscall_step_def at_a_def Let_def)

lemma can_fields:
  assumes "can_be N M f n" "f j = A_Field c nr st p i" "p < 100" "j < N" "i < FIELDS"
  shows "can_be N M (f(j := A_Inc)) n"
  using assms
proof (induction "FIELDS - i" arbitrary: f i)
  case (Suc d)
  note step = can_field [OF Suc.prems(1-4)]
  show ?case
  proof (cases "Suc i < FIELDS")
    case True
    from Suc.hyps(1) [of "Suc i" "f(j := A_Field c nr st p (Suc i))"] True Suc.hyps(2) Suc.prems step show ?thesis by simp
  next
    case False
    with step show ?thesis by simp
  qed
qed simp

lemma can_finish:
  \<comment> \<open>from the pointer to the end of the call\<close>
  assumes "can_be N M f n" "f j = A_Ptr c nr st" "n < 100" "j < N"
  shows "can_be N M (f(j := A_Idle)) (n + 1)"
proof -
  have "can_be N M (f(j := A_Inc)) n"
    using can_fields [OF can_ptr [OF assms(1,2,4)], of j c nr st n 0] assms(3,4) by (simp add: FIELDS_def)
  from can_inc [OF this, of j] assms(4) have "can_be N M (f(j := if n + 1 = 80 then A_Wake else A_Idle)) (n + 1)" by simp
  with can_wake [of N M "f(j := A_Wake)" "n + 1" j] assms(4) show ?thesis by (simp split: if_splits)
qed

lemma can_fill:
  assumes "1 \<le> N" "n \<le> 100"
  shows "can_be N M (\<lambda>_. A_Idle) n"
  using assms(2)
proof (induction n)
  case 0
  show ?case by (rule can_be_start)
next
  case (Suc n)
  then have "can_be N M ((\<lambda>_. A_Idle)(0 := A_Test c nr st)) n" for c nr st using assms(1) by (intro can_enter) simp_all
  from can_test [OF this, where j = 0] Suc.prems assms(1) have "can_be N M ((\<lambda>_. A_Idle)(0 := A_Ptr c nr st)) n" for c nr st
    by simp
  from can_finish [OF this, where j = 0] Suc.prems assms(1) show ?case by (simp add: fun_upd_idem)
qed

lemma can_overrun:
  assumes "2 \<le> N"
  shows "can_be N M ((\<lambda>_. A_Idle)(1 := A_Field c nr st 100 0)) 100"
proof -
  let ?t = "A_Test c nr st" and ?p = "A_Ptr c nr st"
  have "can_be N M ((\<lambda>_. A_Idle)(1 := ?t)) 99" using assms by (intro can_enter can_fill) simp_all
  from can_test [OF this, of 1] assms have "can_be N M ((\<lambda>_. A_Idle)(1 := ?p)) 99" by simp
  from can_enter [OF this, of 0] assms have "can_be N M ((\<lambda>_. A_Idle)(1 := ?p, 0 := ?t)) 99" by simp
  from can_test [OF this, of 0] assms have "can_be N M ((\<lambda>_. A_Idle)(1 := ?p, 0 := ?p)) 99" by simp
  from can_finish [OF this, of 0] assms have "can_be N M ((\<lambda>_. A_Idle)(1 := ?p, 0 := ?p, 0 := A_Idle)) 100" by simp
  moreover have "(\<lambda>_ :: nat. A_Idle)(1 := ?p, 0 := ?p, 0 := A_Idle) = (\<lambda>_. A_Idle)(1 := ?p)" by (simp add: fun_eq_iff)
  ultimately have "can_be N M ((\<lambda>_. A_Idle)(1 := ?p)) 100" by simp
  from can_ptr [OF this, of 1] assms show ?thesis by simp
qed

section \<open>Properties\<close>

text \<open>
  C13: unlocked, the log is safe for one caller and for no more, whatever the number of readers. With
  one process making system calls, however its statements are interleaved with those of the readers,
  no statement leaves the buffer; with two or more, the buffer is overrun: both find the last slot
  free, and the second writes behind the array.
\<close>

theorem audit_overrun_iff:
  assumes "1 \<le> N"
  shows "(\<exists>s a. aud_reach N M s \<and> aud_allowed N M a \<and> aud_act a s = Some (Inl OutOfBounds)) \<longleftrightarrow> 2 \<le> N"
proof
  assume "\<exists>s a. aud_reach N M s \<and> aud_allowed N M a \<and> aud_act a s = Some (Inl OutOfBounds)"
  then show "2 \<le> N" using aud_fault [OF aud.reach_inv [OF _ aud_inv_start [OF assms]]] by blast
next
  assume N: "2 \<le> N"
  obtain s where s: "aud_reach N M s" "length (audit_buf (mem s)) = 100"
    "apcs s = (\<lambda>_. A_Idle)(1 := A_Field demo_caller 0 0 100 0)"
    using can_overrun [OF N, of M demo_caller 0 0] unfolding can_be_def by blast
  then have "aud_act (Go_On 1) s = Some (Inl OutOfBounds)" by (simp add: syscall_step_def Let_def)
  with s(1) N show "\<exists>s a. aud_reach N M s \<and> aud_allowed N M a \<and> aud_act a s = Some (Inl OutOfBounds)"
    by (intro exI [of _ s] exI [of _ "Go_On 1"]) simp
qed

lemma audit_overrun_iff_witness:
  "\<not> (\<exists>s a. aud_reach 1 2 s \<and> aud_allowed 1 2 a \<and> aud_act a s = Some (Inl OutOfBounds)) \<and>
   (\<exists>s a. aud_reach 3 1 s \<and> aud_allowed 3 1 a \<and> aud_act a s = Some (Inl OutOfBounds))"
  using audit_overrun_iff [of 1 2] audit_overrun_iff [of 3 1] by simp

text \<open>
  The overrun is bounded: with \<open>N\<close> callers the position never passes \<open>99 + N\<close>.
\<close>

theorem audit_position_bound:
  assumes "1 \<le> N" "aud_reach N M s"
  shows "current_pos (mem s) \<le> 99 + N"
  using aud.reach_inv [OF assms(2) aud_inv_start [OF assms(1)]] by (simp add: aud_inv_def)

text \<open>
  A read that a signal starts on an empty buffer, with a call between its copy and its reset; and two
  reads of one record, the second of which resets the position before the first looks at it.
\<close>

definition one_call :: "aact list" where
  "one_call = Enter 0 demo_caller 5 0 # replicate 13 (Go_On 0)"

definition lost_run :: "aact list" where
  "lost_run = [Enter_Read 0 5200, Read_On 0 True, Read_On 0 True] @ one_call @ [Read_On 0 False, Read_On 0 False]"

definition twice_run :: "aact list" where
  "twice_run = one_call @ [Enter_Read 0 5200, Read_On 0 True, Read_On 0 True, Enter_Read 1 5200, Read_On 1 True,
     Read_On 1 True, Read_On 1 False, Read_On 1 False, Read_On 0 False, Read_On 0 False]"

lemma runs_allowed: "list_all (aud_allowed 1 1) lost_run" "list_all (aud_allowed 1 2) twice_run"
  by (simp_all add: lost_run_def twice_run_def one_call_def eval_nat_numeral)

definition demo_record :: syscall_buf where
  "demo_record = audit_record demo_caller 5 0 0"

lemma lost_run_result:
  "map_option (\<lambda>s. (reads s, current_pos (mem s))) (run_acts aud_act lost_run aud_start) = Some ([(1, [])], 0)"
  by code_simp

lemma twice_run_result:
  "map_option reads (run_acts aud_act twice_run aud_start) = Some [(1, [demo_record]), (0, [demo_record])]"
  by code_simp

text \<open>With one reader, only that reader lowers the position, so it never returns fewer records than it copied.\<close>

definition reads_inv :: "aud \<Rightarrow> bool" where
  "reads_inv s \<longleftrightarrow> (\<forall>(ret, out) \<in> set (reads s). int (length out) \<le> ret) \<and>
     (case rpcs s 0 of R_Ret out \<Rightarrow> length out \<le> current_pos (mem s) | R_Reset out ret \<Rightarrow> int (length out) \<le> ret | _ \<Rightarrow> True)"

lemma syscall_step_reads:
  assumes "syscall_step j s = Some (Inr s')"
  shows "reads s' = reads s \<and> rpcs s' = rpcs s \<and> current_pos (mem s) \<le> current_pos (mem s')"
  by (cases "apcs s j") (use assms in \<open>auto simp: syscall_step_def at_a_def Let_def split: if_split_asm\<close>)

lemma reads_inv_act:
  assumes "reads_inv s" "aud_allowed N 1 a" "aud_act a s = Some (Inr s')"
  shows "reads_inv s'"
proof (cases a)
  case (Go_On j)
  then have "reads s' = reads s" "rpcs s' = rpcs s" "current_pos (mem s) \<le> current_pos (mem s')"
    using syscall_step_reads [of j s s'] assms(3) by simp_all
  with assms(1) show ?thesis by (cases "rpcs s 0") (auto simp: reads_inv_def)
next
  case (Read_On i sig)
  then have "i = 0" using assms(2) by simp
  with assms Read_On show ?thesis
    by (cases "rpcs s 0") (auto simp: sys_audit_step_def reads_inv_def Let_def at_r_def split: if_split_asm)
qed (use assms in \<open>auto simp: reads_inv_def at_a_def at_r_def split: if_split_asm rpc.splits\<close>)

interpretation aud_reads: machine aud_act "aud_allowed N 1" reads_inv for N
  by unfold_locales (rule reads_inv_act)



end
