(* ===== verification/Mutex_Threads.thy ===== *)
theory Mutex_Threads
  imports Mutex_Dev Threads
begin

text \<open>
  The two handlers of \<open>mutex/mutex.c\<close> called by several threads at once. A step is one statement of
  one thread, and \<open>copy_to_user\<close> and \<open>copy_from_user\<close> move one byte a step, so a copy can be
  interleaved with the other threads wherever the lock allows it. The mutex is the kernel's, an
  argument: \<open>m_lock\<close> is \<open>None\<close> while it blocks. \<open>hist\<close> and \<open>printed\<close> are not in the code: the calls that
  returned, in the order they released the mutex, with what they gave, and the events of all calls.
\<close>

record 'm mutex_api =
  m_lock :: "'m \<Rightarrow> 'm option"
  m_unlock :: "'m \<Rightarrow> 'm"
  m_held :: "'m \<Rightarrow> bool"

definition mutex_ok :: "'m mutex_api \<Rightarrow> bool" where
  "mutex_ok api \<longleftrightarrow>
     (\<forall>m. m_lock api m = None \<longleftrightarrow> m_held api m) \<and>
     (\<forall>m m'. m_lock api m = Some m' \<longrightarrow> m_held api m') \<and>
     (\<forall>m. \<not> m_held api (m_unlock api m))"

datatype mpc =
    M_Idle
  | M_Lock dev_call
  | M_Copy dev_call nat "char list"  \<comment> \<open>how many bytes were moved, and those a read put into user memory\<close>
  | M_Log dev_call "char list"
  | M_Unlock dev_call "char list" int

type_synonym outcome = "dev_call \<times> int \<times> char list"

record 'm mdev =
  dev :: mutex_dev
  resource_mutex :: 'm
  mpcs :: "nat \<Rightarrow> mpc"
  hist :: "outcome list"
  printed :: "kev list"

definition at_m :: "nat \<Rightarrow> mpc \<Rightarrow> 'm mdev \<Rightarrow> 'm mdev" where
  "at_m j pc s = s\<lparr>mpcs := (mpcs s)(j := pc)\<rparr>"

fun copy_len :: "dev_call \<Rightarrow> mutex_dev \<Rightarrow> nat" where
  "copy_len (Read_Call count left) d = length (take (min count 1024 - left) (shared_resource d))"
| "copy_len (Write_Call u count) d = length (take (min count 1024) (moved u))"

definition read_step :: "'m mutex_api \<Rightarrow> nat \<Rightarrow> nat \<Rightarrow> nat \<Rightarrow> 'm mdev \<Rightarrow> (fault + 'm mdev) option" where
  \<comment> \<open>the next statement of \<open>my_read\<close> in thread \<open>j\<close>, called with \<open>count\<close>\<close>
  "read_step api count left j s =
     (let c = Read_Call count left; d = dev s in
      case mpcs s j of
        M_Lock _ \<Rightarrow> map_option (\<lambda>m. Inr (at_m j (M_Copy c 0 [])
          (s\<lparr>resource_mutex := m, printed := printed s @ [Get Mutex 0]\<rparr>))) (m_lock api (resource_mutex s))
      | M_Copy _ i bs \<Rightarrow>
          Some (if i < copy_len c d then Inr (at_m j (M_Copy c (Suc i) (bs @ [shared_resource d ! i])) s)
                else Inr (at_m j (M_Log c bs) s))
      | M_Log _ bs \<Rightarrow>
          Some (if left = 0
                then bindF (str_arg (shared_resource d)) (\<lambda>str. Inr (at_m j (M_Unlock c bs 1024)
                       (s\<lparr>printed := printed s @ [pr_info (''Read successful:'' @ str @ [NL])]\<rparr>)))
                else Inr (at_m j (M_Unlock c bs (- EFAULT))
                       (s\<lparr>printed := printed s @ [pr_err (''Failed to copy data to user space'' @ [NL])]\<rparr>)))
      | M_Unlock _ bs ret \<Rightarrow>
          Some (Inr (at_m j M_Idle (s\<lparr>resource_mutex := m_unlock api (resource_mutex s),
            printed := printed s @ [Put Mutex], hist := hist s @ [(c, ret, bs)]\<rparr>)))
      | M_Idle \<Rightarrow> None)"

definition write_step :: "'m mutex_api \<Rightarrow> ucopy \<Rightarrow> nat \<Rightarrow> nat \<Rightarrow> 'm mdev \<Rightarrow> (fault + 'm mdev) option" where
  \<comment> \<open>the next statement of \<open>my_write\<close> in thread \<open>j\<close>\<close>
  "write_step api u count j s =
     (let c = Write_Call u count; d = dev s in
      case mpcs s j of
        M_Lock _ \<Rightarrow> map_option (\<lambda>m. Inr (at_m j (M_Copy c 0 [])
          (s\<lparr>resource_mutex := m, printed := printed s @ [Get Mutex 0]\<rparr>))) (m_lock api (resource_mutex s))
      | M_Copy _ i bs \<Rightarrow>
          Some (if i < copy_len c d then
                  if i < length (shared_resource d)
                  then Inr (at_m j (M_Copy c (Suc i) bs)
                         (s\<lparr>dev := d\<lparr>shared_resource := (shared_resource d)[i := moved u ! i]\<rparr>\<rparr>))
                  else Inl OutOfBounds
                else Inr (at_m j (M_Log c bs) s))
      | M_Log _ bs \<Rightarrow>
          Some (if not_copied u = 0
                then bindF (str_arg (shared_resource d)) (\<lambda>str. Inr (at_m j (M_Unlock c bs (int count))
                       (s\<lparr>printed := printed s @ [pr_info (''Write successful:'' @ str @ [NL])]\<rparr>)))
                else Inr (at_m j (M_Unlock c bs (- EFAULT))
                       (s\<lparr>printed := printed s @ [pr_err (''Failed to copy data from user space'' @ [NL])]\<rparr>)))
      | M_Unlock _ bs ret \<Rightarrow>
          Some (Inr (at_m j M_Idle (s\<lparr>resource_mutex := m_unlock api (resource_mutex s),
            printed := printed s @ [Put Mutex], hist := hist s @ [(c, ret, bs)]\<rparr>)))
      | M_Idle \<Rightarrow> None)"

fun call_of :: "mpc \<Rightarrow> dev_call option" where
  "call_of M_Idle = None"
| "call_of (M_Lock c) = Some c"
| "call_of (M_Copy c i bs) = Some c"
| "call_of (M_Log c bs) = Some c"
| "call_of (M_Unlock c bs ret) = Some c"

definition call_step :: "'m mutex_api \<Rightarrow> nat \<Rightarrow> 'm mdev \<Rightarrow> (fault + 'm mdev) option" where
  "call_step api j s =
     (case call_of (mpcs s j) of
        None \<Rightarrow> None
      | Some (Read_Call count left) \<Rightarrow> read_step api count left j s
      | Some (Write_Call u count) \<Rightarrow> write_step api u count j s)"

text \<open>A thread enters a handler, or goes on in it.\<close>

datatype mact = M_Enter nat dev_call | M_Go nat

fun mdev_act :: "'m mutex_api \<Rightarrow> mact \<Rightarrow> 'm mdev \<Rightarrow> (fault + 'm mdev) option" where
  "mdev_act api (M_Enter j c) s = (if mpcs s j = M_Idle then Some (Inr (at_m j (M_Lock c) s)) else None)"
| "mdev_act api (M_Go j) s = call_step api j s"

definition mdev_start :: "mutex_dev \<Rightarrow> 'm \<Rightarrow> 'm mdev" where
  "mdev_start d m = \<lparr>dev = d, resource_mutex = m, mpcs = (\<lambda>_. M_Idle), hist = [], printed = []\<rparr>"

abbreviation mdev_reach :: "'m mutex_api \<Rightarrow> mutex_dev \<Rightarrow> 'm \<Rightarrow> 'm mdev \<Rightarrow> bool" where
  "mdev_reach api d m s \<equiv> reach (mdev_act api) (\<lambda>_. True) (mdev_start d m) s"

section \<open>One call after the other\<close>

text \<open>The specification: the handlers of \<open>Mutex_Dev\<close>, each from beginning to end.\<close>

fun whole :: "dev_call \<Rightarrow> mutex_dev \<Rightarrow> fault + (int \<times> char list \<times> mutex_dev \<times> kev list)" where
  "whole (Read_Call count left) d = bindF (my_read count left d) (\<lambda>(ret, bs, t). Inr (ret, bs, d, t))"
| "whole (Write_Call u count) d = bindF (my_write u count d) (\<lambda>(ret, d', t). Inr (ret, [], d', t))"

fun serial_run :: "dev_call list \<Rightarrow> mutex_dev \<Rightarrow> fault + (outcome list \<times> kev list \<times> mutex_dev)" where
  "serial_run [] d = Inr ([], [], d)"
| "serial_run (c # cs) d = bindF (whole c d) (\<lambda>(ret, bs, d1, t).
     bindF (serial_run cs d1) (\<lambda>(rs, ts, d2). Inr ((c, ret, bs) # rs, t @ ts, d2)))"

lemma serial_run_snoc:
  "serial_run cs d = Inr (rs, ts, d1) \<Longrightarrow> whole c d1 = Inr (ret, bs, d2, t) \<Longrightarrow>
    serial_run (cs @ [c]) d = Inr (rs @ [(c, ret, bs)], ts @ t, d2)"
proof (induction cs arbitrary: d rs ts)
  case (Cons c' cs)
  then show ?case by (fastforce simp: bindF_Inr)
qed simp

section \<open>What a call in its critical section has done\<close>

text \<open>
  \<open>so_far c pc d d' t\<close>: a call of \<open>c\<close> that found the device \<open>d\<close> has made it \<open>d'\<close> and printed \<open>t\<close> when it is
  at \<open>pc\<close>.
\<close>

definition partial :: "dev_call \<Rightarrow> nat \<Rightarrow> mutex_dev \<Rightarrow> mutex_dev" where
  "partial c i d = (case c of Read_Call _ _ \<Rightarrow> d
     | Write_Call u _ \<Rightarrow> d\<lparr>shared_resource := take i (moved u) @ drop i (shared_resource d)\<rparr>)"

definition given :: "dev_call \<Rightarrow> nat \<Rightarrow> mutex_dev \<Rightarrow> char list" where
  "given c i d = (case c of Read_Call _ _ \<Rightarrow> take i (shared_resource d) | Write_Call _ _ \<Rightarrow> [])"

fun so_far :: "mpc \<Rightarrow> mutex_dev \<Rightarrow> mutex_dev \<Rightarrow> kev list \<Rightarrow> bool" where
  "so_far (M_Copy c i bs) d d' t \<longleftrightarrow> i \<le> copy_len c d \<and> bs = given c i d \<and> d' = partial c i d \<and> t = [Get Mutex 0]"
| "so_far (M_Log c bs) d d' t \<longleftrightarrow> bs = given c (copy_len c d) d \<and> d' = partial c (copy_len c d) d \<and> t = [Get Mutex 0]"
| "so_far (M_Unlock c bs ret) d d' t \<longleftrightarrow> whole c d = Inr (ret, bs, d', t @ [Put Mutex])"
| "so_far _ d d' t \<longleftrightarrow> False"

fun inside :: "mpc \<Rightarrow> bool" where
  "inside (M_Copy c i bs) = True"
| "inside (M_Log c bs) = True"
| "inside (M_Unlock c bs ret) = True"
| "inside _ = False"

lemma copy_len_le: "length (shared_resource d) = 1024 \<Longrightarrow> copy_len c d \<le> 1024"
  by (cases c) auto

lemma copy_len_partial: "length (shared_resource d) = 1024 \<Longrightarrow> i \<le> copy_len c d \<Longrightarrow> copy_len c (partial c i d) = copy_len c d"
  by (cases c) (auto simp: partial_def)

lemma whole_log:
  "length (shared_resource d) = 1024 \<Longrightarrow> whole (Read_Call count left) d =
     (if left = 0 then bindF (str_arg (shared_resource d)) (\<lambda>str. Inr (1024, given (Read_Call count left) (copy_len (Read_Call count left) d) d, d,
          [Get Mutex 0, pr_info (''Read successful:'' @ str @ [NL]), Put Mutex]))
      else Inr (- EFAULT, given (Read_Call count left) (copy_len (Read_Call count left) d) d, d,
          [Get Mutex 0, pr_err (''Failed to copy data to user space'' @ [NL]), Put Mutex]))"
  by (auto simp: my_read_def Let_def given_def bindF_def split: sum.splits)

lemma whole_write:
  assumes "length (shared_resource d) = 1024"
  shows "whole (Write_Call u count) d =
     (let d' = partial (Write_Call u count) (copy_len (Write_Call u count) d) d in
      if not_copied u = 0 then bindF (str_arg (shared_resource d')) (\<lambda>str. Inr (int count, [], d',
          [Get Mutex 0, pr_info (''Write successful:'' @ str @ [NL]), Put Mutex]))
      else Inr (- EFAULT, [], d', [Get Mutex 0, pr_err (''Failed to copy data from user space'' @ [NL]), Put Mutex]))"
proof -
  let ?n = "min count 1024"
  have "from_user (shared_resource d) u ?n =
      Inr (shared_resource (partial (Write_Call u count) (copy_len (Write_Call u count) d) d))"
    using assms by (auto simp: from_user_def partial_def min_def)
  then show ?thesis by (simp add: my_write_def Let_def partial_def bindF_def split: sum.splits)
qed

lemma whole_length:
  assumes "whole c d = Inr (ret, bs, d', t)" "length (shared_resource d) = 1024"
  shows "length (shared_resource d') = 1024"
proof (cases c)
  case (Write_Call u count)
  then obtain ret t where "my_write u count d = Inr (ret, d', t)" using assms(1) by (auto simp: bindF_Inr)
  then show ?thesis by (rule mutex_dev.write_length [OF assms(2)])
qed (use assms in \<open>auto simp: bindF_Inr\<close>)

text \<open>One byte more, and the rest of a call: the log line and the result.\<close>

lemma partial_Suc:
  assumes "length (shared_resource d) = 1024" "i < copy_len (Write_Call u count) d"
  shows "i < length (shared_resource (partial (Write_Call u count) i d))"
    "(partial (Write_Call u count) i d)\<lparr>shared_resource :=
       (shared_resource (partial (Write_Call u count) i d))[i := moved u ! i]\<rparr> = partial (Write_Call u count) (Suc i) d"
  using assms by (auto simp: partial_def list_update_append take_Suc_conv_app_nth Cons_nth_drop_Suc [symmetric])

lemma inside_step:
  assumes d: "length (shared_resource d) = 1024" and pc: "inside (mpcs s j)" "so_far (mpcs s j) d (dev s) t'"
    and st: "call_step api j s = Some (Inr s')" and ins: "inside (mpcs s' j)"
  shows "\<exists>e. so_far (mpcs s' j) d (dev s') (t' @ e) \<and> printed s' = printed s @ e \<and>
    mpcs s' = (mpcs s)(j := mpcs s' j) \<and> hist s' = hist s \<and> resource_mutex s' = resource_mutex s"
proof (cases "mpcs s j")
  case (M_Copy c i bs)
  show ?thesis
  proof (cases c)
    case (Read_Call count left)
    have "i < copy_len c d \<Longrightarrow> i < length (shared_resource d)" by (simp add: Read_Call)
    with M_Copy st pc Read_Call show ?thesis
      by (auto simp: call_step_def read_step_def at_m_def Let_def given_def partial_def take_Suc_conv_app_nth
        simp del: copy_len.simps split: if_split_asm)
  next
    case (Write_Call u count)
    have "i < copy_len c d \<longleftrightarrow> i < copy_len c (dev s)" by (simp add: Write_Call)
    with M_Copy st pc Write_Call partial_Suc [OF d, of i u count] show ?thesis
      by (auto simp: call_step_def write_step_def at_m_def Let_def given_def simp del: copy_len.simps split: if_split_asm)
  qed
next
  case (M_Log c bs)
  with st pc d show ?thesis
    by (cases c) (auto simp: call_step_def read_step_def write_step_def at_m_def Let_def bindF_Inr whole_log
      whole_write given_def partial_def simp del: whole.simps copy_len.simps split: if_split_asm)
next
  case (M_Unlock c bs ret)
  with st ins show ?thesis
    by (cases c) (auto simp: call_step_def read_step_def write_step_def at_m_def Let_def)
qed (use pc(1) in simp_all)

lemma inside_fault:
  assumes d: "length (shared_resource d) = 1024" and pc: "inside (mpcs s j)" "so_far (mpcs s j) d (dev s) t'"
    and st: "call_step api j s = Some (Inl f)"
  shows "\<exists>c. call_of (mpcs s j) = Some c \<and> whole c d = Inl f"
proof (cases "mpcs s j")
  case (M_Copy c i bs)
  with st pc partial_Suc(1) [OF d] show ?thesis
    by (cases c) (auto simp: call_step_def read_step_def write_step_def Let_def split: if_split_asm)
next
  case (M_Log c bs)
  with st pc d show ?thesis
    by (cases c) (auto simp: call_step_def read_step_def write_step_def Let_def bindF_Inl whole_log
      whole_write partial_def simp del: whole.simps copy_len.simps split: if_split_asm)
next
  case (M_Unlock c bs ret)
  with st show ?thesis by (cases c) (auto simp: call_step_def read_step_def write_step_def Let_def)
qed (use pc(1) in simp_all)

section \<open>The invariant\<close>

definition mdev_inv :: "'m mutex_api \<Rightarrow> mutex_dev \<Rightarrow> 'm mdev \<Rightarrow> bool" where
  "mdev_inv api d0 s \<longleftrightarrow> (\<exists>t d. serial_run (map fst (hist s)) d0 = Inr (hist s, t, d) \<and> length (shared_resource d) = 1024 \<and>
     (if m_held api (resource_mutex s)
      then \<exists>j t'. inside (mpcs s j) \<and> (\<forall>i. inside (mpcs s i) \<longrightarrow> i = j) \<and> so_far (mpcs s j) d (dev s) t' \<and> printed s = t @ t'
      else (\<forall>i. \<not> inside (mpcs s i)) \<and> dev s = d \<and> printed s = t))"

lemma mdev_inv_start: "length (shared_resource d) = 1024 \<Longrightarrow> \<not> m_held api m \<Longrightarrow> mdev_inv api d (mdev_start d m)"
  by (simp add: mdev_inv_def mdev_start_def)

lemma lock_step:
  assumes "mutex_ok api" "mpcs s j = M_Lock c" "call_step api j s = Some r"
  obtains m where "\<not> m_held api (resource_mutex s)" "m_held api m"
    "r = Inr (at_m j (M_Copy c 0 []) (s\<lparr>resource_mutex := m, printed := printed s @ [Get Mutex 0]\<rparr>))"
proof -
  obtain m where m: "m_lock api (resource_mutex s) = Some m"
    "r = Inr (at_m j (M_Copy c 0 []) (s\<lparr>resource_mutex := m, printed := printed s @ [Get Mutex 0]\<rparr>))"
    using assms(2,3) by (cases c) (auto simp: call_step_def read_step_def write_step_def Let_def)
  then have "\<not> m_held api (resource_mutex s)" "m_held api m"
    using assms(1) unfolding mutex_ok_def by (metis option.distinct(1), metis)
  with m show thesis by (intro that)
qed

lemma unlock_step:
  assumes "mpcs s j = M_Unlock c bs ret" "call_step api j s = Some r"
  shows "r = Inr (at_m j M_Idle (s\<lparr>resource_mutex := m_unlock api (resource_mutex s),
    printed := printed s @ [Put Mutex], hist := hist s @ [(c, ret, bs)]\<rparr>))"
  using assms by (cases c) (auto simp: call_step_def read_step_def write_step_def Let_def)

lemma outside_step:
  assumes "\<not> inside (mpcs s j)" "call_step api j s = Some r"
  obtains c where "mpcs s j = M_Lock c"
  using assms by (cases "mpcs s j") (auto simp: call_step_def)

lemma mdev_inv_free:
  "\<not> m_held api (resource_mutex s) \<Longrightarrow> mdev_inv api d0 s \<longleftrightarrow>
    (\<exists>t d. serial_run (map fst (hist s)) d0 = Inr (hist s, t, d) \<and> length (shared_resource d) = 1024 \<and>
       (\<forall>i. \<not> inside (mpcs s i)) \<and> dev s = d \<and> printed s = t)"
  unfolding mdev_inv_def by (simp only: if_False)

lemma mdev_inv_held:
  "m_held api (resource_mutex s) \<Longrightarrow> mdev_inv api d0 s \<longleftrightarrow>
    (\<exists>t d. serial_run (map fst (hist s)) d0 = Inr (hist s, t, d) \<and> length (shared_resource d) = 1024 \<and>
       (\<exists>j t'. inside (mpcs s j) \<and> (\<forall>i. inside (mpcs s i) \<longrightarrow> i = j) \<and> so_far (mpcs s j) d (dev s) t' \<and> printed s = t @ t'))"
  unfolding mdev_inv_def by (simp only: if_True)

lemma held_inside:
  assumes "mdev_inv api d0 s" "inside (mpcs s j)"
  shows "m_held api (resource_mutex s)"
proof (rule ccontr)
  assume "\<not> m_held api (resource_mutex s)"
  from mdev_inv_free [OF this] assms show False by blast
qed

lemma mdev_inv_insideE:
  assumes "mdev_inv api d0 s" "inside (mpcs s j)"
  obtains t d t' where "serial_run (map fst (hist s)) d0 = Inr (hist s, t, d)" "length (shared_resource d) = 1024"
    "\<And>i. inside (mpcs s i) \<Longrightarrow> i = j" "so_far (mpcs s j) d (dev s) t'" "printed s = t @ t'"
proof -
  obtain t d i t' where i: "serial_run (map fst (hist s)) d0 = Inr (hist s, t, d)" "length (shared_resource d) = 1024"
    "\<forall>k. inside (mpcs s k) \<longrightarrow> k = i" "so_far (mpcs s i) d (dev s) t'" "printed s = t @ t'"
    using assms(1) mdev_inv_held [OF held_inside [OF assms]] by blast
  moreover have "j = i" using i(3) assms(2) by blast
  ultimately show thesis using that by blast
qed

lemma mdev_inv_insideI:
  assumes "serial_run (map fst (hist s)) d0 = Inr (hist s, t, d)" "length (shared_resource d) = 1024"
    "m_held api (resource_mutex s)" "inside (mpcs s j)" "\<And>i. inside (mpcs s i) \<Longrightarrow> i = j"
    "so_far (mpcs s j) d (dev s) t'" "printed s = t @ t'"
  shows "mdev_inv api d0 s"
  using assms mdev_inv_held [OF assms(3)] by blast

lemma go_inv_lock:
  assumes "mutex_ok api" "mdev_inv api d0 s" "mpcs s j = M_Lock c" "call_step api j s = Some (Inr s')"
  shows "mdev_inv api d0 s'"
proof -
  obtain m where m: "\<not> m_held api (resource_mutex s)" "m_held api m"
    and s': "s' = at_m j (M_Copy c 0 []) (s\<lparr>resource_mutex := m, printed := printed s @ [Get Mutex 0]\<rparr>)"
    by (rule lock_step [OF assms(1,3,4)]) simp
  obtain t d where run: "serial_run (map fst (hist s)) d0 = Inr (hist s, t, d)" "length (shared_resource d) = 1024"
    and free: "\<forall>i. \<not> inside (mpcs s i)" "dev s = d" "printed s = t"
    using assms(2) mdev_inv_free [OF m(1)] by blast
  have "partial c 0 d = d" "given c 0 d = []" by (simp_all add: partial_def given_def split: dev_call.splits)
  then have f: "so_far (mpcs s' j) d (dev s') [Get Mutex 0]" using free(2) by (simp add: s' at_m_def)
  have one: "inside (mpcs s' i) \<Longrightarrow> i = j" for i using free(1) by (simp add: s' at_m_def split: if_split_asm)
  show ?thesis
    by (rule mdev_inv_insideI [OF _ run(2) _ _ one f, where t = t]) (simp_all add: s' at_m_def run(1) m(2) free(3))
qed

lemma go_inv_unlock:
  assumes "mutex_ok api" "mdev_inv api d0 s" "mpcs s j = M_Unlock c bs ret" "call_step api j s = Some (Inr s')"
  shows "mdev_inv api d0 s'"
proof -
  have s': "s' = at_m j M_Idle (s\<lparr>resource_mutex := m_unlock api (resource_mutex s),
      printed := printed s @ [Put Mutex], hist := hist s @ [(c, ret, bs)]\<rparr>)"
    using unlock_step [OF assms(3,4)] by simp
  have "inside (mpcs s j)" by (simp add: assms(3))
  then obtain t d t' where run: "serial_run (map fst (hist s)) d0 = Inr (hist s, t, d)" "length (shared_resource d) = 1024"
    and only: "\<And>i. inside (mpcs s i) \<Longrightarrow> i = j" and w: "so_far (mpcs s j) d (dev s) t'" and p: "printed s = t @ t'"
    using mdev_inv_insideE [OF assms(2)] by blast
  from w have w: "whole c d = Inr (ret, bs, dev s, t' @ [Put Mutex])" by (simp add: assms(3))
  have "serial_run (map fst (hist s) @ [c]) d0 = Inr (hist s @ [(c, ret, bs)], t @ t' @ [Put Mutex], dev s)"
    by (rule serial_run_snoc [OF run(1) w])
  moreover have free: "\<not> m_held api (resource_mutex s')" using assms(1) by (simp add: mutex_ok_def s' at_m_def)
  moreover have "\<not> inside (mpcs s' i)" for i using only by (auto simp: s' at_m_def)
  ultimately show ?thesis using whole_length [OF w run(2)] p
    by (simp add: mdev_inv_free [OF free]) (simp add: s' at_m_def)
qed

lemma go_inv_inside:
  assumes "mdev_inv api d0 s" "inside (mpcs s j)" "call_step api j s = Some (Inr s')" "inside (mpcs s' j)"
  shows "mdev_inv api d0 s'"
proof -
  obtain t d t' where run: "serial_run (map fst (hist s)) d0 = Inr (hist s, t, d)" "length (shared_resource d) = 1024"
    and only: "\<And>i. inside (mpcs s i) \<Longrightarrow> i = j" and f: "so_far (mpcs s j) d (dev s) t'" and p: "printed s = t @ t'"
    using mdev_inv_insideE [OF assms(1,2)] by blast
  obtain e where e: "so_far (mpcs s' j) d (dev s') (t' @ e)" "printed s' = printed s @ e"
    "mpcs s' = (mpcs s)(j := mpcs s' j)" "hist s' = hist s" "resource_mutex s' = resource_mutex s"
    using inside_step [OF run(2) assms(2) f assms(3,4)] by blast
  have one: "inside (mpcs s' i) \<Longrightarrow> i = j" for i using only [of i] e(3) by (metis fun_upd_other)
  show ?thesis
    by (rule mdev_inv_insideI [OF _ run(2) _ assms(4) one e(1)])
      (simp_all add: e(2,4,5) p run(1) held_inside [OF assms(1,2)])
qed

lemma inside_stays:
  assumes "inside (mpcs s j)" "call_step api j s = Some (Inr s')"
  shows "inside (mpcs s' j) \<or> (\<exists>c bs ret. mpcs s j = M_Unlock c bs ret)"
proof (cases "mpcs s j")
  case (M_Copy c i bs)
  with assms(2) show ?thesis by (cases c) (auto simp: call_step_def read_step_def write_step_def at_m_def Let_def split: if_split_asm)
next
  case (M_Log c bs)
  with assms(2) show ?thesis
    by (cases c) (auto simp: call_step_def read_step_def write_step_def at_m_def Let_def bindF_Inr split: if_split_asm)
qed (use assms(1) in simp_all)

lemma mdev_act_inv:
  assumes "mutex_ok api" "mdev_inv api d0 s" "mdev_act api a s = Some (Inr s')"
  shows "mdev_inv api d0 s'"
proof (cases a)
  case (M_Enter j c)
  then have s': "s' = at_m j (M_Lock c) s" "mpcs s j = M_Idle" using assms(3) by (auto split: if_splits)
  then have i: "inside (mpcs s' i) = inside (mpcs s i)" "inside (mpcs s i) \<Longrightarrow> mpcs s' i = mpcs s i" for i
    by (auto simp: at_m_def)
  have f: "hist s' = hist s" "printed s' = printed s" "dev s' = dev s" "resource_mutex s' = resource_mutex s"
    by (simp_all add: s' at_m_def)
  have "so_far (mpcs s' i) d (dev s) t' = so_far (mpcs s i) d (dev s) t'" if "inside (mpcs s i)" for i d t'
    using i(2) [OF that] by simp
  then show ?thesis using assms(2) unfolding mdev_inv_def f i(1) by (smt (verit, best))
next
  case (M_Go j)
  then have st: "call_step api j s = Some (Inr s')" using assms(3) by simp
  show ?thesis
  proof (cases "inside (mpcs s j)")
    case True
    with inside_stays [OF True st] go_inv_inside [OF assms(2) True st] go_inv_unlock [OF assms(1,2) _ st] show ?thesis by blast
  next
    case False
    then show ?thesis using outside_step [OF False st] go_inv_lock [OF assms(1,2) _ st] by blast
  qed
qed

interpretation mdev: machine "mdev_act api" "\<lambda>_. True" "\<lambda>s. mutex_ok api \<and> mdev_inv api d s" for api d
  by unfold_locales (blast intro: mdev_act_inv)

text \<open>No deadlock: while some thread is in a handler, some thread can move (or faults).\<close>

lemma inside_moves: "inside (mpcs s j) \<Longrightarrow> call_step api j s \<noteq> None"
  by (cases "mpcs s j"; (cases "the (call_of (mpcs s j))")?)
    (auto simp: call_step_def read_step_def write_step_def Let_def)

lemma mdev_progress:
  assumes "mutex_ok api" "mdev_inv api d s" "mpcs s j \<noteq> M_Idle"
  shows "\<exists>i. mdev_act api (M_Go i) s \<noteq> None"
proof (cases "m_held api (resource_mutex s)")
  case True
  then obtain i where "inside (mpcs s i)" using assms(2) mdev_inv_held by blast
  from inside_moves [OF this] show ?thesis by (intro exI [of _ i]) simp
next
  case False
  then have "\<not> inside (mpcs s j)" using held_inside [OF assms(2)] by blast
  then obtain c where c: "mpcs s j = M_Lock c" using assms(3) by (cases "mpcs s j") auto
  obtain m where "m_lock api (resource_mutex s) = Some m"
    using False assms(1) unfolding mutex_ok_def by (meson option.exhaust)
  with c have "call_step api j s \<noteq> None"
    by (cases c) (simp_all add: call_step_def read_step_def write_step_def Let_def)
  then show ?thesis by (intro exI [of _ j]) simp
qed

section \<open>Properties\<close>

text \<open>
  A small instance: a mutex that is a flag, two threads, a device full of zeros.
\<close>

definition flag_mutex :: "bool mutex_api" where
  "flag_mutex = \<lparr>m_lock = (\<lambda>b. if b then None else Some True), m_unlock = (\<lambda>_. False), m_held = (\<lambda>b. b)\<rparr>"

definition zero_dev :: mutex_dev where
  "zero_dev = \<lparr>major = 240, shared_resource = replicate 1024 NUL\<rparr>"

definition two_threads :: "mact list" where
  \<comment> \<open>thread 1 enters while thread 0 writes, and waits for the mutex\<close>
  "two_threads = [M_Enter 0 (Write_Call \<lparr>not_copied = 0, moved = ''ab''\<rparr> 2), M_Go 0, M_Go 0, M_Enter 1 (Read_Call 2 0),
     M_Go 0, M_Go 0, M_Go 0, M_Go 0] @ replicate 6 (M_Go 1)"

lemma two_threads_run:
  "map_option hist (run_acts (mdev_act flag_mutex) two_threads (mdev_start zero_dev False)) =
    Some [(Write_Call \<lparr>not_copied = 0, moved = ''ab''\<rparr> 2, 2, []), (Read_Call 2 0, 1024, ''ab'')]"
  by code_simp

text \<open>
  C5: the locked device is serial. However the calls of any number of threads are interleaved, byte by
  byte, the calls that returned gave what the handlers give when run one after the other in the
  order they released the mutex; while nobody holds it, the buffer and the log are those of
  that serial run; and a call that runs off the buffer (the \<open>%s\<close> of its log line) does so in the serial
  run as well.
\<close>

theorem mutex_serializable:
  assumes "mutex_ok api" "length (shared_resource d) = 1024" "\<not> m_held api m" "mdev_reach api d m s"
  shows "\<exists>t d'. serial_run (map fst (hist s)) d = Inr (hist s, t, d') \<and>
    (\<not> m_held api (resource_mutex s) \<longrightarrow> dev s = d' \<and> printed s = t) \<and>
    (\<forall>j f. mdev_act api (M_Go j) s = Some (Inl f) \<longrightarrow> (\<exists>c. call_of (mpcs s j) = Some c \<and> whole c d' = Inl f))"
proof -
  have inv: "mdev_inv api d s"
    using mdev.reach_inv [OF assms(4)] mdev_inv_start [OF assms(2,3)] assms(1) by blast
  then obtain t d' where run: "serial_run (map fst (hist s)) d = Inr (hist s, t, d')" "length (shared_resource d') = 1024"
    and free: "\<not> m_held api (resource_mutex s) \<longrightarrow> dev s = d' \<and> printed s = t"
    by (cases "m_held api (resource_mutex s)") (auto simp: mdev_inv_free mdev_inv_held)
  moreover have "\<exists>c. call_of (mpcs s j) = Some c \<and> whole c d' = Inl f" if st: "mdev_act api (M_Go j) s = Some (Inl f)" for j f
  proof -
    have st: "call_step api j s = Some (Inl f)" using st by simp
    have ins: "inside (mpcs s j)"
      using outside_step [OF _ st] lock_step [OF assms(1) _ st] by (metis Inl_Inr_False)
    obtain t' d2 e where 2: "serial_run (map fst (hist s)) d = Inr (hist s, t', d2)" "length (shared_resource d2) = 1024"
      "so_far (mpcs s j) d2 (dev s) e" by (rule mdev_inv_insideE [OF inv ins])
    with run(1) have "d2 = d'" by simp
    with inside_fault [OF 2(2) ins 2(3) st] show ?thesis by simp
  qed
  ultimately show ?thesis by blast
qed

lemma mutex_serializable_witness:
  "\<exists>s t d'. mdev_reach flag_mutex zero_dev False s \<and> length (hist s) = 2 \<and>
    serial_run [Write_Call \<lparr>not_copied = 0, moved = ''ab''\<rparr> 2, Read_Call 2 0] zero_dev = Inr (hist s, t, d')"
proof -
  obtain s where s: "run_acts (mdev_act flag_mutex) two_threads (mdev_start zero_dev False) = Some s"
    "hist s = [(Write_Call \<lparr>not_copied = 0, moved = ''ab''\<rparr> 2, 2, []), (Read_Call 2 0, 1024, ''ab'')]"
    using two_threads_run by (auto simp: map_option_eq_Some)
  have r: "mdev_reach flag_mutex zero_dev False s"
    by (rule run_acts_reach [OF reach_start s(1)]) (simp add: list_all_iff)
  have "mutex_ok flag_mutex" by (simp add: mutex_ok_def flag_mutex_def)
  from mutex_serializable [OF this _ _ r] r s(2) show ?thesis by (auto simp: zero_dev_def flag_mutex_def)
qed

end
