(* ===== verification/Newchr_Threads.thy ===== *)
theory Newchr_Threads
  imports New_Chrdev Threads
begin

text \<open>
  The two handlers of \<open>newchrdevbase/newchrdevbase.c\<close> called by several threads: \<open>samebuf\<close> has no lock.
  As in \<open>Mutex_Threads\<close> a copy moves one byte a step. (\<open>chrdevbase/chrdevbase.c\<close> has the same two
  handlers up to their names.)
\<close>

datatype npc =
    N_Idle
  | N_Copy dev_call nat "char list"
  | N_Log dev_call "char list"

record ndev =
  n_samebuf :: "char list"
  npcs :: "nat \<Rightarrow> npc"
  nhist :: "(dev_call \<times> int \<times> char list) list"   \<comment> \<open>the calls that returned, not in the code\<close>
  nlog :: "kev list"

definition at_n :: "nat \<Rightarrow> npc \<Rightarrow> ndev \<Rightarrow> ndev" where
  "at_n j pc s = s\<lparr>npcs := (npcs s)(j := pc)\<rparr>"

definition n_done :: "nat \<Rightarrow> dev_call \<Rightarrow> char list \<Rightarrow> ndev \<Rightarrow> ndev" where
  \<comment> \<open>\<open>return 0\<close>\<close>
  "n_done j c bs s = at_n j N_Idle (s\<lparr>nhist := nhist s @ [(c, 0, bs)]\<rparr>)"

definition newchr_read_step :: "nat \<Rightarrow> nat \<Rightarrow> nat \<Rightarrow> ndev \<Rightarrow> (fault + ndev) option" where
  \<comment> \<open>the next statement of \<open>newchardevbase_read\<close> in thread \<open>j\<close>\<close>
  "newchr_read_step count left j s =
     (let c = Read_Call count left in
      case npcs s j of
        N_Copy _ i bs \<Rightarrow>
          Some (if i < length (n_samebuf s) - left then Inr (at_n j (N_Copy c (Suc i) (bs @ [n_samebuf s ! i])) s)
                else Inr (at_n j (N_Log c bs) s))
      | N_Log _ bs \<Rightarrow>
          Some (Inr (n_done j c bs (if left = 0
            then s\<lparr>nlog := nlog s @ [printk (''newchardevbase_read success'' @ [NL])]\<rparr> else s)))
      | N_Idle \<Rightarrow> None)"

definition newchr_write_step :: "ucopy \<Rightarrow> nat \<Rightarrow> nat \<Rightarrow> ndev \<Rightarrow> (fault + ndev) option" where
  \<comment> \<open>the next statement of \<open>newchardevbase_write\<close>\<close>
  "newchr_write_step u count j s =
     (let c = Write_Call u count in
      case npcs s j of
        N_Copy _ i bs \<Rightarrow>
          Some (if i < length (take count (moved u)) then
                  if i < length (n_samebuf s)
                  then Inr (at_n j (N_Copy c (Suc i) bs) (s\<lparr>n_samebuf := (n_samebuf s)[i := moved u ! i]\<rparr>))
                  else Inl OutOfBounds
                else Inr (at_n j (N_Log c bs) s))
      | N_Log _ bs \<Rightarrow>
          Some (Inr (n_done j c bs (if not_copied u = 0
            then s\<lparr>nlog := nlog s @ [printk (''newchardevbase_write success, count:'' @ dec (int count) @ [NL])]\<rparr> else s)))
      | N_Idle \<Rightarrow> None)"

definition n_call_step :: "nat \<Rightarrow> ndev \<Rightarrow> (fault + ndev) option" where
  "n_call_step j s =
     (case npcs s j of
        N_Idle \<Rightarrow> None
      | N_Copy c _ _ \<Rightarrow> (case c of Read_Call count left \<Rightarrow> newchr_read_step count left j s
           | Write_Call u count \<Rightarrow> newchr_write_step u count j s)
      | N_Log c _ \<Rightarrow> (case c of Read_Call count left \<Rightarrow> newchr_read_step count left j s
           | Write_Call u count \<Rightarrow> newchr_write_step u count j s))"

datatype nact = N_Enter nat dev_call | N_Go nat

fun ndev_act :: "nact \<Rightarrow> ndev \<Rightarrow> (fault + ndev) option" where
  "ndev_act (N_Enter j c) s = (if npcs s j = N_Idle then Some (Inr (at_n j (N_Copy c 0 []) s)) else None)"
| "ndev_act (N_Go j) s = n_call_step j s"

definition ndev_start :: "char list \<Rightarrow> ndev" where
  "ndev_start b = \<lparr>n_samebuf = b, npcs = (\<lambda>_. N_Idle), nhist = [], nlog = []\<rparr>"

fun n_allowed :: "dev_call set \<Rightarrow> nact \<Rightarrow> bool" where
  \<comment> \<open>the calls the threads make\<close>
  "n_allowed C (N_Enter j c) = (c \<in> C)"
| "n_allowed C (N_Go j) = True"

section \<open>A read between two writes\<close>

definition write_aa :: dev_call where "write_aa = Write_Call \<lparr>not_copied = 0, moved = ''aa''\<rparr> 2"
definition write_bb :: dev_call where "write_bb = Write_Call \<lparr>not_copied = 0, moved = ''bb''\<rparr> 2"

definition torn_run :: "nact list" where
  \<comment> \<open>thread 0 writes \<open>aa\<close>; then thread 1 has written the first byte of \<open>bb\<close> when thread 2 reads\<close>
  "torn_run = [N_Enter 0 write_aa, N_Go 0, N_Go 0, N_Go 0, N_Go 0, N_Enter 1 write_bb, N_Go 1,
     N_Enter 2 (Read_Call 100 0)] @ replicate 102 (N_Go 2) @ [N_Go 1, N_Go 1, N_Go 1]"

lemma torn_result:
  "map_option nhist (run_acts ndev_act torn_run (ndev_start (replicate 100 NUL))) =
    Some [(write_aa, 0, []), (Read_Call 100 0, 0, ''ba'' @ replicate 98 NUL), (write_bb, 0, [])]"
  by code_simp

lemma two_writes:
  assumes "set ws \<subseteq> {(\<lparr>not_copied = 0, moved = ''aa''\<rparr>, 2), (\<lparr>not_copied = 0, moved = ''bb''\<rparr>, 2)}"
    and "run_writes newchardevbase_write ws b = Inr b'" "2 \<le> length b" "b ! 0 = b ! 1"
  shows "b' ! 0 = b' ! 1"
  using assms
proof (induction ws arbitrary: b)
  case (Cons w ws)
  then obtain u n r b1 t where w: "w = (u, n)" "newchardevbase_write u n b = Inr (r, b1, t)"
    "run_writes newchardevbase_write ws b1 = Inr b'" by (cases w) (auto simp: bindF_Inr)
  then have "from_user b u n = Inr b1" by (auto simp: newchardevbase_write_def bindF_Inr)
  moreover have "n = 2" "moved u = ''aa'' \<or> moved u = ''bb''" using Cons.prems(1) w(1) by auto
  ultimately have "2 \<le> length b1" "b1 ! 0 = b1 ! 1"
    using Cons.prems(3) by (auto simp: from_user_def split: if_splits)
  with Cons.IH [OF _ w(3)] Cons.prems(1) show ?case by simp
qed simp

lemma torn_allowed: "list_all (n_allowed {write_aa, write_bb, Read_Call 100 0}) torn_run"
  by (simp add: torn_run_def list_all_iff)

lemma not_written:
  assumes "set ws \<subseteq> {(\<lparr>not_copied = 0, moved = ''aa''\<rparr>, 2), (\<lparr>not_copied = 0, moved = ''bb''\<rparr>, 2)}"
  shows "run_writes newchardevbase_write ws (replicate 100 NUL) \<noteq> Inr (''ba'' @ bs)"
proof
  assume "run_writes newchardevbase_write ws (replicate 100 NUL) = Inr (''ba'' @ bs)"
  from two_writes [OF assms this] show False by simp
qed

text \<open>
  C17: without a lock a read can be torn. Threads that only write \<open>aa\<close> or \<open>bb\<close> to a cleared buffer and
  read can reach a state in which a read of 100 bytes returned \<open>ba\<close> and then 98 zero bytes: no sequence of
  such writes, of any length and in any order, ever leaves a buffer that starts with \<open>ba\<close>.
\<close>

theorem newchr_torn_read:
  "\<exists>s bs. reach ndev_act (n_allowed {write_aa, write_bb, Read_Call 100 0}) (ndev_start (replicate 100 NUL)) s \<and>
    (Read_Call 100 0, 0, bs) \<in> set (nhist s) \<and> bs = ''ba'' @ replicate 98 NUL \<and>
    \<not> (\<exists>ws rest. set ws \<subseteq> {(\<lparr>not_copied = 0, moved = ''aa''\<rparr>, 2), (\<lparr>not_copied = 0, moved = ''bb''\<rparr>, 2)} \<and>
         run_writes newchardevbase_write ws (replicate 100 NUL) = Inr (''ba'' @ rest))"
proof -
  obtain s where s: "run_acts ndev_act torn_run (ndev_start (replicate 100 NUL)) = Some s"
    "nhist s = [(write_aa, 0, []), (Read_Call 100 0, 0, ''ba'' @ replicate 98 NUL), (write_bb, 0, [])]"
    using torn_result by (auto simp: map_option_eq_Some)
  have "reach ndev_act (n_allowed {write_aa, write_bb, Read_Call 100 0}) (ndev_start (replicate 100 NUL)) s"
    by (rule run_acts_reach [OF reach_start s(1) torn_allowed])
  moreover have "(Read_Call 100 0, 0, ''ba'' @ replicate 98 NUL) \<in> set (nhist s)" by (simp add: s(2))
  ultimately show ?thesis using not_written by blast
qed

end
