(* ===== verification/Packet_Threads.thy ===== *)
theory Packet_Threads
  imports Sys2_Packet Threads
begin

text \<open>
  The hook of \<open>sys2/mypacket.c\<close> on several processors: netfilter calls it for packets that arrive at
  the same time, and the counters are plain variables. A call is a sequence of steps, and an increment is two
  of them, the load and the store. \<open>counters_of\<close> is the abstract account: the counters that a packet
  moves, in order.
\<close>

section \<open>A call in steps\<close>

datatype ctr = C_Vlan nat | C_Ip | C_Tcp | C_Udp | C_Icmp | C_Other

fun ctr_of :: "ctr \<Rightarrow> pkt_stats \<Rightarrow> 64 word" where
  "ctr_of (C_Vlan i) st = vlan_stats st ! i"
| "ctr_of C_Ip st = ip_packets st"
| "ctr_of C_Tcp st = tcp_packets st"
| "ctr_of C_Udp st = udp_packets st"
| "ctr_of C_Icmp st = icmp_packets st"
| "ctr_of C_Other st = other_packets st"

fun set_ctr :: "ctr \<Rightarrow> 64 word \<Rightarrow> pkt_stats \<Rightarrow> pkt_stats" where
  "set_ctr (C_Vlan i) w st = st\<lparr>vlan_stats := (vlan_stats st)[i := w]\<rparr>"
| "set_ctr C_Ip w st = st\<lparr>ip_packets := w\<rparr>"
| "set_ctr C_Tcp w st = st\<lparr>tcp_packets := w\<rparr>"
| "set_ctr C_Udp w st = st\<lparr>udp_packets := w\<rparr>"
| "set_ctr C_Icmp w st = st\<lparr>icmp_packets := w\<rparr>"
| "set_ctr C_Other w st = st\<lparr>other_packets := w\<rparr>"

datatype hpc = H_Enter | H_Load ctr | H_Store ctr "64 word" | H_Pull | H_Test | H_Switch | H_Return

record hcall =
  h_pc :: hpc
  h_skb :: skb
  h_done :: "ctr list"   \<comment> \<open>the counters it has stored, not in the code\<close>

fun after_store :: "ctr \<Rightarrow> hpc" where
  \<comment> \<open>the statement after \<open>c++\<close>\<close>
  "after_store (C_Vlan i) = H_Pull"
| "after_store C_Ip = H_Switch"
| "after_store c = H_Return"

definition proto_ctr :: "skb \<Rightarrow> ctr" where
  \<comment> \<open>the case of \<open>switch (ip_header->protocol)\<close>\<close>
  "proto_ctr s = (let p = nh s ! 9 in if p = 6 then C_Tcp else if p = 17 then C_Udp else if p = 1 then C_Icmp else C_Other)"

definition hook_step :: "skb_api \<Rightarrow> hcall \<Rightarrow> pkt_stats \<Rightarrow> (fault + (hcall \<times> pkt_stats)) option" where
  \<comment> \<open>the next step of a call of \<open>packet_hook\<close>\<close>
  "hook_step api h st =
     (let s = h_skb h; goto = (\<lambda>pc. Some (Inr (h\<lparr>h_pc := pc\<rparr>, st))) in
      case h_pc h of
        H_Enter \<Rightarrow>
          if protocol s = ETH_P_8021Q then
            (if length (data s) < 2 then Some (Inl OutOfBounds)
             else let vlan_id = vlan_id_of (data s) in
               if 1 \<le> vlan_id \<and> vlan_id \<le> 4094 then
                 (if vlan_id - 1 < length (vlan_stats st) then goto (H_Load (C_Vlan (vlan_id - 1))) else Some (Inl OutOfBounds))
               else goto H_Pull)
          else goto H_Test
      | H_Load c \<Rightarrow> goto (H_Store c (ctr_of c st))
      | H_Store c w \<Rightarrow> Some (Inr (h\<lparr>h_pc := after_store c, h_done := h_done h @ [c]\<rparr>, set_ctr c (w + 1) st))
      | H_Pull \<Rightarrow> Some (Inr (h\<lparr>h_pc := H_Test, h_skb := skb_reset_network_header api (skb_pull api s 4)\<rparr>, st))
      | H_Test \<Rightarrow> goto (H_Load (if protocol s = ETH_P_IP \<or> protocol s = ETH_P_IPV6 then C_Ip else C_Other))
      | H_Switch \<Rightarrow> if length (nh s) < 10 then Some (Inl OutOfBounds) else goto (H_Load (proto_ctr s))
      | H_Return \<Rightarrow> None)"

record hooks =
  h_stats :: pkt_stats
  h_calls :: "nat \<Rightarrow> hcall"

definition hook_act :: "skb_api \<Rightarrow> nat \<Rightarrow> hooks \<Rightarrow> (fault + hooks) option" where
  "hook_act api j s =
     map_option (\<lambda>r. bindF r (\<lambda>(h, st). Inr (s\<lparr>h_stats := st, h_calls := (h_calls s)(j := h)\<rparr>)))
       (hook_step api (h_calls s j) (h_stats s))"

definition hook_enter :: "skb \<Rightarrow> hcall" where
  "hook_enter p = \<lparr>h_pc = H_Enter, h_skb = p, h_done = []\<rparr>"

definition hooks_start :: "(nat \<Rightarrow> skb) \<Rightarrow> pkt_stats \<Rightarrow> hooks" where
  "hooks_start pkts st = \<lparr>h_stats = st, h_calls = (\<lambda>j. hook_enter (pkts j))\<rparr>"

section \<open>One call alone\<close>

fun hook_run :: "skb_api \<Rightarrow> nat \<Rightarrow> hcall \<times> pkt_stats \<Rightarrow> fault + (hcall \<times> pkt_stats)" where
  \<comment> \<open>a call that nothing interrupts, for at most so many steps\<close>
  "hook_run api 0 x = Inr x"
| "hook_run api (Suc n) x =
     (case hook_step api (fst x) (snd x) of None \<Rightarrow> Inr x | Some r \<Rightarrow> bindF r (hook_run api n))"

lemma hook_run_return [simp]: "h_pc h = H_Return \<Longrightarrow> hook_run api n (h, st) = Inr (h, st)"
  by (cases n) (simp_all add: hook_step_def)

declare hook_run.simps(2) [simp del]

lemma hook_run_count:
  "h_pc h = H_Load c \<Longrightarrow> hook_run api (Suc (Suc n)) (h, st) =
     hook_run api n (h\<lparr>h_pc := after_store c, h_done := h_done h @ [c]\<rparr>, set_ctr c (ctr_of c st + 1) st)"
  by (simp add: hook_run.simps hook_step_def Let_def)

definition tail_of :: "skb \<Rightarrow> ctr list" where
  "tail_of s = (if is_ip s then [C_Ip, proto_ctr s] else [C_Other])"

definition counters_of :: "skb_api \<Rightarrow> skb \<Rightarrow> ctr list" where
  "counters_of api s =
     (if protocol s = ETH_P_8021Q
      then (if 1 \<le> vlan_id_of (data s) \<and> vlan_id_of (data s) \<le> 4094 then [C_Vlan (vlan_id_of (data s) - 1)] else []) @
           tail_of (skb_reset_network_header api (skb_pull api s 4))
      else tail_of s)"

lemma proto_ctr_cases: "proto_ctr s \<in> {C_Tcp, C_Udp, C_Icmp, C_Other}"
  by (simp add: proto_ctr_def Let_def)

lemma after_proto [simp]: "after_store (proto_ctr s) = H_Return"
  using proto_ctr_cases [of s] by auto

lemma count_ip_ctr:
  "count_ip (nh s) st =
    (if length (nh s) < 10 then Inl OutOfBounds
     else let st1 = set_ctr C_Ip (ctr_of C_Ip st + 1) st in
       Inr (set_ctr (proto_ctr s) (ctr_of (proto_ctr s) st1 + 1) st1))"
  by (simp add: count_ip_def proto_ctr_def Let_def)

lemma hook_run_switch:
  assumes "h_pc h = H_Switch"
  shows "hook_run api (Suc (Suc (Suc n))) (h, st) =
    (if length (nh (h_skb h)) < 10 then Inl OutOfBounds
     else let c = proto_ctr (h_skb h) in
       Inr (h\<lparr>h_pc := H_Return, h_done := h_done h @ [c]\<rparr>, set_ctr c (ctr_of c st + 1) st))"
proof -
  have "hook_run api (Suc (Suc (Suc n))) (h, st) =
    (if length (nh (h_skb h)) < 10 then Inl OutOfBounds
     else hook_run api (Suc (Suc n)) (h\<lparr>h_pc := H_Load (proto_ctr (h_skb h))\<rparr>, st))"
    by (subst hook_run.simps) (simp add: hook_step_def Let_def assms)
  also have "hook_run api (Suc (Suc n)) (h\<lparr>h_pc := H_Load (proto_ctr (h_skb h))\<rparr>, st) =
      Inr (h\<lparr>h_pc := H_Return, h_done := h_done h @ [proto_ctr (h_skb h)]\<rparr>,
        set_ctr (proto_ctr (h_skb h)) (ctr_of (proto_ctr (h_skb h)) st + 1) st)"
    by (subst hook_run_count [where c = "proto_ctr (h_skb h)"]) simp_all
  finally show ?thesis by (simp add: Let_def)
qed

lemma hook_run_test:
  assumes "h_pc h = H_Test"
  shows "hook_run api (Suc (Suc (Suc (Suc (Suc (Suc n)))))) (h, st) =
    bindF (if is_ip (h_skb h) then count_ip (nh (h_skb h)) st else Inr (st\<lparr>other_packets := other_packets st + 1\<rparr>))
      (\<lambda>st'. Inr (h\<lparr>h_pc := H_Return, h_done := h_done h @ tail_of (h_skb h)\<rparr>, st'))"
proof -
  let ?c = "if is_ip (h_skb h) then C_Ip else C_Other"
  have "hook_run api (Suc (Suc (Suc (Suc (Suc (Suc n)))))) (h, st) =
      hook_run api (Suc (Suc (Suc (Suc (Suc n))))) (h\<lparr>h_pc := H_Load ?c\<rparr>, st)"
    by (subst hook_run.simps) (simp add: hook_step_def Let_def assms is_ip_def)
  also have "\<dots> = hook_run api (Suc (Suc (Suc n)))
      (h\<lparr>h_pc := after_store ?c, h_done := h_done h @ [?c]\<rparr>, set_ctr ?c (ctr_of ?c st + 1) st)"
    by (subst hook_run_count [where c = ?c]) simp_all
  finally have step: "hook_run api (Suc (Suc (Suc (Suc (Suc (Suc n)))))) (h, st) = \<dots>" .
  show ?thesis
  proof (cases "is_ip (h_skb h)")
    case True
    then show ?thesis
      unfolding step by (subst hook_run_switch) (simp_all add: count_ip_ctr Let_def tail_of_def)
  next
    case False
    then show ?thesis unfolding step by (simp add: tail_of_def)
  qed
qed

lemma hook_run_pull:
  "h_pc h = H_Pull \<Longrightarrow> hook_run api (Suc n) (h, st) =
     hook_run api n (h\<lparr>h_pc := H_Test, h_skb := skb_reset_network_header api (skb_pull api (h_skb h) 4)\<rparr>, st)"
  by (simp add: hook_run.simps hook_step_def Let_def)

text \<open>The function from the test for IP on, in both forms.\<close>

definition hook_tail :: "skb \<Rightarrow> pkt_stats \<Rightarrow> fault + pkt_stats" where
  "hook_tail q st = (if is_ip q then count_ip (nh q) st else Inr (st\<lparr>other_packets := other_packets st + 1\<rparr>))"

lemma packet_hook_tail:
  "packet_hook api s st =
    (if protocol s = ETH_P_8021Q
     then bindF (count_vlan (data s) st) (\<lambda>st1. let q = skb_reset_network_header api (skb_pull api s 4) in
       bindF (hook_tail q st1) (\<lambda>st'. Inr (NF_ACCEPT, q, st')))
     else bindF (hook_tail s st) (\<lambda>st'. Inr (NF_ACCEPT, s, st')))"
  by (cases "count_vlan (data s) st") (auto simp: packet_hook_def hook_tail_def is_ip_def Let_def)

lemma hook_run_tail:
  "hook_run api (Suc (Suc (Suc (Suc (Suc (Suc n)))))) (\<lparr>h_pc = H_Test, h_skb = q, h_done = d\<rparr>, st) =
    bindF (hook_tail q st) (\<lambda>st'. Inr (\<lparr>h_pc = H_Return, h_skb = q, h_done = d @ tail_of q\<rparr>, st'))"
  by (subst hook_run_test) (simp_all add: hook_tail_def)

lemma hook_run_pull_tail:
  "hook_run api (Suc (Suc (Suc (Suc (Suc (Suc (Suc n))))))) (\<lparr>h_pc = H_Pull, h_skb = s, h_done = d\<rparr>, st) =
    (let q = skb_reset_network_header api (skb_pull api s 4) in
     bindF (hook_tail q st) (\<lambda>st'. Inr (\<lparr>h_pc = H_Return, h_skb = q, h_done = d @ tail_of q\<rparr>, st')))"
  by (subst hook_run_pull) (simp_all add: hook_run_tail Let_def)

lemma hook_run_vlan:
  "hook_run api (Suc (Suc (Suc (Suc (Suc (Suc (Suc (Suc (Suc n))))))))) (\<lparr>h_pc = H_Load (C_Vlan i), h_skb = s, h_done = d\<rparr>, st) =
    (let q = skb_reset_network_header api (skb_pull api s 4) in
     bindF (hook_tail q (st\<lparr>vlan_stats := (vlan_stats st)[i := vlan_stats st ! i + 1]\<rparr>))
       (\<lambda>st'. Inr (\<lparr>h_pc = H_Return, h_skb = q, h_done = d @ C_Vlan i # tail_of q\<rparr>, st')))"
  by (subst hook_run_count [where c = "C_Vlan i"]) (simp_all add: hook_run_pull_tail Let_def)

text \<open>A call that nothing interrupts takes at most ten steps and is the function \<open>packet_hook\<close>, faults included.\<close>

lemma hook_run_alone:
  "hook_run api 10 (hook_enter s, st) =
    bindF (packet_hook api s st) (\<lambda>(v, s', st'). Inr (\<lparr>h_pc = H_Return, h_skb = s', h_done = counters_of api s\<rparr>, st'))"
proof -
  have ten: "10 = Suc (Suc (Suc (Suc (Suc (Suc (Suc (Suc (Suc (Suc (0::nat))))))))))" by simp
  show ?thesis
  proof (cases "protocol s = ETH_P_8021Q \<and> \<not> length (data s) < 2")
    case False
    then show ?thesis unfolding ten
      by (subst hook_run.simps)
         (auto simp: hook_enter_def hook_step_def Let_def hook_run_tail packet_hook_tail counters_of_def count_vlan_def bindF_assoc)
  next
    case True
    then show ?thesis unfolding ten
      by (subst hook_run.simps)
         (auto simp: hook_enter_def hook_step_def Let_def hook_run_vlan hook_run_pull_tail packet_hook_tail counters_of_def
            count_vlan_def bindF_assoc)
  qed
qed

text \<open>In the machine: a processor that runs alone from the entry of the hook leaves what \<open>packet_hook\<close> gives.\<close>

lemma run_acts_alone:
  "hook_run api n (h_calls s j, h_stats s) = Inr (h', st') \<Longrightarrow>
    \<exists>m \<le> n. run_acts (hook_act api) (replicate m j) s = Some (s\<lparr>h_stats := st', h_calls := (h_calls s)(j := h')\<rparr>)"
proof (induction n arbitrary: s)
  case 0
  moreover have "s\<lparr>h_stats := h_stats s, h_calls := (h_calls s)(j := h_calls s j)\<rparr> = s" by (cases s) simp
  ultimately show ?case by (auto simp del: fun_upd_apply)
next
  case (Suc n)
  have same: "s\<lparr>h_stats := h_stats s, h_calls := (h_calls s)(j := h_calls s j)\<rparr> = s" by (cases s) simp
  show ?case
  proof (cases "hook_step api (h_calls s j) (h_stats s)")
    case None
    then show ?thesis using Suc.prems same by (intro exI [of _ 0]) (auto simp: hook_run.simps simp del: fun_upd_apply)
  next
    case (Some r)
    with Suc.prems obtain h1 st1 where r: "r = Inr (h1, st1)" "hook_run api n (h1, st1) = Inr (h', st')"
      by (auto simp: hook_run.simps bindF_Inr)
    let ?s1 = "s\<lparr>h_stats := st1, h_calls := (h_calls s)(j := h1)\<rparr>"
    have "hook_act api j s = Some (Inr ?s1)" using Some r(1) by (simp add: hook_act_def)
    moreover obtain m where "m \<le> n" "run_acts (hook_act api) (replicate m j) ?s1 =
        Some (s\<lparr>h_stats := st', h_calls := (h_calls s)(j := h')\<rparr>)"
      using Suc.IH [of ?s1] r(2) by (auto simp: fun_upd_same simp del: fun_upd_apply)
    ultimately show ?thesis by (intro exI [of _ "Suc m"]) (simp del: fun_upd_apply)
  qed
qed

lemma hook_alone:
  assumes "h_calls s j = hook_enter p" "packet_hook api p (h_stats s) = Inr (v, p', st')"
  shows "\<exists>m \<le> 10. run_acts (hook_act api) (replicate m j) s =
    Some (s\<lparr>h_stats := st', h_calls := (h_calls s)(j := \<lparr>h_pc = H_Return, h_skb = p', h_done = counters_of api p\<rparr>)\<rparr>)"
  by (rule run_acts_alone) (simp add: assms hook_run_alone)

section \<open>What the calls account for\<close>

definition rest_after :: "skb_api \<Rightarrow> ctr \<Rightarrow> skb \<Rightarrow> ctr list" where
  "rest_after api c s =
     (case after_store c of H_Pull \<Rightarrow> tail_of (skb_reset_network_header api (skb_pull api s 4))
      | H_Switch \<Rightarrow> [proto_ctr s] | _ \<Rightarrow> [])"

definition todo :: "skb_api \<Rightarrow> hcall \<Rightarrow> ctr list" where
  "todo api h =
     (case h_pc h of H_Enter \<Rightarrow> counters_of api (h_skb h)
      | H_Load c \<Rightarrow> c # rest_after api c (h_skb h)
      | H_Store c w \<Rightarrow> c # rest_after api c (h_skb h)
      | H_Pull \<Rightarrow> tail_of (skb_reset_network_header api (skb_pull api (h_skb h) 4))
      | H_Test \<Rightarrow> tail_of (h_skb h)
      | H_Switch \<Rightarrow> [proto_ctr (h_skb h)]
      | H_Return \<Rightarrow> [])"

lemma rest_after_proto [simp]: "rest_after api (proto_ctr s) q = []"
  by (simp add: rest_after_def)

lemma hook_step_account:
  "hook_step api h st = Some (Inr (h', st')) \<Longrightarrow> h_done h' @ todo api h' = h_done h @ todo api h"
proof (cases "h_pc h")
  case (H_Store c w)
  assume "hook_step api h st = Some (Inr (h', st'))"
  with H_Store show ?thesis
    by (cases c) (auto simp: hook_step_def Let_def todo_def rest_after_def)
qed (auto simp: hook_step_def Let_def todo_def rest_after_def counters_of_def tail_of_def is_ip_def split: if_splits)

lemma hook_step_kinds:
  "hook_step api h st = Some (Inr (h', st')) \<Longrightarrow>
   (h_done h' = h_done h \<and> st' = st \<and> (\<forall>c w. h_pc h' = H_Store c w \<longrightarrow> w = ctr_of c st)) \<or>
   (\<exists>c w. h_pc h = H_Store c w \<and> h_done h' = h_done h @ [c] \<and> st' = set_ctr c (w + 1) st \<and>
      (\<forall>d v. h_pc h' \<noteq> H_Store d v))"
proof (cases "h_pc h")
  case (H_Store c w)
  assume "hook_step api h st = Some (Inr (h', st'))"
  with H_Store show ?thesis
    by (cases c) (auto simp: hook_step_def Let_def)
qed (auto simp: hook_step_def Let_def split: if_splits)

lemma ctr_of_set: "ctr_of d (set_ctr c w st) = ctr_of d st \<or> d = c \<and> ctr_of d (set_ctr c w st) = w"
proof (cases c)
  case (C_Vlan i)
  then show ?thesis
    by (cases d; cases "i < length (vlan_stats st)") (auto simp: nth_list_update list_update_beyond)
qed (cases d; simp)+

lemma unat_inc_le: "unat (w + 1 :: 64 word) \<le> Suc (unat w)"
  by (simp add: unat_word_ariths)

lemma counters_of_distinct: "distinct (counters_of api p)"
  by (auto simp: counters_of_def tail_of_def proto_ctr_def Let_def)

definition hook_counted :: "nat \<Rightarrow> ctr \<Rightarrow> hooks \<Rightarrow> nat" where
  "hook_counted N c s = num N (\<lambda>h. c \<in> set (h_done h)) (h_calls s)"

definition hooks_inv :: "skb_api \<Rightarrow> (nat \<Rightarrow> skb) \<Rightarrow> pkt_stats \<Rightarrow> nat \<Rightarrow> hooks \<Rightarrow> bool" where
  "hooks_inv api pkts st0 N s \<longleftrightarrow>
     (\<forall>j < N. h_done (h_calls s j) @ todo api (h_calls s j) = counters_of api (pkts j)) \<and>
     (\<forall>c. unat (ctr_of c (h_stats s)) \<le> unat (ctr_of c st0) + hook_counted N c s) \<and>
     (\<forall>c w. \<forall>j < N. h_pc (h_calls s j) = H_Store c w \<longrightarrow> unat w \<le> unat (ctr_of c st0) + hook_counted N c s)"

lemma hooks_inv_start: "hooks_inv api pkts st0 N (hooks_start pkts st0)"
  by (simp add: hooks_inv_def hooks_start_def hook_enter_def todo_def)

lemma hook_counted_move:
  "j < N \<Longrightarrow> hook_counted N c (s\<lparr>h_stats := st, h_calls := (h_calls s)(j := h)\<rparr>) + tok (\<lambda>h. c \<in> set (h_done h)) (h_calls s j) =
    hook_counted N c s + tok (\<lambda>h. c \<in> set (h_done h)) h"
  by (simp add: hook_counted_def num_move)

lemma hook_act_inv:
  assumes inv: "hooks_inv api pkts st0 N s" and j: "j < N" and act: "hook_act api j s = Some (Inr s')"
  shows "hooks_inv api pkts st0 N s'"
proof -
  let ?h = "h_calls s j"
  obtain h' st' where step: "hook_step api ?h (h_stats s) = Some (Inr (h', st'))"
    and s': "s' = s\<lparr>h_stats := st', h_calls := (h_calls s)(j := h')\<rparr>"
    using act by (auto simp: hook_act_def bindF_Inr)
  have acc: "h_done ?h @ todo api ?h = counters_of api (pkts j)"
    and le: "unat (ctr_of c (h_stats s)) \<le> unat (ctr_of c st0) + hook_counted N c s"
    and pend: "i < N \<Longrightarrow> h_pc (h_calls s i) = H_Store c w \<Longrightarrow> unat w \<le> unat (ctr_of c st0) + hook_counted N c s" for c w i
    using inv j by (auto simp: hooks_inv_def)
  have acc': "h_done (h_calls s' i) @ todo api (h_calls s' i) = counters_of api (pkts i)" if "i < N" for i
    using inv that hook_step_account [OF step] acc by (simp add: s' hooks_inv_def)
  note move = hook_counted_move [OF j, where s = s and st = st' and h = h', folded s']
  from hook_step_kinds [OF step] show ?thesis
  proof (elim disjE exE conjE)
    assume k: "h_done h' = h_done ?h" "st' = h_stats s" "\<forall>c w. h_pc h' = H_Store c w \<longrightarrow> w = ctr_of c (h_stats s)"
    have same: "hook_counted N c s' = hook_counted N c s" for c using move [of c] k(1) by (simp add: tok_def)
    have "unat w \<le> unat (ctr_of c st0) + hook_counted N c s" if "i < N" "h_pc (h_calls s' i) = H_Store c w" for i c w
      using that k(3) le [of c] pend [OF that(1)] by (cases "i = j") (auto simp: s')
    then show ?thesis using acc' le k(2) by (simp add: hooks_inv_def same) (simp add: s')
  next
    fix c w assume k: "h_pc ?h = H_Store c w" "h_done h' = h_done ?h @ [c]" "st' = set_ctr c (w + 1) (h_stats s)"
      "\<forall>d v. h_pc h' \<noteq> H_Store d v"
    have "c \<notin> set (h_done ?h)"
      using counters_of_distinct [of api "pkts j"] by (simp add: acc [symmetric] todo_def k(1))
    then have cnt: "hook_counted N d s' = hook_counted N d s + (if d = c then 1 else 0)" for d
      using move [of d] k(2) by (auto simp: tok_def)
    have hs: "h_stats s' = set_ctr c (w + 1) (h_stats s)" by (simp add: s' k(3))
    have "unat (ctr_of d (h_stats s')) \<le> unat (ctr_of d st0) + hook_counted N d s'" for d
      using ctr_of_set [of d c "w + 1" "h_stats s"] le [of d] pend [OF j k(1)] unat_inc_le [of w]
      by (auto simp: hs cnt)
    moreover have "unat v \<le> unat (ctr_of d st0) + hook_counted N d s'" if "i < N" "h_pc (h_calls s' i) = H_Store d v" for i d v
    proof (cases "i = j")
      case False
      then have "h_pc (h_calls s i) = H_Store d v" using that(2) by (simp add: s')
      with pend [OF that(1)] show ?thesis by (auto simp: cnt intro: trans_le_add1)
    qed (use that(2) k(4) in \<open>simp add: s'\<close>)
    ultimately show ?thesis using acc' by (simp add: hooks_inv_def)
  qed
qed

interpretation hm: machine "hook_act api" "\<lambda>j. j < N" "hooks_inv api pkts st0 N" for api pkts st0 N
  by unfold_locales (rule hook_act_inv)

lemma hook_counted_le:
  assumes "hooks_inv api pkts st0 N s"
  shows "hook_counted N c s \<le> num N (\<lambda>p. c \<in> set (counters_of api p)) pkts"
  unfolding hook_counted_def
proof (rule num_le_at)
  fix j assume j: "j < N" "c \<in> set (h_done (h_calls s j))"
  then have "h_done (h_calls s j) @ todo api (h_calls s j) = counters_of api (pkts j)"
    using assms by (simp add: hooks_inv_def)
  with j(2) show "c \<in> set (counters_of api (pkts j))" by (metis Un_iff set_append)
qed

lemma returned_account:
  assumes "hooks_inv api pkts st0 N s" "j < N" "h_pc (h_calls s j) = H_Return"
  shows "h_done (h_calls s j) = counters_of api (pkts j)"
  using assms by (auto simp: hooks_inv_def todo_def)

section \<open>A lost increment\<close>

definition hook_lost_run :: "nat list" where
  \<comment> \<open>two processors in turn\<close>
  "hook_lost_run = [0, 1, 0, 1, 0, 1, 0, 1, 0, 1, 0, 1, 0, 1]"

lemma hook_lost_run_result:
  "\<exists>s. run_acts (hook_act demo_skb_api) hook_lost_run (hooks_start (\<lambda>_. demo_tcp_skb) st) = Some s \<and>
    h_stats s = st\<lparr>ip_packets := ip_packets st + 1, tcp_packets := tcp_packets st + 1\<rparr> \<and>
    h_pc (h_calls s 0) = H_Return \<and> h_pc (h_calls s 1) = H_Return"
  by (simp add: hook_lost_run_def hook_act_def hook_step_def hooks_start_def hook_enter_def demo_tcp_skb_def proto_ctr_def)

section \<open>Properties\<close>

text \<open>
  C16: with calls on any number of processors, interleaved statement by statement, no counter ever runs ahead of
  the packets: at every moment each counter is at most its old value plus the number of the packets that move
  it. (It may stay behind: two calls that load a counter before either stores it count one packet.)
\<close>

theorem hook_never_overcounts:
  assumes "reach (hook_act api) (\<lambda>j. j < N) (hooks_start pkts st0) s"
  shows "unat (ctr_of c (h_stats s)) \<le> unat (ctr_of c st0) + num N (\<lambda>p. c \<in> set (counters_of api p)) pkts"
proof -
  have inv: "hooks_inv api pkts st0 N s"
    by (rule hm.reach_inv [OF assms hooks_inv_start])
  then have "unat (ctr_of c (h_stats s)) \<le> unat (ctr_of c st0) + hook_counted N c s" by (simp add: hooks_inv_def)
  with hook_counted_le [OF inv, of c] show ?thesis by simp
qed

lemma hook_never_overcounts_witness:
  "\<exists>s. reach (hook_act demo_skb_api) (\<lambda>j. j < 2) (hooks_start (\<lambda>_. demo_tcp_skb) pkt_stats_static) s \<and>
    (\<forall>j < 2. h_pc (h_calls s j) = H_Return) \<and> ip_packets (h_stats s) = 1 \<and> unat (ctr_of C_Ip (h_stats s)) \<le> 2"
proof -
  obtain s where s: "run_acts (hook_act demo_skb_api) hook_lost_run (hooks_start (\<lambda>_. demo_tcp_skb) pkt_stats_static) = Some s"
    "h_stats s = pkt_stats_static\<lparr>ip_packets := ip_packets pkt_stats_static + 1, tcp_packets := tcp_packets pkt_stats_static + 1\<rparr>"
    "h_pc (h_calls s 0) = H_Return" "h_pc (h_calls s 1) = H_Return"
    using hook_lost_run_result by blast
  have r: "reach (hook_act demo_skb_api) (\<lambda>j. j < 2) (hooks_start (\<lambda>_. demo_tcp_skb) pkt_stats_static) s"
    by (rule run_acts_reach [OF reach_start s(1)]) (simp add: hook_lost_run_def)
  have "C_Ip \<in> set (counters_of demo_skb_api demo_tcp_skb)"
    by (simp add: counters_of_def tail_of_def demo_tcp_skb_def is_ip_def)
  with hook_never_overcounts [OF r, of C_Ip] have "unat (ctr_of C_Ip (h_stats s)) \<le> 2"
    by (simp add: numeral_2_eq_2 pkt_stats_static_def)
  moreover have "\<forall>j < 2. h_pc (h_calls s j) = H_Return" using s(3,4) by (simp add: less_2_cases_iff)
  ultimately show ?thesis using r s(2) by (intro exI [of _ s]) (simp add: pkt_stats_static_def)
qed

end
