(* ===== verification/Audit_Exports.thy ===== *)
theory Audit_Exports
  imports Audit_Log
begin

text \<open>
  \<open>auditexample/forKenerl/i386_ksyms.c\<close>: the symbols the patched kernel exports to its modules, with the two
  hook pointers of \<open>Audit_Log\<close> at the end. The preprocessor conditions are kept: a group of exports stands
  under the configuration options one of which must be set, and under none when it is unconditional.
  \<open>EXPORT_SYMBOL_NOVERS\<close> exports a name without a version checksum.
\<close>

record ksym =
  sym_name :: string
  versioned :: bool

abbreviation vers :: "string \<Rightarrow> ksym" where
  \<comment> \<open>\<open>EXPORT_SYMBOL\<close>\<close>
  "vers s \<equiv> \<lparr>sym_name = s, versioned = True\<rparr>"

abbreviation novers :: "string \<Rightarrow> ksym" where
  \<comment> \<open>\<open>EXPORT_SYMBOL_NOVERS\<close>\<close>
  "novers s \<equiv> \<lparr>sym_name = s, versioned = False\<rparr>"

definition i386_ksyms :: "(string list \<times> ksym list) list" where
  "i386_ksyms =
     [([''CONFIG_APM'', ''CONFIG_APM_MODULE''],
        [vers ''machine_real_restart'', vers ''default_idle'']),
      ([''CONFIG_BLK_DEV_IDE'', ''CONFIG_BLK_DEV_HD'', ''CONFIG_BLK_DEV_IDE_MODULE'', ''CONFIG_BLK_DEV_HD_MODULE''],
        [vers ''drive_info'']),
      ([],
        [vers ''boot_cpu_data'']),
      ([''CONFIG_EISA''],
        [vers ''EISA_bus'']),
      ([],
        [vers ''MCA_bus'', vers ''__verify_write'', vers ''dump_thread'', vers ''dump_fpu'',
         vers ''dump_extended_fpu'', vers ''__ioremap'', vers ''iounmap'', vers ''enable_irq'',
         vers ''disable_irq'', vers ''disable_irq_nosync'', vers ''probe_irq_mask'',
         vers ''kernel_thread'', vers ''pm_idle'', vers ''pm_power_off'', vers ''get_cmos_time'',
         vers ''apm_info'', vers ''gdt'']),
      ([''CONFIG_DEBUG_IOVIRT''],
        [vers ''__io_virt_debug'']),
      ([],
        [novers ''__down_failed'', novers ''__down_failed_interruptible'',
         novers ''__down_failed_trylock'', novers ''__up_wakeup'', vers ''csum_partial_copy_generic'',
         vers ''__udelay'', vers ''__delay'', vers ''__const_udelay'', novers ''__get_user_1'',
         novers ''__get_user_2'', novers ''__get_user_4'', vers ''strtok'', vers ''strpbrk'',
         vers ''strstr'', vers ''strncpy_from_user'', vers ''__strncpy_from_user'', vers ''clear_user'',
         vers ''__clear_user'', vers ''__generic_copy_from_user'', vers ''__generic_copy_to_user'',
         vers ''strnlen_user'', vers ''pci_alloc_consistent'', vers ''pci_free_consistent'']),
      ([''CONFIG_PCI''],
        [vers ''pcibios_penalize_isa_irq'', vers ''pci_mem_start'']),
      ([''CONFIG_PCI_BIOS''],
        [vers ''pcibios_set_irq_routing'', vers ''pcibios_get_irq_routing_table'']),
      ([''CONFIG_X86_USE_3DNOW''],
        [vers ''_mmx_memcpy'', vers ''mmx_clear_page'', vers ''mmx_copy_page'']),
      ([''CONFIG_SMP''],
        [vers ''cpu_data'', vers ''kernel_flag'', vers ''smp_num_cpus'', vers ''cpu_online_map'',
         novers ''__write_lock_failed'', novers ''__read_lock_failed'', vers ''synchronize_irq'',
         vers ''global_irq_holder'', vers ''__global_cli'', vers ''__global_sti'',
         vers ''__global_save_flags'', vers ''__global_restore_flags'', vers ''smp_call_function'',
         vers ''flush_tlb_page'']),
      ([''CONFIG_MCA''],
        [vers ''machine_id'']),
      ([''CONFIG_VT''],
        [vers ''screen_info'']),
      ([],
        [vers ''get_wchan'', vers ''rtc_lock'', novers ''memcpy'', novers ''memset'']),
      ([''CONFIG_HAVE_DEC_LOCK''],
        [vers ''atomic_dec_and_lock'']),
      ([''CONFIG_DEBUG_BUGVERBOSE''],
        [vers ''do_BUG'']),
      ([],
        [vers ''is_sony_vaio_laptop'', vers ''my_audit'', vers ''my_sysaudit''])]"

definition defined_any :: "string set \<Rightarrow> string list \<Rightarrow> bool" where
  \<comment> \<open>\<open>#if defined(a) || defined(b) ...\<close>, and no condition\<close>
  "defined_any config opts \<longleftrightarrow> opts = [] \<or> (\<exists>x \<in> set opts. x \<in> config)"

definition ksymtab :: "string set \<Rightarrow> ksym list" where
  \<comment> \<open>what a kernel built with these options exports from this file\<close>
  "ksymtab config = concat (map snd (filter (\<lambda>b. defined_any config (fst b)) i386_ksyms))"

definition audit_externs :: "string list" where
  \<comment> \<open>the variables the module declares \<open>extern\<close> and assigns in its init function\<close>
  "audit_externs = [''my_audit'', ''my_sysaudit'']"

section \<open>Lemmas\<close>

lemma ksymtab_iff:
  "y \<in> set (ksymtab config) \<longleftrightarrow> (\<exists>b \<in> set i386_ksyms. defined_any config (fst b) \<and> y \<in> set (snd b))"
  by (force simp: ksymtab_def)

lemma ksymtab_mono: "c \<subseteq> c' \<Longrightarrow> set (ksymtab c) \<subseteq> set (ksymtab c')"
proof
  fix y assume "c \<subseteq> c'" "y \<in> set (ksymtab c)"
  then obtain b where "b \<in> set i386_ksyms" "defined_any c (fst b)" "y \<in> set (snd b)" by (auto simp: ksymtab_iff)
  moreover from this(2) \<open>c \<subseteq> c'\<close> have "defined_any c' (fst b)" by (auto simp: defined_any_def)
  ultimately show "y \<in> set (ksymtab c')" by (auto simp: ksymtab_iff)
qed

lemma names_distinct: "distinct (map sym_name (concat (map snd i386_ksyms)))"
  by code_simp

lemma concat_filter_distinct:
  "distinct (map f (concat (map snd xs))) \<Longrightarrow> distinct (map f (concat (map snd (filter P xs))))"
proof (induction xs)
  case (Cons x xs)
  have "set (concat (map snd (filter P xs))) \<subseteq> set (concat (map snd xs))" by auto
  with Cons show ?case by auto
qed simp

text \<open>No configuration exports a name twice.\<close>

lemma ksymtab_distinct: "distinct (map sym_name (ksymtab config))"
  unfolding ksymtab_def by (rule concat_filter_distinct [OF names_distinct])

text \<open>
  Every configuration exports both hooks, so the variables that the init function of the module sets are there
  in every kernel built from this file.
\<close>

lemma hooks_exported: "vers ''my_audit'' \<in> set (ksymtab config)" "vers ''my_sysaudit'' \<in> set (ksymtab config)"
  by (simp_all add: ksymtab_iff i386_ksyms_def defined_any_def)

lemma audit_externs_exported: "set audit_externs \<subseteq> sym_name ` set (ksymtab config)"
proof
  fix n assume "n \<in> set audit_externs"
  then have "vers n \<in> set (ksymtab config)" using hooks_exported by (auto simp: audit_externs_def)
  then show "n \<in> sym_name ` set (ksymtab config)" by force
qed

text \<open>The lock failure paths are exported exactly by a kernel for several processors.\<close>

lemma smp_exports: "novers ''__write_lock_failed'' \<in> set (ksymtab config) \<longleftrightarrow> ''CONFIG_SMP'' \<in> config"
  by (simp add: ksymtab_iff i386_ksyms_def defined_any_def)

end
