(* ===== verification/Spec2Isabelle.thy ===== *)
theory Spec2Isabelle
  imports Sys2 Sys_Basic Procsys Chrdev_Base New_Chrdev Mutex_Dev Ioctl_Dev Dts_Led Np_Nc
    Network Dtsof Dbg_Msg Chr_App Ioctl_App Mmap_Cat Audit_Log
    Audit_Daemon Pid_Refs Module_Refs Small_Modules Sys2_Route
    Audit_Threads Mutex_Threads Newchr_Threads Packet_Threads Audit_Exports
begin

text \<open>
  A model of the Linux kernel modules of this repository. Each directory is one module, built and
  loaded on its own; the modules share a style, not code. The largest is \<open>sys2\<close>, a sysfs
  attribute that takes commands; the others are a first version of it (\<open>sys\<close>), a proc entry
  (\<open>procsys\<close>), character devices (\<open>chrdevbase\<close>, \<open>newchrdevbase\<close>, \<open>mutex\<close>,
  \<open>ioctl_device\<close>, \<open>dtsofled\<close>) with the programs that use them, a reader of the device tree
  (\<open>dtsof\<close>), a PCI network driver skeleton (\<open>network\<close>), a log of system calls with its daemon
  (\<open>auditexample\<close>), a producer/consumer demonstration (\<open>np-nc\<close>), wake-up demonstrations
  (\<open>__wake_up\<close> and its variants), a program that prints a part of a file (\<open>mmap\<close>), and some thirty
  probes: modules that call one function of the pid or module interface of the kernel and log what
  it gave.

  Common ground.
    \<^item> \<open>Prelude\<close>, \<open>Text_Scan\<close>: faults (an access outside an object or through a bad pointer is the
      left summand of a result), C strings in fixed buffers, \<open>snprintf\<close>, \<open>strncpy\<close>, \<open>sscanf\<close> and
      the number printers, with the lemma that scanning a printed number gives it back.
    \<^item> \<open>Kernel_Events\<close>: a call into the kernel that acquires or releases something is an event of a
      trace; its outcome is an argument of the model. \<open>replay\<close> runs a trace over what is held,
      \<open>lifo\<close> asks for releases in reverse order, \<open>balanced\<close> for a piece of trace that leaves
      nothing behind.
    \<^item> \<open>Driver_Lifecycle\<close> (locale \<open>driver\<close>), \<open>Char_Device\<close> (locale \<open>char_device\<close>), \<open>Text_Attr\<close>
      (locale \<open>text_attr\<close>) and \<open>Kern_State\<close> (locale \<open>handler\<close>) are the contracts between a module
      and the loader, a device and its user, an attribute and its reader, a command handler and
      the dispatcher. Every module interprets those it provides on its own definitions.
    \<^item> \<open>Threads\<close> has the states that interleavings of threads reach, one schedule of them, the rule for
      invariants (locale \<open>machine\<close>) and the number of threads at a place.

  The modules.
    \<^item> \<open>Sys2\<close> is \<open>sys2/sys2.c\<close>: \<open>my_data_store\<close>, \<open>my_data_show\<close>, the table \<open>command_handlers\<close>,
      \<open>mymodule_init\<close>, \<open>mymodule_exit\<close>. The C file includes its four siblings; here they are
      \<open>Sys2_Task\<close> (\<open>showtask.c\<close>), \<open>Sys2_Parse\<close> (\<open>parse.c\<close>), \<open>Sys2_Netdev\<close> and \<open>Sys2_Packet\<close>
      (the two halves of \<open>mypacket.c\<close>) and \<open>Sys2_Process\<close> (\<open>process.c\<close>). The kernel objects they
      reach are the record \<open>kern\<close> of \<open>Kern_State\<close>, the kernel functions they call the record
      \<open>kapi\<close>, whose documented behaviour is \<open>kapi_ok\<close>.
    \<^item> \<open>Sys_Basic\<close> is \<open>sys/sys.c\<close>, \<open>Procsys\<close> is \<open>procsys/procsys.c\<close>.
    \<^item> \<open>Chrdev_Base\<close>, \<open>New_Chrdev\<close>, \<open>Mutex_Dev\<close>, \<open>Ioctl_Dev\<close>, \<open>Dts_Led\<close> are
      \<open>chrdevbase/chrdevbase.c\<close>, \<open>newchrdevbase/newchrdevbase.c\<close>, \<open>mutex/mutex.c\<close>,
      \<open>ioctl_device/my_device.c\<close> and \<open>dtsofled/dtsofled.c\<close>.
    \<^item> \<open>Np_Nc\<close> is \<open>np-nc/np-nc.c\<close> as a step relation: one step is one statement of one thread.
    \<^item> \<open>Network\<close> is \<open>network/mynetwork.c\<close>, \<open>Dtsof\<close> is \<open>dtsof/dtsof.c\<close>, \<open>Dbg_Msg\<close> is
      \<open>DbgPrintMsg\<close> of \<open>common/dbgmsg.c\<close>, \<open>Audit_Log\<close> is \<open>auditexample/module/audit.c\<close> with the hooks
      of \<open>auditexample/forKenerl/audit.c\<close>.
    \<^item> \<open>Chr_App\<close> is the program \<open>chrdevbaseApp.c\<close> (the same text for both devices) over a record of
      system calls, which the two drivers instantiate, \<open>Ioctl_App\<close> is \<open>my_device_test.c\<close> over \<open>Ioctl_Dev\<close>;
      \<open>Mmap_Cat\<close> is \<open>mmap/main.c\<close>.
    \<^item> \<open>Audit_Daemon\<close> is \<open>auditexample/daemon/auditd.c\<close>, its loop as turns between the system calls
      of other programs; it calls \<open>sys_audit\<close> of \<open>Audit_Log\<close>, which returns nothing, so the number it
      finds as the result is an argument of each turn.
    \<^item> \<open>Sys2_Route\<close> is the command \<open>showroute\<close> of \<open>sys2/mypacket.c\<close>. The macro \<open>OPEN_SHOWROUTE\<close> that
      would compile it is commented out, so it has no row in the command table.
    \<^item> \<open>Probe_Stmt\<close> has the statements the probes are made of: a call that may fault, an object taken
      or given back, a line logged. \<open>Probe_Family\<close> has the locale \<open>probe_family\<close>: what a sequence of
      loads and unloads of such modules does to reference counts. \<open>Pid_Probes\<close> are the modules
      about pids (\<open>find_get_pid\<close>, \<open>put_pid\<close>, \<open>print_pid\<close> and the others) and \<open>Pid_Refs\<close> what each
      leaves behind; \<open>Module_Probes\<close> and \<open>Module_Refs\<close> are the same for the modules about modules
      and symbols (\<open>try_module_get\<close>, \<open>__symbol_get\<close>, \<open>eg/module_address.c\<close> and the others), with the
      symbols that \<open>test_module\<close> and \<open>common/dbgmsg.c\<close> export; eight of these modules include
      \<open>dbgmsg.c\<close> as a source file and so export its symbol once more. Both interpret the locale.
    \<^item> \<open>Mutex_Threads\<close>, \<open>Newchr_Threads\<close> and \<open>Audit_Threads\<close> are the handlers of \<open>mutex/mutex.c\<close>,
      \<open>newchrdevbase/newchrdevbase.c\<close> and \<open>auditexample/module/audit.c\<close> once more, as statements of
      several threads: a step is a statement, and a copy to or from a user moves one byte a step.
      The first has a lock, an argument of the model with its contract \<open>mutex_ok\<close>; the others have none.
    \<^item> \<open>Packet_Threads\<close> is the hook of \<open>sys2/mypacket.c\<close> called on several processors, an increment being a
      load and a store.
    \<^item> \<open>Audit_Exports\<close> is \<open>auditexample/forKenerl/i386_ksyms.c\<close>, the symbols that the patched kernel exports
      under each configuration, the hooks of the audit module among them.
    \<^item> \<open>Wake_Up\<close> are \<open>__wake_up\<close>, \<open>__wake_up_sync\<close> and \<open>__wake_up_sync_key\<close>: the init function and the
      thread it starts as two interleaved threads, a step being a group of statements between two
      points where the other thread can matter, with the exit of the loading task and the unloading of
      the module. \<open>Small_Modules\<close> are \<open>hello\<close>, \<open>test_module\<close>,
      \<open>iterateprocess\<close>, \<open>kthread_run\<close>, \<open>kernel_thread\<close>, \<open>add_wait_queue\<close> and \<open>abort_exclusive_wait\<close>.

  What is shown. For \<open>sys2\<close>: which handler a text runs and on which argument, the effect of every
  command that changes something, the range of MTUs and the balance of references over all
  sequences of stores, the counters of the netfilter hook. For the drivers: init undoes what it
  did when a call fails, loads and unloads leak nothing, and what is written is read back, by the
  programs too. For the producer/consumer demonstration: mutual exclusion, and the ring as a
  bounded FIFO queue, for any number of threads; with one of each every run ends, with two of each
  it can hang. For the audit log: the records read are those of
  the calls made while there was room, in order, the buffer is a bounded queue, and the daemon prints
  these as far as the number it finds says. For the probes: how far each count is off after load and unload, which of them
  fault, and that symbols once looked up pin the modules that export them. For the wake-up
  demonstrations: exactly which steps fault, and that a wake-up which comes before the wait is lost. For the handlers as threads: the locked device behaves as if its calls were made
  one after the other, the unlocked one has reads that no order of the calls explains, the audit log
  is overrun exactly when two processes or more make calls, and the packet counters never run ahead of the
  packets. Where the code does not do what it means
  to, the theorem says what it does instead.

  Loops are recursion over the lists the kernel's iterators walk; they end, by structure or by a
  measure, and no fuel is used. The tokenizer loop of \<open>parse.c\<close> is also stated as a \<open>while_option\<close> that
  returns. The endless loop of \<open>kernel_thread\<close> is a \<open>partial_function\<close> whose value says that it does not
  return; the daemon's endless loop is a list of turns. The step relations have no bound on their runs.

  Not modelled: the files the kernel build generates, the assembly file \<open>entry.s\<close> of the audit example, and
  the type names and macros of the common headers.
  Threads are interleaved in \<open>Np_Nc\<close>, \<open>Wake_Up\<close>, \<open>Mutex_Threads\<close>, \<open>Newchr_Threads\<close>, \<open>Audit_Threads\<close>, \<open>Packet_Threads\<close>
  and, by turns, in \<open>Audit_Daemon\<close>; elsewhere a handler runs to its end before the next one starts.
  Reorderings by the processor or the compiler are not modelled.
\<close>

section \<open>Properties of the command attribute\<close>

text \<open>
  C2: of a text written to the attribute the first 255 characters count. When they are a command word, a
  blank or a newline and a rest, the handler of that command, and no other, runs on the rest; the
  order of the table decides nothing (\<open>setniceuser\<close> before \<open>setnice\<close>).
\<close>

theorem command_dispatch:
  assumes "(c, h) \<in> set command_handlers" "take 255 (cstr inp) = c @ x # arg" "x = SP \<or> x = NL"
  shows "my_data_store api (inp, n) s =
    bindF (run_command api h arg (emit [pr_info (''Received data: '' @ take 255 (cstr inp) @ [NL])] (kern s)))
      (\<lambda>k. Inr (int n, s\<lparr>my_data := snprintf_s (my_data s) 256 inp, kern := k\<rparr>))"
proof -
  have "NUL \<notin> set (take 255 (cstr inp))" by (meson cstr_no_NUL in_set_takeD)
  then have "cstr (take 255 (cstr inp)) = c @ x # arg" using assms(2) by (simp add: cstr_id)
  from find_command [OF assms(1) this] assms(3)
  have "find_handler (take 255 (cstr inp)) command_handlers = Some (c, h)" by auto
  then show ?thesis by (rule my_data_store_prefix [OF _ assms(2)])
qed

definition demo_sys2 :: sys2 where
  "demo_sys2 = \<lparr>my_data = my_data_static, kern = demo_kern\<rparr>"

lemma command_dispatch_witness:
  "my_data_store demo_api (''setnice 5'', 9) demo_sys2 =
    bindF (run_command demo_api C_set_all_task_nice ''5''
        (emit [pr_info (''Received data: '' @ cstr ''setnice 5'' @ [NL])] demo_kern))
      (\<lambda>k. Inr (9, demo_sys2\<lparr>my_data := snprintf_s my_data_static 256 ''setnice 5'', kern := k\<rparr>))"
  using command_dispatch [of "''setnice''" C_set_all_task_nice "''setnice 5''" SP "''5''" demo_api 9 demo_sys2]
  by (simp add: command_handlers_def strlen_def demo_sys2_def)

text \<open>
  C1: writing \<open>setmtu NAME N\<close> and a newline to the attribute, for an existing interface and a
  value between 68 and 65535, sets the MTU of exactly that interface to N, leaves everything else
  of the kernel as it was, and releases the device reference.
\<close>

theorem setmtu_store:
  assumes "kapi_ok api" "if_name w" "k_dev_get_by_name api (kern s) w = Some d"
    and "68 \<le> v" "v \<le> 65535" "inp = ''setmtu '' @ w @ SP # dec v @ [NL]" "length inp < 256"
  shows "\<exists>s' t. my_data_store api (inp, n) s = Inr (int n, s') \<and> balanced t \<and>
    kern s' = emit t ((kern s)\<lparr>netdevs := (netdevs (kern s))
      (d := (netdevs (kern s) d)\<lparr>mtu := v\<rparr>)\<rparr>)"
proof -
  let ?arg = "w @ SP # dec v @ [NL]"
  have nul: "NUL \<notin> set inp"
    using assms(2,6) dec_no_space [of NUL v] by (auto simp: if_name_def)
  then have inp: "cstr inp = ''setmtu'' @ SP # ?arg" using assms(6) by (simp add: cstr_id)
  let ?k = "emit [pr_info (''Received data: '' @ cstr inp @ [NL])] (kern s)"
  have "find_handler inp command_handlers = Some (''setmtu'', C_setmtu)"
    by (rule find_command [OF _ inp]) (simp_all add: command_handlers_def)
  moreover have len: "strlen inp < 256" using assms(7) length_cstr_le [of inp] by (simp add: strlen_def)
  ultimately have st: "my_data_store api (inp, n) s = bindF (run_command api C_setmtu ?arg ?k)
      (\<lambda>k. Inr (int n, s\<lparr>my_data := snprintf_s (my_data s) 256 inp, kern := k\<rparr>))"
    using stored_param [OF inp len] by (simp add: my_data_store_found)
  have "k_dev_get_by_name api ?k w = Some d" using assms(1,3) by (simp add: kapi_ok_lookup)
  then obtain t where "setmtu_in api (Some ?arg) ?k = Inr (0, emit t (with_mtu d v ?k))" "balanced t"
    using setmtu_effect [OF assms(1), of w ?k d v "[NL]"] assms(2,4,5) by (auto simp: if_name_def isdigit_def)
  with st show ?thesis
    by (auto simp: setmtu_def with_mtu_def intro!: exI [of _ "pr_info (''Received data: '' @ cstr inp @ [NL]) # t"])
qed

lemma setmtu_store_witness:
  "\<exists>s'. my_data_store demo_api (''setmtu eth0 '' @ dec 9000 @ [NL], 17) demo_sys2 = Inr (17, s') \<and>
     mtu (netdevs (kern s') 0) = 9000"
proof -
  have "k_dev_get_by_name demo_api (kern demo_sys2) ''eth0'' = Some 0"
    by (simp add: demo_sys2_def demo_lookups)
  from setmtu_store [OF demo_api_ok if_name_eth0 this, of 9000 "''setmtu eth0 '' @ dec 9000 @ [NL]" 17]
  show ?thesis by (auto simp: dec_def dec_nat.simps)
qed

text \<open>
  C7: after any sequence of stores, a read of the attribute gives at most 256 characters: the
  first 255 characters of the last text stored, up to its first NUL, and a newline.
\<close>

theorem store_then_show:
  assumes "buf_ok 256 (my_data s)" "run_stores (my_data_store api) (ws @ [(inp, n)]) s = Inr s'"
  shows "my_data_show s' = take 255 (cstr inp) @ [NL] \<and> length (my_data_show s') \<le> 256 \<and> buf_ok 256 (my_data s')"
  using sys2_attr.shown_last [OF assms] sys2_attr.run_ok [OF assms] sys2_attr.shown_length [OF assms] by simp

lemma demo_store:
  "\<exists>s'. my_data_store demo_api (''showkernelsymbol'', 16) demo_sys2 = Inr (16, s')"
proof -
  have f: "find_handler ''showkernelsymbol'' command_handlers = Some (''showkernelsymbol'', C_showkernelsymbol)"
    by (rule find_command [of _ _ _ "[]"]) (simp_all add: command_handlers_def)
  have "strlen ''showkernelsymbol'' < 256" by (simp add: strlen_def)
  from my_data_store_found [OF f this] show ?thesis by simp
qed

lemma store_then_show_witness:
  "\<exists>s'. my_data_store demo_api (''showkernelsymbol'', 16) demo_sys2 = Inr (16, s') \<and>
     my_data_show s' = ''showkernelsymbol'' @ [NL]"
proof -
  obtain s' where w: "my_data_store demo_api (''showkernelsymbol'', 16) demo_sys2 = Inr (16, s')"
    using demo_store by blast
  have "run_stores (my_data_store demo_api) ([] @ [(''showkernelsymbol'', 16)]) demo_sys2 = Inr s'"
    by (simp only: append_Nil run_stores.simps w bindF_simps prod.case)
  moreover have "buf_ok 256 (my_data demo_sys2)"
    by (simp add: demo_sys2_def my_data_static_def buf_ok_replicate)
  ultimately have "my_data_show s' = take 255 (cstr ''showkernelsymbol'') @ [NL]"
    using store_then_show by blast
  with w show ?thesis by simp
qed

text \<open>
  C8: no sequence of stores without \<open>parse\<close> and \<open>setsocketsize\<close> leaves a device reference, a pid
  reference, a block of memory or the RCU read lock behind, whatever the arguments are.
\<close>

theorem references_kept:
  assumes "run_stores (my_data_store api) ws s = Inr s'" "replay [] (trace (kern s)) = Some h"
    and "\<forall>w \<in> set ws. \<forall>c h. find_handler (take 255 (cstr (fst w))) command_handlers = Some (c, h) \<longrightarrow>
      h \<noteq> C_parse_command \<and> h \<noteq> C_setsocketsize"
  shows "replay [] (trace (kern s')) = Some h"
  using assms
proof (induction ws arbitrary: s)
  case (Cons w ws)
  then obtain r sa where st: "my_data_store api w s = Inr (r, sa)" "run_stores (my_data_store api) ws sa = Inr s'"
    by (auto simp: bindF_Inr)
  have "keeps_refs (kern s) (kern sa)"
    using Cons.prems(3) by (intro my_data_store_keeps [OF st(1)]) (auto simp: leaky_def)
  then have "replay [] (trace (kern sa)) = Some h" using Cons.prems(2) by (rule keeps_refs_replay)
  with Cons.IH [OF st(2)] Cons.prems(3) show ?case by simp
qed simp

lemma references_kept_witness:
  "\<exists>s'. my_data_store demo_api (''showkernelsymbol'', 16) demo_sys2 = Inr (16, s') \<and>
     replay [] (trace (kern s')) = Some []"
proof -
  obtain s' where w: "my_data_store demo_api (''showkernelsymbol'', 16) demo_sys2 = Inr (16, s')"
    using demo_store by blast
  have "run_stores (my_data_store demo_api) [(''showkernelsymbol'', 16)] demo_sys2 = Inr s'"
    by (simp only: run_stores.simps w bindF_simps prod.case)
  moreover have "replay [] (trace (kern demo_sys2)) = Some []" by (simp add: demo_sys2_def demo_lookups)
  moreover have "find_handler ''showkernelsymbol'' command_handlers = Some (''showkernelsymbol'', C_showkernelsymbol)"
    by (rule find_command [of _ _ _ "[]"]) (simp_all add: command_handlers_def)
  ultimately show ?thesis using w references_kept [of demo_api "[(''showkernelsymbol'', 16)]" demo_sys2 s' "[]"]
    by simp
qed

text \<open>
  C9: after any sequence of stores, of any commands with any arguments, the MTU of an interface is the one
  it had, or one from 68 to 65535, or 0: the last only where the layout of the kernel puts \<open>mtu\<close>
  among the words behind \<open>dev->stats\<close> that the \<open>memset\<close> of \<open>clearinterface\<close> reaches.
\<close>

theorem mtus_stay_valid:
  assumes "run_stores (my_data_store api) ws s = Inr s'"
  shows "mtu (netdevs (kern s') d) = mtu (netdevs (kern s) d) \<or>
    68 \<le> mtu (netdevs (kern s') d) \<and> mtu (netdevs (kern s') d) \<le> 65535 \<or>
    mtu (netdevs (kern s') d) = 0 \<and> 0 \<le> k_mtu_at api \<and> k_mtu_at api < int (k_link_stats64_words api)"
proof -
  have "mtu_set api (mtu (netdevs (kern s) d)) (mtu (netdevs (kern s') d))"
    using assms
  proof (induction ws arbitrary: s)
    case (Cons w ws)
    then obtain r sa where "my_data_store api w s = Inr (r, sa)" "run_stores (my_data_store api) ws sa = Inr s'"
      by (auto simp: bindF_Inr)
    then show ?case using Cons.IH my_data_store_mtu mtu_set_trans by blast
  qed (simp add: mtu_set_def)
  then show ?thesis by (auto simp: mtu_set_def hit_def)
qed

lemma mtus_stay_valid_witness:
  "\<exists>s'. my_data_store demo_api (''showkernelsymbol'', 16) demo_sys2 = Inr (16, s') \<and>
     (mtu (netdevs (kern s') 0) = 1500 \<or> 68 \<le> mtu (netdevs (kern s') 0) \<and> mtu (netdevs (kern s') 0) \<le> 65535)"
proof -
  obtain s' where w: "my_data_store demo_api (''showkernelsymbol'', 16) demo_sys2 = Inr (16, s')"
    using demo_store by blast
  have "run_stores (my_data_store demo_api) [(''showkernelsymbol'', 16)] demo_sys2 = Inr s'"
    by (simp only: run_stores.simps w bindF_simps prod.case)
  from mtus_stay_valid [OF this, of 0] w show ?thesis by (simp add: demo_api_def demo_sys2_def demo_kern_def)
qed

text \<open>
  C34: a command word stored without an argument or a separator runs its handler on what an earlier
  store left behind the word: \<open>param\<close> points past the terminator that \<open>snprintf\<close> wrote.
\<close>

theorem stale_argument:
  assumes "(c, h) \<in> set command_handlers" "cstr inp = c"
  shows "my_data_store api (inp, n) s =
    bindF (run_command api h (cstr (drop (length c + 1) (my_data s)))
        (emit [pr_info (''Received data: '' @ c @ [NL])] (kern s)))
      (\<lambda>k. Inr (int n, s\<lparr>my_data := snprintf_s (my_data s) 256 inp, kern := k\<rparr>))"
proof -
  have len: "length c \<le> 17" using command_names [OF assms(1)] by simp
  have "find_handler inp command_handlers = Some (c, h)"
    using find_command [OF assms(1), of inp "[]"] assms(2) by simp
  moreover have "strlen inp < 256" using len assms(2) by (simp add: strlen_def)
  moreover have "cstr (drop (length c + 1) (snprintf_s (my_data s) 256 inp)) = cstr (drop (length c + 1) (my_data s))"
    using len by (intro stale_param assms(2)) simp
  ultimately show ?thesis using my_data_store_found [of inp c h] assms(2) by metis
qed

lemma stale_argument_witness:
  "my_data_store demo_api (''setnice'', 7) (demo_sys2\<lparr>my_data := ''setnice 5'' @ replicate 246 NUL\<rparr>) =
    bindF (run_command demo_api C_set_all_task_nice ''5''
        (emit [pr_info (''Received data: setnice'' @ [NL])] demo_kern))
      (\<lambda>k. Inr (7, demo_sys2\<lparr>my_data := snprintf_s (''setnice 5'' @ replicate 246 NUL) 256 ''setnice'', kern := k\<rparr>))"
  using stale_argument [of "''setnice''" C_set_all_task_nice "''setnice''" demo_api 7
    "demo_sys2\<lparr>my_data := ''setnice 5'' @ replicate 246 NUL\<rparr>"]
  by (simp add: command_handlers_def demo_sys2_def numeral_eq_Suc)

end
